(* ===== verification/Prelude.thy ===== *)
theory Prelude
  imports Main "HOL-Library.Word" "HOL-Library.AList" "HOL-Library.Multiset"
begin

text \<open>
  Shared vocabulary of the development: bytes and addresses, the outcome type of fallible Go
  code, Go maps as association lists with unique keys, and deterministic machines run over a
  list of events. The locales \<open>run_machine\<close>, \<open>guarded_machine\<close>, \<open>metered_machine\<close> and \<open>history_machine\<close> are contracts that
  several components of the program fulfil: every operation keeps the component's invariant, and
  a state predicate survives every event that a guard admits.
\<close>

section \<open>Bytes, outcomes\<close>

type_synonym byte = "8 word"
type_synonym bytes = "byte list"

text \<open>
  A Go call ends with a value, with an error value, or with a run-time panic (nil dereference,
  slice index out of range). The message says which.
\<close>

datatype fault = Panic string | Err string

type_synonym 'a result = "fault + 'a"

text \<open>An error wrapped as \<open>fmt.Errorf("name: %v", err)\<close>; a panic goes through.\<close>

fun prefixed :: "string \<Rightarrow> fault \<Rightarrow> fault" where
  "prefixed name (Err e) = Err (name @ '': '' @ e)"
| "prefixed name (Panic e) = Panic e"

definition bindR :: "'a result \<Rightarrow> ('a \<Rightarrow> 'b result) \<Rightarrow> 'b result" where
  "bindR m f = (case m of Inl e \<Rightarrow> Inl e | Inr x \<Rightarrow> f x)"

lemma bindR_simps [simp]: "bindR (Inl e) f = Inl e" "bindR (Inr x) f = f x"
  by (simp_all add: bindR_def)

lemma bindR_eq_Inr: "bindR m f = Inr y \<longleftrightarrow> (\<exists>x. m = Inr x \<and> f x = Inr y)"
  by (cases m) auto

lemma bindR_eq_Inl: "bindR m f = Inl e \<longleftrightarrow> m = Inl e \<or> (\<exists>x. m = Inr x \<and> f x = Inl e)"
  by (cases m) auto

definition wrapR :: "string \<Rightarrow> 'a result \<Rightarrow> 'a result" where
  "wrapR name m = (case m of Inl e \<Rightarrow> Inl (prefixed name e) | Inr x \<Rightarrow> Inr x)"

lemma wrapR_simps [simp]: "wrapR name (Inl e) = Inl (prefixed name e)" "wrapR name (Inr x) = Inr x"
  by (simp_all add: wrapR_def)

lemma wrapR_eq_Inr [simp]: "wrapR name m = Inr y \<longleftrightarrow> m = Inr y"
  by (cases m) auto

text \<open>Rewriting rules that open the operations of a component.\<close>

named_theorems op_defs
named_theorems inv_intros

section \<open>Go maps\<close>

text \<open>
  A Go map is an association list whose keys are distinct: \<open>map_of\<close> reads it,
  \<open>AList.update\<close> and \<open>AList.delete\<close> write it, \<open>length\<close> is Go's \<open>len\<close>.
\<close>

type_synonym ('k, 'v) gomap = "('k \<times> 'v) list"

abbreviation keys_distinct :: "('k, 'v) gomap \<Rightarrow> bool" where
  "keys_distinct m \<equiv> distinct (map fst m)"

lemma map_of_update [simp]:
  "map_of (AList.update k v m) = (map_of m)(k \<mapsto> v)"
  by (rule update_conv')

lemma map_of_delete [simp]:
  "map_of (AList.delete k m) = (map_of m)(k := None)"
  by (rule delete_conv')

lemma keys_distinct_update [simp]:
  "keys_distinct m \<Longrightarrow> keys_distinct (AList.update k v m)"
  by (rule distinct_update)

lemma keys_distinct_delete [simp]:
  "keys_distinct m \<Longrightarrow> keys_distinct (AList.delete k m)"
  by (rule distinct_delete)

text \<open>Fewer entries than candidate keys: some candidate is not a key (the pigeonhole).\<close>

lemma gomap_has_gap:
  assumes "length m < card K"
  shows "\<exists>k \<in> K. map_of m k = None"
proof (rule ccontr)
  assume "\<not> ?thesis"
  then have "K \<subseteq> fst ` set m" by (auto simp: map_of_eq_None_iff)
  then have "card K \<le> card (fst ` set m)" by (intro card_mono) auto
  also have "\<dots> \<le> length m"
    by (metis card_image_le card_length finite_set le_trans)
  finally show False using assms by simp
qed

section \<open>Least index of a bounded search\<close>

text \<open>\<open>for i := 0; i < n; i++ { if p(i) { return i } }\<close>, with \<open>None\<close> for falling through.\<close>

fun first_upto :: "(int \<Rightarrow> bool) \<Rightarrow> int \<Rightarrow> nat \<Rightarrow> int option" where
  "first_upto p i 0 = None"
| "first_upto p i (Suc k) = (if p i then Some i else first_upto p (i + 1) k)"

lemma first_upto_Some:
  "first_upto p i k = Some j \<Longrightarrow> p j \<and> i \<le> j \<and> j < i + int k"
  by (induction p i k rule: first_upto.induct) (auto split: if_splits)

lemma first_upto_None:
  "first_upto p i k = None \<longleftrightarrow> (\<forall>j. i \<le> j \<and> j < i + int k \<longrightarrow> \<not> p j)"
proof (induction p i k rule: first_upto.induct)
  case (1 p i)
  show ?case by auto
next
  case (2 p i k)
  have split: "(i \<le> j \<and> j < i + int (Suc k)) = (j = i \<or> (i + 1 \<le> j \<and> j < i + 1 + int k))" for j
    by auto
  have "(\<forall>j. i \<le> j \<and> j < i + int (Suc k) \<longrightarrow> \<not> p j) \<longleftrightarrow>
      \<not> p i \<and> (\<forall>j. i + 1 \<le> j \<and> j < i + 1 + int k \<longrightarrow> \<not> p j)"
    unfolding split by blast
  then show ?case using 2 by simp
qed

lemma find_append:
  "find p (xs @ ys) = (case find p xs of None \<Rightarrow> find p ys | Some x \<Rightarrow> Some x)"
  by (induction xs) auto

section \<open>Machines\<close>

text \<open>
  A component that handles one event at a time: \<open>step\<close> takes the state and an event to the next
  state and the outputs of that step; \<open>run\<close> collects the outputs of a list of events.
\<close>

fun run :: "('s \<Rightarrow> 'e \<Rightarrow> 's \<times> 'o list) \<Rightarrow> 's \<Rightarrow> 'e list \<Rightarrow> 's \<times> 'o list" where
  "run step s [] = (s, [])"
| "run step s (e # es) =
     (let (s', os) = step s e; (s'', os') = run step s' es in (s'', os @ os'))"

lemma fst_run_Cons [simp]: "fst (run step s (e # es)) = fst (run step (fst (step s e)) es)"
  by (simp add: split_beta)

lemma snd_run_Cons [simp]:
  "snd (run step s (e # es)) = snd (step s e) @ snd (run step (fst (step s e)) es)"
  by (simp add: split_beta)

declare run.simps(2) [simp del]

lemma run_append:
  "run step s (es @ es') =
     (let (s', os) = run step s es; (s'', os') = run step s' es' in (s'', os @ os'))"
  by (induction es arbitrary: s) (auto simp: run.simps(2) split_beta)

locale run_machine =
  fixes step :: "'s \<Rightarrow> 'e \<Rightarrow> 's \<times> 'o list"
    and inv :: "'s \<Rightarrow> bool"
  assumes step_inv: "inv s \<Longrightarrow> inv (fst (step s e))"
begin

lemma run_inv: "inv s \<Longrightarrow> inv (fst (run step s es))"
  by (induction es arbitrary: s) (auto intro: step_inv)

end

text \<open>
  A guarded machine has a state predicate \<open>keep\<close> that every event admitted by \<open>guard\<close>
  preserves, and while it holds no output is \<open>bad\<close>.
\<close>

locale guarded_machine = run_machine step inv
  for step :: "'s \<Rightarrow> 'e \<Rightarrow> 's \<times> 'o list"
    and inv :: "'s \<Rightarrow> bool" +
  fixes guard :: "'e \<Rightarrow> bool"
    and keep :: "'s \<Rightarrow> bool"
    and bad :: "'o \<Rightarrow> bool"
  assumes step_keep: "inv s \<Longrightarrow> keep s \<Longrightarrow> guard e \<Longrightarrow> keep (fst (step s e))"
    and step_good: "inv s \<Longrightarrow> keep s \<Longrightarrow> guard e \<Longrightarrow> out \<in> set (snd (step s e)) \<Longrightarrow> \<not> bad out"
begin

lemma run_keep:
  "inv s \<Longrightarrow> keep s \<Longrightarrow> list_all guard es \<Longrightarrow> keep (fst (run step s es))"
  by (induction es arbitrary: s) (auto intro: step_inv step_keep)

lemma run_good:
  "inv s \<Longrightarrow> keep s \<Longrightarrow> list_all guard es \<Longrightarrow> out \<in> set (snd (run step s es)) \<Longrightarrow> \<not> bad out"
  by (induction es arbitrary: s) (auto dest: step_good intro: step_inv step_keep)

end

text \<open>
  A metered machine has a quantity that every admitted event changes by an amount of the event alone.
\<close>

locale metered_machine =
  fixes step :: "'s \<Rightarrow> 'e \<Rightarrow> 's \<times> 'o list"
    and inv :: "'s \<Rightarrow> bool"
    and guard :: "'e \<Rightarrow> bool"
    and amount :: "'s \<Rightarrow> 'a :: comm_monoid_add"
    and source :: "'e \<Rightarrow> 'a"
  assumes step_inv: "inv s \<Longrightarrow> guard e \<Longrightarrow> inv (fst (step s e))"
    and step_amount: "inv s \<Longrightarrow> guard e \<Longrightarrow> amount (fst (step s e)) = amount s + source e"
begin

lemma run_amount:
  "inv s \<Longrightarrow> list_all guard es \<Longrightarrow>
   inv (fst (run step s es)) \<and> amount (fst (run step s es)) = amount s + sum_list (map source es)"
  by (induction es arbitrary: s) (simp_all add: step_inv step_amount add.assoc)

end

text \<open>
  A history machine ties its state to the whole history of events, with an admissible event's step
  keeping the tie.
\<close>

locale history_machine =
  fixes step :: "'s \<Rightarrow> 'e \<Rightarrow> 's \<times> 'o list"
    and guard :: "'e \<Rightarrow> bool"
    and tied :: "'s \<Rightarrow> 'e list \<Rightarrow> bool"
  assumes step_tied: "tied s h \<Longrightarrow> guard e \<Longrightarrow> tied (fst (step s e)) (h @ [e])"
begin

lemma run_tied: "tied s h \<Longrightarrow> list_all guard es \<Longrightarrow> tied (fst (run step s es)) (h @ es)"
proof (induction es arbitrary: s h)
  case (Cons e es)
  then show ?case using Cons.IH [OF step_tied [OF Cons.prems(1)]] by simp
qed simp

end

text \<open>What a guarded machine keeps is a tie to the history that does not look at it.\<close>

sublocale guarded_machine \<subseteq> history: history_machine step guard "\<lambda>s h. inv s \<and> keep s"
  by unfold_locales (auto intro: step_inv step_keep)

end
