(* ===== verification/GoLib.thy ===== *)
theory GoLib
  imports Prelude
begin

text \<open>
  The parts of the Go standard library that the program calls, as functions on bytes, characters
  and integers: \<open>time\<close>, \<open>net.IP\<close>, \<open>net.HardwareAddr\<close>, \<open>encoding/hex\<close>, \<open>sort.Search\<close>,
  \<open>bytes.Compare\<close>. Strings are lists of bytes (\<open>char\<close>), as Go strings are.
\<close>

section \<open>time\<close>

text \<open>
  A \<open>time.Time\<close> is the number of nanoseconds since the zero time (January 1, year 1, UTC), a
  \<open>time.Duration\<close> a number of nanoseconds.
\<close>

type_synonym time = int
type_synonym duration = int

definition IsZero :: "time \<Rightarrow> bool" where "IsZero t \<longleftrightarrow> t = 0"
definition After :: "time \<Rightarrow> time \<Rightarrow> bool" where "After t u \<longleftrightarrow> u < t"
definition Before :: "time \<Rightarrow> time \<Rightarrow> bool" where "Before t u \<longleftrightarrow> t < u"

definition Second :: duration where "Second = 1000000000"
definition Minute :: duration where "Minute = 60 * Second"
definition Hour :: duration where "Hour = 60 * Minute"

section \<open>net.IP\<close>

text \<open>The nil slice and the empty slice are both \<open>[]\<close>: the code tells them apart for one value only, which is an option in the model.\<close>

definition v4InV6Prefix :: bytes where
  "v4InV6Prefix = replicate 10 0 @ [0xff, 0xff]"

definition IPv4 :: "byte \<Rightarrow> byte \<Rightarrow> byte \<Rightarrow> byte \<Rightarrow> bytes" where
  "IPv4 a b c d = v4InV6Prefix @ [a, b, c, d]"

definition IPv4zero :: bytes where "IPv4zero = IPv4 0 0 0 0"
definition IPv4bcast :: bytes where "IPv4bcast = IPv4 255 255 255 255"

definition To4 :: "bytes \<Rightarrow> bytes" where
  "To4 ip =
     (if length ip = 4 then ip
      else if length ip = 16 \<and> take 12 ip = v4InV6Prefix then drop 12 ip
      else [])"

definition To16 :: "bytes \<Rightarrow> bytes" where
  "To16 ip =
     (if length ip = 4 then v4InV6Prefix @ ip
      else if length ip = 16 then ip
      else [])"

definition IP_Equal :: "bytes \<Rightarrow> bytes \<Rightarrow> bool" where
  "IP_Equal ip x =
     (if length ip = length x then ip = x
      else if length ip = 4 \<and> length x = 16 then take 12 x = v4InV6Prefix \<and> ip = drop 12 x
      else if length ip = 16 \<and> length x = 4 then take 12 ip = v4InV6Prefix \<and> drop 12 ip = x
      else False)"

lemma length_v4InV6Prefix [simp]: "length v4InV6Prefix = 12"
  by (simp add: v4InV6Prefix_def)

lemma To4_4 [simp]: "length ip = 4 \<Longrightarrow> To4 ip = ip"
  by (simp add: To4_def)

lemma length_To4: "length (To4 ip) = 4 \<or> To4 ip = []"
  by (auto simp: To4_def)

lemma To4_IPv4 [simp]: "To4 (IPv4 a b c d) = [a, b, c, d]"
  by (simp add: To4_def IPv4_def)

lemma IP_Equal_refl [simp]: "IP_Equal ip ip"
  by (simp add: IP_Equal_def)

lemma IP_Equal_IPv4zero: "length ip = 4 \<Longrightarrow> IP_Equal ip IPv4zero \<longleftrightarrow> ip = [0, 0, 0, 0]"
  by (simp add: IP_Equal_def IPv4zero_def IPv4_def)

lemma not_IP_Equal_nil_IPv4zero [simp]: "\<not> IP_Equal [] IPv4zero"
  by (simp add: IP_Equal_def IPv4zero_def IPv4_def)

text \<open>An address as a big-endian number, and back.\<close>

definition be_val :: "bytes \<Rightarrow> nat" where
  "be_val bs = foldl (\<lambda>n b. 256 * n + unat b) 0 bs"

definition be_bytes4 :: "nat \<Rightarrow> bytes" where
  "be_bytes4 n = [of_nat (n div 16777216), of_nat (n div 65536), of_nat (n div 256), of_nat n]"

lemma length_be_bytes4 [simp]: "length (be_bytes4 n) = 4"
  by (simp add: be_bytes4_def)

lemma unat_of_nat_byte: "unat (of_nat n :: byte) = n mod 256"
  by (simp add: unat_of_nat take_bit_eq_mod)

lemma be_val_be_bytes4: "n < 2 ^ 32 \<Longrightarrow> be_val (be_bytes4 n) = n"
proof -
  assume n: "n < 2 ^ 32"
  have d: "n div 65536 = n div 256 div 256" "n div 16777216 = n div 256 div 256 div 256"
    by (simp_all add: div_mult2_eq [symmetric])
  have "n div 256 div 256 div 256 < 256"
    using n by (simp add: div_mult2_eq [symmetric] less_mult_imp_div_less)
  then show ?thesis
    by (simp add: be_val_def be_bytes4_def unat_of_nat_byte d)
qed

lemma length_4_iff: "length xs = 4 \<longleftrightarrow> (\<exists>a b c d. xs = [a, b, c, d])"
  by (auto simp: length_Suc_conv numeral_eq_Suc)

lemma unat_byte_less: "unat (b :: byte) < 256"
  using unsigned_less [of b] by simp

lemma base_eq_iff:
  fixes k :: nat
  assumes "a < k" "b < k"
  shows "k * x + a = k * y + b \<longleftrightarrow> x = y \<and> a = b"
proof
  assume eq: "k * x + a = k * y + b"
  have "(k * x + a) div k = x" "(k * y + b) div k = y" using assms by simp_all
  then have "x = y" using eq by simp
  then show "x = y \<and> a = b" using eq by simp
qed simp

lemma base256_eq:
  "256 * x + a = 256 * y + b \<Longrightarrow> a < 256 \<Longrightarrow> b < (256::nat) \<Longrightarrow> x = y \<and> a = b"
  by (simp add: base_eq_iff)

lemma be_val_inj4:
  assumes "length xs = 4" "length ys = 4" "be_val xs = be_val ys"
  shows "xs = ys"
proof -
  obtain a b c d e f g h where xs: "xs = [a, b, c, d]" and ys: "ys = [e, f, g, h]"
    using assms(1,2) by (auto simp: length_4_iff)
  have "unat a < 256" "unat b < 256" "unat c < 256" "unat d < 256"
    "unat e < 256" "unat f < 256" "unat g < 256" "unat h < 256" by (rule unat_byte_less)+
  moreover have "256 * (256 * (256 * unat a + unat b) + unat c) + unat d =
      256 * (256 * (256 * unat e + unat f) + unat g) + unat h"
    using assms(3) by (simp add: xs ys be_val_def)
  ultimately have "unat a = unat e \<and> unat b = unat f \<and> unat c = unat g \<and> unat d = unat h"
    by (metis base256_eq)
  then show ?thesis by (simp add: xs ys word_unat_eq_iff)
qed

lemma be_val_less4: "length xs = 4 \<Longrightarrow> be_val xs < 2 ^ 32"
proof -
  assume "length xs = 4"
  then obtain a b c d where xs: "xs = [a, b, c, d]" by (auto simp: length_4_iff)
  have "unat a < 256" "unat b < 256" "unat c < 256" "unat d < 256" by (rule unat_byte_less)+
  moreover have "be_val xs = 256 * (256 * (256 * unat a + unat b) + unat c) + unat d"
    by (simp add: xs be_val_def)
  ultimately show "be_val xs < 2 ^ 32" by simp
qed

text \<open>Two addresses are in the same /24 network if they agree on the three leading bytes.\<close>

lemma unat_byte_Suc: "unat (d + 1 :: byte) = (if d = 255 then 0 else unat d + 1)"
proof (cases "d = 255")
  case False
  then have "unat d \<noteq> 255" by (simp add: word_unat_eq_iff)
  then have "unat d + 1 < 256" using unat_byte_less [of d] by simp
  then show ?thesis using False by (simp add: unat_word_ariths)
qed simp

lemma take3_eq_iff:
  assumes "length xs = 4" "length ys = 4"
  shows "take 3 xs = take 3 ys \<longleftrightarrow> be_val xs div 256 = be_val ys div 256"
proof -
  obtain a b c d e f g h where xs: "xs = [a, b, c, d]" and ys: "ys = [e, f, g, h]"
    using assms by (auto simp: length_4_iff)
  have d: "be_val xs div 256 = be_val [0, a, b, c]" "be_val ys div 256 = be_val [0, e, f, g]"
    using unat_byte_less [of d] unat_byte_less [of h] by (simp_all add: xs ys be_val_def)
  show ?thesis
    unfolding d using be_val_inj4 [of "[0, a, b, c]" "[0, e, f, g]"] by (auto simp: xs ys)
qed

section \<open>Slices and strings\<close>

text \<open>\<open>copy(dst, src)\<close> overwrites a prefix of \<open>dst\<close> of the shorter length; \<open>string(b)\<close> reads bytes as characters.\<close>

definition go_copy :: "'a list \<Rightarrow> 'a list \<Rightarrow> 'a list" where
  "go_copy dst src = take (length dst) src @ drop (length src) dst"

definition go_string :: "bytes \<Rightarrow> string" where
  "go_string bs = map (\<lambda>b. char_of (unat b)) bs"

definition go_bytes :: "string \<Rightarrow> bytes" where
  "go_bytes s = map (\<lambda>c. of_nat (of_char c)) s"

lemma length_go_copy [simp]: "length (go_copy dst src) = length dst"
  by (simp add: go_copy_def)

lemma go_copy_same_length [simp]: "length dst = length src \<Longrightarrow> go_copy dst src = src"
  by (simp add: go_copy_def)

section \<open>net.HardwareAddr, encoding/hex\<close>

definition hexDigit :: "nat \<Rightarrow> char" where
  "hexDigit n = ''0123456789abcdef'' ! n"

definition hex2 :: "byte \<Rightarrow> string" where
  "hex2 b = [hexDigit (unat b div 16), hexDigit (unat b mod 16)]"

text \<open>\<open>HardwareAddr.String\<close>: two lower-case digits per byte, colons between.\<close>

fun mac_string :: "bytes \<Rightarrow> string" where
  "mac_string [] = ''''"
| "mac_string [b] = hex2 b"
| "mac_string (b # bs) = hex2 b @ '':'' @ mac_string bs"

lemma mac_string_Nil_iff: "mac_string bs = [] \<longleftrightarrow> bs = []"
  by (cases bs rule: mac_string.cases) (simp_all add: hex2_def)

definition fromHex :: "char \<Rightarrow> nat option" where
  "fromHex c =
     (let n = of_char c :: nat in
      if 48 \<le> n \<and> n \<le> 57 then Some (n - 48)
      else if 97 \<le> n \<and> n \<le> 102 then Some (n - 87)
      else if 65 \<le> n \<and> n \<le> 70 then Some (n - 55)
      else None)"

text \<open>\<open>hex.DecodeString\<close>; the partial output that accompanies an error is never used.\<close>

fun hex_decode :: "string \<Rightarrow> bytes result" where
  "hex_decode [] = Inr []"
| "hex_decode [p] =
     (case fromHex p of None \<Rightarrow> Inl (Err ''invalid byte'') | Some _ \<Rightarrow> Inl (Err ''odd length hex string''))"
| "hex_decode (p # q # r) =
     (case fromHex p of None \<Rightarrow> Inl (Err ''invalid byte'')
      | Some a \<Rightarrow> (case fromHex q of None \<Rightarrow> Inl (Err ''invalid byte'')
        | Some b \<Rightarrow> bindR (hex_decode r) (\<lambda>bs. Inr (of_nat (16 * a + b) # bs))))"

text \<open>\<open>strings.ReplaceAll(s, ":", "")\<close>.\<close>

definition strip_colons :: "string \<Rightarrow> string" where
  "strip_colons s = filter (\<lambda>c. c \<noteq> CHR '':'') s"

lemma every_digit: "list_all p [0..<16] \<Longrightarrow> n < 16 \<Longrightarrow> p n"
  by (simp add: list_all_iff)

lemma hexDigit_table:
  "list_all (\<lambda>n. fromHex (hexDigit n) = Some n \<and> hexDigit n \<noteq> CHR '':'') [0..<16]"
  by (simp add: upt_rec fromHex_def hexDigit_def)

lemma fromHex_hexDigit: "n < 16 \<Longrightarrow> fromHex (hexDigit n) = Some n"
  using every_digit [OF hexDigit_table] by simp

lemma hexDigit_not_colon: "n < 16 \<Longrightarrow> hexDigit n \<noteq> CHR '':''"
  using every_digit [OF hexDigit_table] by simp

lemma byte_div16: "unat (b :: byte) div 16 < 16"
  using unat_byte_less [of b] by (simp add: less_mult_imp_div_less)

lemma hex_decode_hex2: "hex_decode (hex2 b @ r) = bindR (hex_decode r) (\<lambda>bs. Inr (b # bs))"
proof -
  have "16 * (unat b div 16) + unat b mod 16 = unat b" by simp
  then have "of_nat (16 * (unat b div 16) + unat b mod 16) = b"
    by (metis of_nat_unat ucast_id)
  then show ?thesis
    by (simp add: hex2_def fromHex_hexDigit byte_div16 del: of_nat_add of_nat_mult)
qed

lemma strip_colons_hex2: "strip_colons (hex2 b @ r) = hex2 b @ strip_colons r"
  by (simp add: strip_colons_def hex2_def hexDigit_not_colon byte_div16)

lemma strip_colons_Nil [simp]: "strip_colons [] = []"
  by (simp add: strip_colons_def)

lemma strip_colons_colon [simp]: "strip_colons (CHR '':'' # r) = strip_colons r"
  by (simp add: strip_colons_def)

lemma hex_decode_mac_string: "hex_decode (strip_colons (mac_string bs)) = Inr bs"
proof (induction bs rule: mac_string.induct)
  case 1
  show ?case by simp
next
  case (2 b)
  show ?case using strip_colons_hex2 [of b "[]"] hex_decode_hex2 [of b "[]"] by simp
next
  case (3 b c bs)
  then show ?case by (simp add: strip_colons_hex2 hex_decode_hex2)
qed

lemma mac_string_inj: "mac_string bs = mac_string cs \<longleftrightarrow> bs = cs"
  by (metis hex_decode_mac_string sum.inject(2))

lemma length_mac_string: "length (mac_string bs) = 3 * length bs - 1"
  by (induction bs rule: mac_string.induct) (auto simp: hex2_def)

section \<open>bytes.Compare, sort.Search\<close>

fun bytes_Compare :: "bytes \<Rightarrow> bytes \<Rightarrow> int" where
  "bytes_Compare [] [] = 0"
| "bytes_Compare [] (_ # _) = -1"
| "bytes_Compare (_ # _) [] = 1"
| "bytes_Compare (a # as) (b # bs) =
     (if a < b then -1 else if b < a then 1 else bytes_Compare as bs)"

lemma bytes_Compare_eq: "bytes_Compare as bs = 0 \<longleftrightarrow> as = bs"
  by (induction as bs rule: bytes_Compare.induct) auto

lemma bytes_Compare_trans:
  "bytes_Compare as bs < 0 \<Longrightarrow> bytes_Compare bs cs < 0 \<Longrightarrow> bytes_Compare as cs < 0"
proof (induction as bs arbitrary: cs rule: bytes_Compare.induct)
  case (4 a as b bs)
  then show ?case by (cases cs) (auto split: if_splits)
next
  case (2 b bs)
  then show ?case by (cases cs) auto
qed simp_all

lemma bytes_Compare_anti: "bytes_Compare as bs < 0 \<longleftrightarrow> 0 < bytes_Compare bs as"
  by (induction as bs rule: bytes_Compare.induct) auto

text \<open>\<open>sort.Search(n, f)\<close>: bisection over \<open>[0, n)\<close> for the least index at which \<open>f\<close> holds.\<close>

function search_loop :: "(nat \<Rightarrow> bool) \<Rightarrow> nat \<Rightarrow> nat \<Rightarrow> nat" where
  "search_loop f i j =
     (if i < j
      then let h = (i + j) div 2
           in if \<not> f h then search_loop f (h + 1) j else search_loop f i h
      else i)"
  by pat_completeness auto
termination
  by (relation "measure (\<lambda>(f, i, j). j - i)") auto

declare search_loop.simps [simp del]

definition sort_Search :: "nat \<Rightarrow> (nat \<Rightarrow> bool) \<Rightarrow> nat" where
  "sort_Search n f = search_loop f 0 n"

lemma search_loop_least:
  assumes mono: "\<And>k l. f k \<Longrightarrow> k \<le> l \<Longrightarrow> l < n \<Longrightarrow> f l"
  shows "i \<le> j \<Longrightarrow> j \<le> n \<Longrightarrow> (\<forall>k<i. \<not> f k) \<Longrightarrow> (\<forall>k. j \<le> k \<and> k < n \<longrightarrow> f k) \<Longrightarrow>
    search_loop f i j \<le> n \<and> (\<forall>k. k < search_loop f i j \<longrightarrow> \<not> f k) \<and>
    (\<forall>k. search_loop f i j \<le> k \<and> k < n \<longrightarrow> f k)"
  using assms
proof (induction f i j rule: search_loop.induct)
  case (1 f i j)
  show ?case
  proof (cases "i < j")
    case False
    with "1.prems" show ?thesis by (subst (1 2 3) search_loop.simps) auto
  next
    case True
    define h where "h = (i + j) div 2"
    have h: "i \<le> h" "h < j" using True by (auto simp: h_def)
    show ?thesis
    proof (cases "f h")
      case False
      have "h < n" using h "1.prems"(2) by simp
      with False have "\<not> f k" if "k \<le> h" for k
        using "1.prems"(5) [of k h] that by blast
      then have lt: "\<forall>k<h + 1. \<not> f k" by simp
      have eq: "search_loop f i j = search_loop f (h + 1) j"
        using True False by (subst search_loop.simps) (simp add: Let_def h_def)
      show ?thesis
        unfolding eq using Suc_leI [OF h(2)] "1.prems"(2,4) lt False unfolding Suc_eq_plus1
        by (intro "1.IH"(1) [OF True h_def _ _ _ _ _ "1.prems"(5)]) assumption+
    next
      case f: True
      then have ge: "\<forall>k. h \<le> k \<and> k < n \<longrightarrow> f k" using "1.prems"(5) by blast
      have "h \<le> n" using h "1.prems"(2) by simp
      have eq: "search_loop f i j = search_loop f i h"
        using True f by (subst search_loop.simps) (simp add: Let_def h_def)
      show ?thesis
        unfolding eq using h(1) \<open>h \<le> n\<close> "1.prems"(3) ge f
        by (intro "1.IH"(2) [OF True h_def _ _ _ _ _ "1.prems"(5)]) simp_all
    qed
  qed
qed

lemma sort_Search_least:
  assumes mono: "\<And>k l. f k \<Longrightarrow> k \<le> l \<Longrightarrow> l < n \<Longrightarrow> f l"
  shows "sort_Search n f \<le> n" "k < sort_Search n f \<Longrightarrow> \<not> f k"
    "sort_Search n f \<le> k \<Longrightarrow> k < n \<Longrightarrow> f k"
proof -
  have "search_loop f 0 n \<le> n \<and> (\<forall>k. k < search_loop f 0 n \<longrightarrow> \<not> f k) \<and>
      (\<forall>k. search_loop f 0 n \<le> k \<and> k < n \<longrightarrow> f k)"
    by (rule search_loop_least) (use mono in auto)
  then show "sort_Search n f \<le> n" "k < sort_Search n f \<Longrightarrow> \<not> f k"
    "sort_Search n f \<le> k \<Longrightarrow> k < n \<Longrightarrow> f k"
    unfolding sort_Search_def by blast+
qed

section \<open>sort.Slice\<close>

text \<open>
  The library's insertion sort (the algorithm it uses for up to twelve elements): each element
  moves left while it is less than its neighbour. The sorted prefix is kept reversed.
\<close>

fun insert_left :: "('a \<Rightarrow> 'a \<Rightarrow> bool) \<Rightarrow> 'a \<Rightarrow> 'a list \<Rightarrow> 'a list" where
  "insert_left lt x [] = [x]"
| "insert_left lt x (y # ys) = (if lt x y then y # insert_left lt x ys else x # y # ys)"

definition sort_Slice :: "('a \<Rightarrow> 'a \<Rightarrow> bool) \<Rightarrow> 'a list \<Rightarrow> 'a list" where
  "sort_Slice lt xs = rev (foldl (\<lambda>acc x. insert_left lt x acc) [] xs)"

lemma mset_insert_left [simp]: "mset (insert_left lt x ys) = add_mset x (mset ys)"
  by (induction ys) auto

lemma set_insert_left: "set (insert_left lt x ys) = insert x (set ys)"
  by (induction ys) auto

lemma mset_sort_Slice [simp]: "mset (sort_Slice lt xs) = mset xs"
proof -
  have "mset (foldl (\<lambda>acc x. insert_left lt x acc) acc xs) = mset acc + mset xs" for acc
    by (induction xs arbitrary: acc) auto
  then show ?thesis by (simp add: sort_Slice_def)
qed

text \<open>A comparison that is strict or not, as long as it decides the order of a key.\<close>

lemma sorted_sort_Slice:
  fixes f :: "'a \<Rightarrow> 'b :: linorder"
  assumes "\<And>x y. lt x y \<Longrightarrow> f x \<le> f y" "\<And>x y. \<not> lt x y \<Longrightarrow> f y \<le> f x"
  shows "sorted (map f (sort_Slice lt xs))"
proof -
  have ins: "sorted (map f (rev (insert_left lt x ys)))" if "sorted (map f (rev ys))" for x ys
    using that
  proof (induction ys)
    case (Cons y ys)
    then show ?case
      by (auto simp: sorted_append set_insert_left intro: assms order_trans)
  qed simp
  have "sorted (map f (rev (foldl (\<lambda>acc x. insert_left lt x acc) acc xs)))" if "sorted (map f (rev acc))" for acc
    using that ins by (induction xs arbitrary: acc) auto
  then show ?thesis by (simp add: sort_Slice_def)
qed

end
