(* ===== verification/Quirks.thy ===== *)
theory Quirks
  imports GoLib
begin

text \<open>
  \<open>dhcp/dhcp4d/quirks.go\<close>: the table of MAC address prefixes assigned to Nintendo, and the
  contract of a table that is searched by bisection: it is strictly sorted. The locale
  \<open>sorted_table\<close> proves once that the code's search (\<open>sort.Search\<close> followed by a comparison)
  decides membership; it is interpreted on the table of the source.
\<close>

section \<open>Tables searched by bisection\<close>

definition table_index :: "bytes list \<Rightarrow> bytes \<Rightarrow> nat" where
  "table_index tbl x = sort_Search (length tbl) (\<lambda>i. bytes_Compare (tbl ! i) x \<ge> 0)"

definition table_hit :: "bytes list \<Rightarrow> bytes \<Rightarrow> bool" where
  "table_hit tbl x = (let i = table_index tbl x in i < length tbl \<and> tbl ! i = x)"

locale sorted_table =
  fixes tbl :: "bytes list"
  assumes table_sorted: "sorted_wrt (\<lambda>a b. bytes_Compare a b < 0) tbl"
begin

lemma nth_less: "i < j \<Longrightarrow> j < length tbl \<Longrightarrow> bytes_Compare (tbl ! i) (tbl ! j) < 0"
  using table_sorted by (auto simp: sorted_wrt_iff_nth_less)

lemma probe_mono:
  assumes "bytes_Compare (tbl ! k) x \<ge> 0" "k \<le> l" "l < length tbl"
  shows "bytes_Compare (tbl ! l) x \<ge> 0"
proof (cases "k = l")
  case False
  then have "bytes_Compare (tbl ! k) (tbl ! l) < 0"
    using assms(2,3) by (intro nth_less) auto
  then show ?thesis
    using assms(1) bytes_Compare_trans by (meson linorder_not_less)
qed (use assms in simp)

lemma hit_iff: "table_hit tbl x \<longleftrightarrow> x \<in> set tbl"
proof
  show "table_hit tbl x \<Longrightarrow> x \<in> set tbl"
    unfolding table_hit_def Let_def by (metis nth_mem)
next
  assume "x \<in> set tbl"
  then obtain k where k: "k < length tbl" "tbl ! k = x"
    by (auto simp: in_set_conv_nth)
  let ?f = "\<lambda>i. bytes_Compare (tbl ! i) x \<ge> 0"
  have mono: "?f i \<Longrightarrow> i \<le> j \<Longrightarrow> j < length tbl \<Longrightarrow> ?f j" for i j
    by (rule probe_mono)
  note least = sort_Search_least [of ?f "length tbl", OF mono]
  have fk: "?f k" using k by (simp add: bytes_Compare_eq [THEN iffD2])
  have le: "table_index tbl x \<le> k"
    unfolding table_index_def by (rule ccontr) (use least(2) [where k = k] fk in auto)
  then have ge: "?f (table_index tbl x)"
    using least(3) [where k = "table_index tbl x"] k by (simp add: table_index_def)
  have "table_index tbl x = k"
  proof (rule ccontr)
    assume "table_index tbl x \<noteq> k"
    with le have "bytes_Compare (tbl ! table_index tbl x) x < 0"
      using nth_less [of "table_index tbl x" k] k by simp
    with ge show False by simp
  qed
  with k show "table_hit tbl x" by (simp add: table_hit_def)
qed

end

section \<open>The Nintendo prefixes\<close>

definition nintendoMacPrefixes :: "bytes list" where
  "nintendoMacPrefixes = [
    [0x0, 0x9, 0xbf], [0x0, 0x16, 0x56], [0x0, 0x17, 0xab], [0x0, 0x19, 0x1d],
    [0x0, 0x19, 0xfd], [0x0, 0x1a, 0xe9], [0x0, 0x1b, 0x7a], [0x0, 0x1b, 0xea],
    [0x0, 0x1c, 0xbe], [0x0, 0x1d, 0xbc], [0x0, 0x1e, 0x35], [0x0, 0x1e, 0xa9],
    [0x0, 0x1f, 0x32], [0x0, 0x1f, 0xc5], [0x0, 0x21, 0x47], [0x0, 0x21, 0xbd],
    [0x0, 0x22, 0x4c], [0x0, 0x22, 0xaa], [0x0, 0x22, 0xd7], [0x0, 0x23, 0x31],
    [0x0, 0x23, 0xcc], [0x0, 0x24, 0x1e], [0x0, 0x24, 0x44], [0x0, 0x24, 0xf3],
    [0x0, 0x25, 0xa0], [0x0, 0x26, 0x59], [0x0, 0x27, 0x9], [0x4, 0x3, 0xd6],
    [0x18, 0x2a, 0x7b], [0x2c, 0x10, 0xc1], [0x34, 0x2f, 0xbd], [0x34, 0xaf, 0x2c],
    [0x40, 0xd2, 0x8a], [0x40, 0xf4, 0x7], [0x48, 0xa5, 0xe7], [0x58, 0x2f, 0x40],
    [0x58, 0xbd, 0xa3], [0x5c, 0x52, 0x1e], [0x60, 0x6b, 0xff], [0x64, 0xb5, 0xc6],
    [0x70, 0x48, 0xf7], [0x78, 0xa2, 0xa0], [0x7c, 0xbb, 0x8a], [0x8c, 0x56, 0xc5],
    [0x8c, 0xcd, 0xe8], [0x94, 0x58, 0xcb], [0x98, 0x41, 0x5c], [0x98, 0xb6, 0xe9],
    [0x98, 0xe8, 0xfa], [0x9c, 0xe6, 0x35], [0xa4, 0x38, 0xcc], [0xa4, 0x5c, 0x27],
    [0xa4, 0xc0, 0xe1], [0xb8, 0x78, 0x26], [0xb8, 0x8a, 0xec], [0xb8, 0xae, 0x6e],
    [0xcc, 0x9e, 0x0], [0xcc, 0xfb, 0x65], [0xd4, 0xf0, 0x57], [0xd8, 0x6b, 0xf7],
    [0xdc, 0x68, 0xeb], [0xe0, 0xc, 0x7f], [0xe0, 0xe7, 0x51], [0xe0, 0xf6, 0xb5],
    [0xe8, 0x4e, 0xce], [0xe8, 0xda, 0x20], [0xec, 0xc4, 0xd]]"

text \<open>Strict sortedness of neighbours is enough, since the comparison is transitive.\<close>

fun ascending :: "bytes list \<Rightarrow> bool" where
  "ascending [] = True"
| "ascending [x] = True"
| "ascending (x # y # xs) = (bytes_Compare x y < 0 \<and> ascending (y # xs))"

lemma ascending_sorted: "ascending xs \<Longrightarrow> sorted_wrt (\<lambda>a b. bytes_Compare a b < 0) xs"
proof (induction xs rule: ascending.induct)
  case (3 x y xs)
  then show ?case using bytes_Compare_trans by fastforce
qed simp_all

lemma ascending_nintendo: "ascending nintendoMacPrefixes"
  by (simp add: nintendoMacPrefixes_def)

interpretation nintendo: sorted_table nintendoMacPrefixes
  by unfold_locales (rule ascending_sorted [OF ascending_nintendo])

end
