(* ===== verification/Dhcp4d.thy ===== *)
theory Dhcp4d
  imports Quirks
begin

text \<open>
  \<open>dhcp/dhcp4d/dhcp4d.go\<close>: the DHCPv4 server's lease database and its message handler.
  Leases are Go pointers that the two maps and the callers share, so they live in a heap
  (\<open>heap\<close>, a list whose indices are the pointers) that only grows. The wire format is the
  business of the package \<open>krolaw/dhcp4\<close>: a packet is the record of what its accessors return, a
  reply is the call of \<open>dhcp4.ReplyPacket\<close> with its arguments, and the address arithmetic of that
  package (\<open>IPRange\<close>, \<open>IPAdd\<close>) and the accessor \<open>YIAddr\<close> of a reply are parameters. Every read of
  the clock, the random number and the iteration order of a map are separate inputs of an
  operation (\<open>env\<close>).
\<close>

section \<open>Data\<close>

record Lease =
  Num :: int
  Addr :: bytes
  HardwareAddr :: string
  Hostname :: string
  HostnameOverride :: string
  Expiry :: time

definition Expired :: "Lease \<Rightarrow> time \<Rightarrow> bool" where
  "Expired l at \<longleftrightarrow> \<not> IsZero (Expiry l) \<and> After at (Expiry l)"

type_synonym ptr = nat

datatype OptionCode =
  OptionSubnetMask | OptionRouter | OptionDomainNameServer | OptionHostName | OptionDomainName
| OptionRequestedIPAddress | OptionIPAddressLeaseTime | OptionServerIdentifier
| OptionParameterRequestList | OptionDomainSearch | OtherOption byte

datatype MessageType = Discover | Offer | Request | Decline | ACK | NAK | Release | Inform

type_synonym Options = "(OptionCode, bytes) gomap"

record Handler =
  serverIP :: bytes
  start :: bytes
  leaseRange :: int
  LeasePeriod :: duration
  options :: Options
  iface_mac :: bytes
  Leases_set :: bool
  leasesHW :: "(string, int) gomap"
  leasesIP :: "(int, ptr) gomap"
  heap :: "Lease list"

datatype reply =
  ReplyPacket (r_type: MessageType) (r_server: bytes) (r_yiaddr: "bytes option")
    (r_period: duration) (r_options: "(Options \<times> bytes option) option")

record dhcp4_lib =
  IPRange :: "bytes \<Rightarrow> bytes \<Rightarrow> int"
  IPAdd :: "bytes \<Rightarrow> int \<Rightarrow> bytes"
  YIAddr :: "reply \<Rightarrow> bytes"

record packet =
  CIAddr :: bytes
  CHAddr :: bytes
  Broadcast :: bool

record env =
  t_canLease :: time
  t_offer :: time
  t_findLease :: time
  t_request :: time
  t_wall :: time
  rand_bits :: nat
  map_order :: "ptr list \<Rightarrow> ptr list"

text \<open>\<open>rand.Intn(n)\<close> is any number of \<open>[0, n)\<close>; it panics for \<open>n <= 0\<close>, where the code does not call it.\<close>

definition rand_Intn :: "env \<Rightarrow> int \<Rightarrow> int" where
  "rand_Intn env n = int (rand_bits env mod nat n)"

text \<open>A call of the callback \<open>h.Leases(leases, latest)\<close>.\<close>

type_synonym callback = "ptr list \<times> ptr"

abbreviation deref :: "Handler \<Rightarrow> ptr \<Rightarrow> Lease" where
  "deref h p \<equiv> heap h ! p"

section \<open>Construction and loading\<close>

definition start_of :: "bytes \<Rightarrow> bytes result" where
  "start_of ip =
     (let st = go_copy (replicate (length ip) 0) ip in
      if st = [] then Inl (Panic ''index out of range'')
      else Inr (st[length st - 1 := st ! (length st - 1) + 1]))"

definition NewHandler ::
    "bytes result \<Rightarrow> bytes option \<Rightarrow> bytes result \<Rightarrow> bool \<Rightarrow> unit result \<Rightarrow> Handler result" where
  "NewHandler linkAddress iface interfaceByName conn_given listenPacket =
     bindR linkAddress (\<lambda>ip.
     bindR (case iface of None \<Rightarrow> interfaceByName | Some mac \<Rightarrow> Inr mac) (\<lambda>mac.
     bindR (if conn_given then Inr () else listenPacket) (\<lambda>_.
     let sip = To4 ip in
     bindR (start_of sip) (\<lambda>st.
     Inr \<lparr>serverIP = sip, start = st, leaseRange = 230, LeasePeriod = 20 * Minute,
          options =
            [(OptionSubnetMask, [255, 255, 255, 0]),
             (OptionRouter, sip),
             (OptionDomainNameServer, sip),
             (OptionDomainName, go_bytes ''lan''),
             (OptionDomainSearch, 3 # go_bytes ''lan'' @ [0])],
          iface_mac = mac, Leases_set = False,
          leasesHW = [], leasesIP = [], heap = []\<rparr>))))"

fun SetLeases_loop :: "Handler \<Rightarrow> ptr list \<Rightarrow> Handler" where
  "SetLeases_loop h [] = h"
| "SetLeases_loop h (l # ls) =
     SetLeases_loop
       (h\<lparr>leasesHW := AList.update (HardwareAddr (deref h l)) (Num (deref h l)) (leasesHW h),
          leasesIP := AList.update (Num (deref h l)) l (leasesIP h)\<rparr>) ls"

definition SetLeases :: "Handler \<Rightarrow> ptr list \<Rightarrow> Handler" where
  "SetLeases h ls = SetLeases_loop (h\<lparr>leasesHW := [], leasesIP := []\<rparr>) ls"

section \<open>The lease database\<close>

definition callLeasesLocked :: "env \<Rightarrow> Handler \<Rightarrow> ptr \<Rightarrow> callback list" where
  "callLeasesLocked env h p =
     (if \<not> Leases_set h then [] else [(map_order env (map snd (leasesIP h)), p)])"

definition SetHostname ::
    "env \<Rightarrow> Handler \<Rightarrow> string \<Rightarrow> string \<Rightarrow> (Handler \<times> callback list) result" where
  "SetHostname env h hwaddr hostname =
     (let leaseNum = (case map_of (leasesHW h) hwaddr of None \<Rightarrow> 0 | Some n \<Rightarrow> n) in
      case map_of (leasesIP h) leaseNum of
        None \<Rightarrow> Inl (Panic ''nil pointer dereference'')
      | Some p \<Rightarrow>
          (let l = deref h p in
           if HardwareAddr l \<noteq> hwaddr \<or> Expired l (t_offer env)
           then Inl (Err ''hwaddr does not have a valid lease'')
           else
             let h' = h\<lparr>heap := (heap h)[p := l\<lparr>Hostname := hostname, HostnameOverride := hostname\<rparr>]\<rparr>
             in Inr (h', callLeasesLocked env h' p)))"

definition free_or_expired :: "Handler \<Rightarrow> time \<Rightarrow> int \<Rightarrow> bool" where
  "free_or_expired h now i =
     (case map_of (leasesIP h) i of None \<Rightarrow> True | Some l \<Rightarrow> Expired (deref h l) now)"

definition findLease :: "env \<Rightarrow> Handler \<Rightarrow> int" where
  "findLease env h =
     (let now = t_findLease env in
      if int (length (leasesIP h)) < leaseRange h then
        let i = rand_Intn env (leaseRange h) in
        if free_or_expired h now i then i
        else (case first_upto (free_or_expired h now) 0 (nat (leaseRange h)) of
                Some j \<Rightarrow> j | None \<Rightarrow> -1)
      else -1)"

definition canLease :: "dhcp4_lib \<Rightarrow> env \<Rightarrow> Handler \<Rightarrow> bytes \<Rightarrow> string \<Rightarrow> int" where
  "canLease lib env h reqIP hwaddr =
     (if length reqIP \<noteq> 4 \<or> IP_Equal reqIP IPv4zero then -1
      else
        let leaseNum = IPRange lib (start h) reqIP - 1 in
        if leaseNum < 0 \<or> leaseNum \<ge> leaseRange h then -1
        else (case map_of (leasesIP h) leaseNum of
                None \<Rightarrow> leaseNum
              | Some l \<Rightarrow>
                  if HardwareAddr (deref h l) = hwaddr then leaseNum
                  else if Expired (deref h l) (t_canLease env) then leaseNum
                  else -1))"

definition leaseHW :: "Handler \<Rightarrow> string \<Rightarrow> ptr option" where
  "leaseHW h hwAddr =
     (case map_of (leasesHW h) hwAddr of
        None \<Rightarrow> None
      | Some num \<Rightarrow>
          (case map_of (leasesIP h) num of
             None \<Rightarrow> None
           | Some l \<Rightarrow> if HardwareAddr (deref h l) = hwAddr then Some l else None))"

definition leasePeriodForDevice :: "Handler \<Rightarrow> string \<Rightarrow> duration" where
  "leasePeriodForDevice h hwAddr =
     (case hex_decode (strip_colons hwAddr) of
        Inl _ \<Rightarrow> LeasePeriod h
      | Inr pre \<Rightarrow>
          if length pre \<noteq> 6 then LeasePeriod h
          else
            let prefix3 = take 3 pre;
                i = sort_Search (length nintendoMacPrefixes)
                      (\<lambda>i. bytes_Compare (nintendoMacPrefixes ! i) prefix3 \<ge> 0)
            in if i < length nintendoMacPrefixes \<and> nintendoMacPrefixes ! i = prefix3
               then 1 * Hour else LeasePeriod h)"

definition expireLease :: "env \<Rightarrow> Handler \<Rightarrow> string \<Rightarrow> Handler \<times> bool" where
  "expireLease env h hwAddr =
     (case map_of (leasesHW h) hwAddr of
        None \<Rightarrow> (h, False)
      | Some num \<Rightarrow>
          (case map_of (leasesIP h) num of
             None \<Rightarrow> (h, False)
           | Some l \<Rightarrow>
               if HardwareAddr (deref h l) \<noteq> hwAddr then (h, False)
               else (h\<lparr>heap := (heap h)[l := (deref h l)\<lparr>Expiry := t_wall env\<rparr>]\<rparr>, True)))"

section \<open>The message handler\<close>

definition requested_ip :: "packet \<Rightarrow> Options \<Rightarrow> bytes" where
  "requested_ip p opts =
     (case map_of opts OptionRequestedIPAddress of None \<Rightarrow> CIAddr p | Some ip \<Rightarrow> ip)"

definition option_bytes :: "Options \<Rightarrow> OptionCode \<Rightarrow> bytes" where
  "option_bytes opts c = (case map_of opts c of None \<Rightarrow> [] | Some b \<Rightarrow> b)"

definition select_options :: "Handler \<Rightarrow> Options \<Rightarrow> (Options \<times> bytes option) option" where
  "select_options h opts = Some (options h, map_of opts OptionParameterRequestList)"

text \<open>The case \<open>dhcp4.Discover\<close>: no state change, an offer or nothing.\<close>

definition discover_number ::
    "dhcp4_lib \<Rightarrow> env \<Rightarrow> Handler \<Rightarrow> bytes \<Rightarrow> string \<Rightarrow> int" where
  "discover_number lib env h reqIP hwAddr =
     (let free = (if \<not> IP_Equal (To4 reqIP) IPv4zero then canLease lib env h reqIP hwAddr else -1);
          free = (case leaseHW h hwAddr of
                    Some l \<Rightarrow> if \<not> Expired (deref h l) (t_offer env) then Num (deref h l) else free
                  | None \<Rightarrow> free)
      in if free = -1 then findLease env h else free)"

definition serve_discover ::
    "dhcp4_lib \<Rightarrow> env \<Rightarrow> Handler \<Rightarrow> packet \<Rightarrow> Options \<Rightarrow> reply option" where
  "serve_discover lib env h p opts =
     (let hwAddr = mac_string (CHAddr p);
          free = discover_number lib env h (requested_ip p opts) hwAddr
      in if free = -1 then None
         else Some (ReplyPacket Offer (serverIP h) (Some (IPAdd lib (start h) free))
                (leasePeriodForDevice h hwAddr) (select_options h opts)))"

text \<open>The case \<open>dhcp4.Request\<close>: the new lease, what it retains of the client's old one, the store.\<close>

definition new_lease :: "env \<Rightarrow> Handler \<Rightarrow> int \<Rightarrow> bytes \<Rightarrow> string \<Rightarrow> Options \<Rightarrow> Lease" where
  "new_lease env h leaseNum reqIP hwAddr opts =
     \<lparr>Num = leaseNum, Addr = go_copy (replicate 4 0) (To4 reqIP), HardwareAddr = hwAddr,
      Hostname = go_string (option_bytes opts OptionHostName), HostnameOverride = '''',
      Expiry = t_request env + leasePeriodForDevice h hwAddr\<rparr>"

definition retain :: "Lease \<Rightarrow> Lease \<Rightarrow> Lease" where
  "retain l lease =
     (let lease1 = (if IsZero (Expiry l) then lease\<lparr>Expiry := 0, Hostname := Hostname l\<rparr> else lease)
      in if HostnameOverride l \<noteq> ''''
         then lease1\<lparr>Hostname := HostnameOverride l, HostnameOverride := HostnameOverride l\<rparr>
         else lease1)"

definition store_lease :: "env \<Rightarrow> Handler \<Rightarrow> int \<Rightarrow> Lease \<Rightarrow> Handler \<times> callback list" where
  "store_lease env h leaseNum lease =
     (let p = length (heap h);
          h' = h\<lparr>heap := heap h @ [lease],
                 leasesIP := AList.update leaseNum p (leasesIP h),
                 leasesHW := AList.update (HardwareAddr lease) leaseNum (leasesHW h)\<rparr>
      in (h', callLeasesLocked env h' p))"

definition serve_request ::
    "dhcp4_lib \<Rightarrow> env \<Rightarrow> Handler \<Rightarrow> packet \<Rightarrow> Options \<Rightarrow> Handler \<times> reply option \<times> callback list" where
  "serve_request lib env h p opts =
     (let hwAddr = mac_string (CHAddr p); reqIP = requested_ip p opts in
      if (case map_of opts OptionServerIdentifier of
            None \<Rightarrow> False | Some server \<Rightarrow> \<not> IP_Equal server (serverIP h))
      then (h, None, [])
      else
        let leaseNum = canLease lib env h reqIP hwAddr in
        if leaseNum = -1 then (h, Some (ReplyPacket NAK (serverIP h) None 0 None), [])
        else
          let lease = new_lease env h leaseNum reqIP hwAddr opts;
              (lease, h1) =
                (case leaseHW h (HardwareAddr lease) of
                   None \<Rightarrow> (lease, h)
                 | Some l \<Rightarrow> (retain (deref h l) lease,
                     h\<lparr>leasesIP := AList.delete (Num (deref h l)) (leasesIP h)\<rparr>));
              (h2, cbs) = store_lease env h1 leaseNum lease
          in (h2,
              Some (ReplyPacket ACK (serverIP h) (Some reqIP) (leasePeriodForDevice h hwAddr)
                      (select_options h opts)),
              cbs))"

definition serveDHCP ::
    "dhcp4_lib \<Rightarrow> env \<Rightarrow> Handler \<Rightarrow> packet \<Rightarrow> MessageType \<Rightarrow> Options \<Rightarrow>
     Handler \<times> reply option \<times> callback list" where
  "serveDHCP lib env h p msgType opts =
     (case msgType of
        Discover \<Rightarrow> (h, serve_discover lib env h p opts, [])
      | Request \<Rightarrow> serve_request lib env h p opts
      | Decline \<Rightarrow> (fst (expireLease env h (mac_string (CHAddr p))), None, [])
      | _ \<Rightarrow> (h, None, []))"

text \<open>
  \<open>ServeDHCP\<close> puts the reply into an Ethernet frame on the raw socket and returns nil, so that the
  library sends nothing itself.
\<close>

record frame =
  eth_dst :: bytes
  eth_src :: bytes
  ip_ttl :: nat
  ip_src :: bytes
  ip_dst :: bytes
  udp_src :: nat
  udp_dst :: nat
  udp_payload :: reply
  raw_addr :: bytes

definition ServeDHCP ::
    "dhcp4_lib \<Rightarrow> env \<Rightarrow> Handler \<Rightarrow> packet \<Rightarrow> MessageType \<Rightarrow> Options \<Rightarrow>
     Handler \<times> reply option \<times> frame list \<times> callback list" where
  "ServeDHCP lib env h p msgType opts =
     (let (h', r, cbs) = serveDHCP lib env h p msgType opts in
      case r of
        None \<Rightarrow> (h', None, [], cbs)
      | Some reply \<Rightarrow>
          let (destMAC, destIP) =
                (if Broadcast p then (replicate 6 0xff, IPv4bcast) else (CHAddr p, YIAddr lib reply))
          in (h', None,
              [\<lparr>eth_dst = destMAC, eth_src = iface_mac h', ip_ttl = 255, ip_src = serverIP h',
                ip_dst = destIP, udp_src = 67, udp_dst = 68, udp_payload = reply,
                raw_addr = destMAC\<rparr>],
              cbs))"

end
