(* ===== verification/Dhcp4dDb.thy ===== *)
theory Dhcp4dDb
  imports Dhcp4d
begin

text \<open>
  The lease database of \<open>dhcp4d.go\<close> as a table from lease numbers to leases. The invariant
  \<open>db_inv\<close> ties the two Go maps and the heap together; every operation of the handler keeps it
  and acts on the table as the abstract operation \<open>bind_client\<close> (a client gets one number and
  loses every other). The locale \<open>lease_table\<close> is the contract the server's clients rely on.
\<close>

section \<open>The table and its invariant\<close>

definition lease_at :: "Handler \<Rightarrow> int \<Rightarrow> Lease option" where
  "lease_at h n = map_option (deref h) (map_of (leasesIP h) n)"

definition db_inv :: "Handler \<Rightarrow> bool" where
  "db_inv h \<longleftrightarrow> keys_distinct (leasesIP h) \<and>
     (\<forall>n p. map_of (leasesIP h) n = Some p \<longrightarrow>
        p < length (heap h) \<and> Num (deref h p) = n \<and>
        map_of (leasesHW h) (HardwareAddr (deref h p)) = Some n)"

lemma db_inv_keys: "db_inv h \<Longrightarrow> keys_distinct (leasesIP h)"
  by (simp add: db_inv_def)

lemma db_invD:
  assumes "db_inv h" "map_of (leasesIP h) n = Some p"
  shows "p < length (heap h)" "Num (deref h p) = n"
    "map_of (leasesHW h) (HardwareAddr (deref h p)) = Some n"
  using assms by (auto simp: db_inv_def)

lemma lease_at_Some:
  "lease_at h n = Some l \<longleftrightarrow> (\<exists>p. map_of (leasesIP h) n = Some p \<and> deref h p = l)"
  by (auto simp: lease_at_def)

lemma lease_at_Num: "db_inv h \<Longrightarrow> lease_at h n = Some l \<Longrightarrow> Num l = n"
  by (auto simp: lease_at_Some dest: db_invD)

lemma lease_at_owner:
  "db_inv h \<Longrightarrow> lease_at h n = Some l \<Longrightarrow> map_of (leasesHW h) (HardwareAddr l) = Some n"
  by (auto simp: lease_at_Some dest: db_invD)

lemma one_number_per_client:
  "db_inv h \<Longrightarrow> lease_at h n = Some l \<Longrightarrow> lease_at h m = Some l' \<Longrightarrow>
   HardwareAddr l = HardwareAddr l' \<Longrightarrow> n = m"
  by (metis lease_at_owner option.inject)

lemma leaseHW_Some:
  "db_inv h \<Longrightarrow> leaseHW h hw = Some p \<longleftrightarrow>
     (\<exists>n. map_of (leasesIP h) n = Some p \<and> HardwareAddr (deref h p) = hw)"
proof
  show "leaseHW h hw = Some p \<Longrightarrow> \<exists>n. map_of (leasesIP h) n = Some p \<and> HardwareAddr (deref h p) = hw"
    by (auto simp: leaseHW_def split: option.splits if_splits)
next
  assume inv: "db_inv h"
  assume "\<exists>n. map_of (leasesIP h) n = Some p \<and> HardwareAddr (deref h p) = hw"
  then obtain n where n: "map_of (leasesIP h) n = Some p" "HardwareAddr (deref h p) = hw"
    by blast
  then have "map_of (leasesHW h) hw = Some n" using db_invD(3) [OF inv] by blast
  with n show "leaseHW h hw = Some p" by (simp add: leaseHW_def)
qed

lemma leaseHW_None:
  "db_inv h \<Longrightarrow> leaseHW h hw = None \<longleftrightarrow> (\<forall>n l. lease_at h n = Some l \<longrightarrow> HardwareAddr l \<noteq> hw)"
  unfolding lease_at_Some by (metis leaseHW_Some not_None_eq)

lemma free_or_expired_iff:
  "free_or_expired h now n \<longleftrightarrow> (case lease_at h n of None \<Rightarrow> True | Some l \<Rightarrow> Expired l now)"
  by (simp add: free_or_expired_def lease_at_def split: option.splits)

lemma canLease_lease_at:
  "canLease lib env h reqIP hw =
     (let n = IPRange lib (start h) reqIP - 1 in
      if length reqIP = 4 \<and> reqIP \<noteq> [0, 0, 0, 0] \<and> 0 \<le> n \<and> n < leaseRange h \<and>
         (case lease_at h n of None \<Rightarrow> True
          | Some l \<Rightarrow> HardwareAddr l = hw \<or> Expired l (t_canLease env))
      then n else -1)"
  by (auto simp: canLease_def lease_at_def IP_Equal_IPv4zero Let_def split: option.splits)

lemma canLease_range: "canLease lib env h reqIP hw \<noteq> -1 \<Longrightarrow>
    0 \<le> canLease lib env h reqIP hw \<and> canLease lib env h reqIP hw < leaseRange h \<and>
    canLease lib env h reqIP hw = IPRange lib (start h) reqIP - 1 \<and> length reqIP = 4"
  by (auto simp: canLease_lease_at Let_def split: if_splits)

lemma canLease_slot: "canLease lib env h reqIP hw \<noteq> -1 \<Longrightarrow>
    case lease_at h (canLease lib env h reqIP hw) of None \<Rightarrow> True
    | Some l \<Rightarrow> HardwareAddr l = hw \<or> Expired l (t_canLease env)"
  by (auto simp: canLease_lease_at Let_def split: if_splits)

section \<open>Granting a lease\<close>

definition release :: "Handler \<Rightarrow> string \<Rightarrow> Handler" where
  "release h hw =
     (case leaseHW h hw of
        None \<Rightarrow> h
      | Some l \<Rightarrow> h\<lparr>leasesIP := AList.delete (Num (deref h l)) (leasesIP h)\<rparr>)"

definition grant :: "Handler \<Rightarrow> int \<Rightarrow> Lease \<Rightarrow> Handler" where
  "grant h n l =
     (let h1 = release h (HardwareAddr l) in
      h1\<lparr>heap := heap h1 @ [l],
         leasesIP := AList.update n (length (heap h1)) (leasesIP h1),
         leasesHW := AList.update (HardwareAddr l) n (leasesHW h1)\<rparr>)"

definition bind_client :: "(int \<Rightarrow> Lease option) \<Rightarrow> int \<Rightarrow> Lease \<Rightarrow> (int \<Rightarrow> Lease option)" where
  "bind_client t n l =
     (\<lambda>m. if m = n then Some l
          else case t m of None \<Rightarrow> None
               | Some l' \<Rightarrow> if HardwareAddr l' = HardwareAddr l then None else Some l')"

lemma release_fields [simp]:
  "heap (release h hw) = heap h" "leasesHW (release h hw) = leasesHW h"
  "start (release h hw) = start h" "leaseRange (release h hw) = leaseRange h"
  "serverIP (release h hw) = serverIP h" "Leases_set (release h hw) = Leases_set h"
  "iface_mac (release h hw) = iface_mac h" "LeasePeriod (release h hw) = LeasePeriod h"
  "options (release h hw) = options h"
  by (simp_all add: release_def split: option.splits)

lemma release_keys: "keys_distinct (leasesIP h) \<Longrightarrow> keys_distinct (leasesIP (release h hw))"
  by (simp add: release_def split: option.splits)

lemma release_map:
  assumes "db_inv h"
  shows "map_of (leasesIP (release h hw)) m =
    (case map_of (leasesIP h) m of None \<Rightarrow> None
     | Some p \<Rightarrow> if HardwareAddr (deref h p) = hw then None else Some p)"
proof (cases "leaseHW h hw")
  case None
  then have "HardwareAddr (deref h p) \<noteq> hw" if "map_of (leasesIP h) m = Some p" for p
    using leaseHW_Some [OF assms, of hw p] that by auto
  with None show ?thesis by (simp add: release_def split: option.split)
next
  case (Some q)
  then obtain n where n: "map_of (leasesIP h) n = Some q" "HardwareAddr (deref h q) = hw"
    using leaseHW_Some [OF assms] by blast
  have rel: "map_of (leasesIP (release h hw)) m = (if m = n then None else map_of (leasesIP h) m)"
    using Some db_invD(2) [OF assms n(1)] by (simp add: release_def)
  show ?thesis
  proof (cases "m = n")
    case True
    then show ?thesis using rel n by simp
  next
    case False
    then have "HardwareAddr (deref h p) \<noteq> hw" if "map_of (leasesIP h) m = Some p" for p
      using db_invD(3) [OF assms that] db_invD(3) [OF assms n(1)] n(2) by auto
    then show ?thesis using rel False by (simp split: option.split)
  qed
qed

lemma grant_fields [simp]:
  "start (grant h n l) = start h" "leaseRange (grant h n l) = leaseRange h"
  "serverIP (grant h n l) = serverIP h" "Leases_set (grant h n l) = Leases_set h"
  "iface_mac (grant h n l) = iface_mac h" "LeasePeriod (grant h n l) = LeasePeriod h"
  "options (grant h n l) = options h"
  by (simp_all add: grant_def Let_def)

lemma lease_at_grant:
  assumes "db_inv h"
  shows "lease_at (grant h n l) = bind_client (lease_at h) n l"
proof
  fix m
  show "lease_at (grant h n l) m = bind_client (lease_at h) n l m"
  proof (cases "map_of (leasesIP h) m")
    case None
    then show ?thesis
      by (auto simp: lease_at_def bind_client_def grant_def Let_def release_map [OF assms])
  next
    case (Some p)
    then show ?thesis
      using db_invD(1) [OF assms Some]
      by (auto simp: lease_at_def bind_client_def grant_def Let_def release_map [OF assms] nth_append)
  qed
qed

lemma db_inv_grant:
  assumes "db_inv h" "Num l = n"
  shows "db_inv (grant h n l)"
proof -
  have "keys_distinct (leasesIP (grant h n l))"
    using assms(1) by (simp add: grant_def Let_def release_keys db_inv_keys)
  moreover have "p < length (heap (grant h n l)) \<and> Num (deref (grant h n l) p) = m \<and>
      map_of (leasesHW (grant h n l)) (HardwareAddr (deref (grant h n l) p)) = Some m"
    if "map_of (leasesIP (grant h n l)) m = Some p" for m p
  proof (cases "m = n")
    case True
    then have "p = length (heap h)" using that by (simp add: grant_def Let_def)
    then show ?thesis using True assms(2) by (simp add: grant_def Let_def)
  next
    case False
    then have "map_of (leasesIP h) m = Some p" "HardwareAddr (deref h p) \<noteq> HardwareAddr l"
      using that by (auto simp: grant_def Let_def release_map [OF assms(1)] split: option.splits if_splits)
    then show ?thesis
      using db_invD [OF assms(1), of m p] False by (simp add: grant_def Let_def nth_append)
  qed
  ultimately show ?thesis by (auto simp: db_inv_def)
qed

section \<open>Updates in place\<close>

text \<open>\<open>SetHostname\<close> and \<open>expireLease\<close> write through a pointer; number and client stay.\<close>

lemma lease_at_write:
  assumes "db_inv h" "map_of (leasesIP h) n = Some p"
  shows "lease_at (h\<lparr>heap := (heap h)[p := l]\<rparr>) = (lease_at h)(n := Some l)"
proof
  fix m
  have "m = n" if "map_of (leasesIP h) m = Some p"
    using db_invD(2) [OF assms(1) that] db_invD(2) [OF assms] by simp
  moreover have "p < length (heap h)" using db_invD(1) [OF assms] .
  ultimately show "lease_at (h\<lparr>heap := (heap h)[p := l]\<rparr>) m = ((lease_at h)(n := Some l)) m"
    using assms(2) by (cases "map_of (leasesIP h) m") (auto simp: lease_at_def nth_list_update)
qed

lemma db_inv_write:
  assumes "db_inv h" "map_of (leasesIP h) n = Some p"
    "Num l = Num (deref h p)" "HardwareAddr l = HardwareAddr (deref h p)"
  shows "db_inv (h\<lparr>heap := (heap h)[p := l]\<rparr>)"
proof -
  have "q < length (heap h) \<and> Num ((heap h)[p := l] ! q) = m \<and>
      map_of (leasesHW h) (HardwareAddr ((heap h)[p := l] ! q)) = Some m"
    if "map_of (leasesIP h) m = Some q" for m q
    using db_invD [OF assms(1) that] assms(3,4) by (cases "q = p") simp_all
  then show ?thesis using db_inv_keys [OF assms(1)] unfolding db_inv_def by simp
qed

section \<open>The contract of the lease table\<close>

locale lease_table =
  fixes table :: "'s \<Rightarrow> int \<Rightarrow> Lease option"
    and inv :: "'s \<Rightarrow> bool"
    and give :: "'s \<Rightarrow> int \<Rightarrow> Lease \<Rightarrow> 's"
  assumes table_give: "inv s \<Longrightarrow> table (give s n l) = bind_client (table s) n l"
    and inv_give: "inv s \<Longrightarrow> Num l = n \<Longrightarrow> inv (give s n l)"
    and table_number: "inv s \<Longrightarrow> table s n = Some l \<Longrightarrow> Num l = n"
    and table_unique: "inv s \<Longrightarrow> table s n = Some l \<Longrightarrow> table s m = Some l' \<Longrightarrow>
      HardwareAddr l = HardwareAddr l' \<Longrightarrow> n = m"
begin

lemma give_owner: "inv s \<Longrightarrow> table (give s n l) n = Some l"
  by (simp add: table_give bind_client_def)

lemma give_only: "inv s \<Longrightarrow> table (give s n l) m = Some l' \<Longrightarrow>
    HardwareAddr l' = HardwareAddr l \<Longrightarrow> m = n"
  by (auto simp: table_give bind_client_def split: if_splits option.splits)

lemma give_others: "inv s \<Longrightarrow> m \<noteq> n \<Longrightarrow> table s m = Some l' \<Longrightarrow>
    HardwareAddr l' \<noteq> HardwareAddr l \<Longrightarrow> table (give s n l) m = Some l'"
  by (simp add: table_give bind_client_def)

lemma give_dom: "inv s \<Longrightarrow> dom (table (give s n l)) \<subseteq> insert n (dom (table s))"
  by (auto simp: table_give bind_client_def split: if_splits option.splits)

end

interpretation db: lease_table lease_at db_inv grant
  by unfold_locales (auto intro: lease_at_grant db_inv_grant lease_at_Num one_number_per_client)

end
