(* ===== verification/Dhcp4dServe.thy ===== *)
theory Dhcp4dServe
  imports Dhcp4dDb
begin

text \<open>
  What the message handler of \<open>dhcp4d.go\<close> does to the lease table, branch by branch, and the
  server as a machine that handles a sequence of messages and hostname changes.
\<close>

section \<open>The library functions the handler relies on\<close>

text \<open>
  Documented behaviour of \<open>krolaw/dhcp4\<close>: \<open>IPRange(start, stop)\<close> is the number of addresses from
  start to stop, both included; \<open>IPAdd(start, n)\<close> is start + n; \<open>YIAddr\<close> reads back the address
  given to \<open>ReplyPacket\<close>.
\<close>

definition lib_ok :: "dhcp4_lib \<Rightarrow> bool" where
  "lib_ok lib \<longleftrightarrow>
     (\<forall>a b. length a = 4 \<longrightarrow> length b = 4 \<longrightarrow> IPRange lib a b = int (be_val b) - int (be_val a) + 1) \<and>
     (\<forall>a n. length a = 4 \<longrightarrow> 0 \<le> int (be_val a) + n \<longrightarrow> int (be_val a) + n < 2 ^ 32 \<longrightarrow>
        length (IPAdd lib a n) = 4 \<and> int (be_val (IPAdd lib a n)) = int (be_val a) + n) \<and>
     (\<forall>t s ip d os. length ip = 4 \<longrightarrow> YIAddr lib (ReplyPacket t s (Some ip) d os) = ip)"

text \<open>A concrete library that behaves so.\<close>

definition plain_lib :: dhcp4_lib where
  "plain_lib =
     \<lparr>IPRange = (\<lambda>a b. int (be_val b) - int (be_val a) + 1),
      IPAdd = (\<lambda>a n. be_bytes4 (nat (int (be_val a) + n))),
      YIAddr = (\<lambda>r. case r_yiaddr r of None \<Rightarrow> [0, 0, 0, 0] | Some ip \<Rightarrow> ip)\<rparr>"

lemma lib_ok_plain: "lib_ok plain_lib"
  by (auto simp: lib_ok_def plain_lib_def be_val_be_bytes4 nat_less_iff)

lemma lib_okD:
  assumes "lib_ok lib"
  shows "length a = 4 \<Longrightarrow> length b = 4 \<Longrightarrow> IPRange lib a b = int (be_val b) - int (be_val a) + 1"
    "length a = 4 \<Longrightarrow> 0 \<le> int (be_val a) + n \<Longrightarrow> int (be_val a) + n < 2 ^ 32 \<Longrightarrow> length (IPAdd lib a n) = 4"
    "length a = 4 \<Longrightarrow> 0 \<le> int (be_val a) + n \<Longrightarrow> int (be_val a) + n < 2 ^ 32 \<Longrightarrow>
       int (be_val (IPAdd lib a n)) = int (be_val a) + n"
    "length ip = 4 \<Longrightarrow> YIAddr lib (ReplyPacket t s (Some ip) d os) = ip"
  using assms unfolding lib_ok_def by blast+

lemma IPRange_IPAdd:
  assumes "lib_ok lib" "length a = 4" "0 \<le> n" "int (be_val a) + n < 2 ^ 32"
  shows "IPRange lib a (IPAdd lib a n) = n + 1"
  using lib_okD(1) [OF assms(1,2), of "IPAdd lib a n"] lib_okD(2,3) [OF assms(1,2), of n] assms(3,4)
  by simp

section \<open>Finding a number\<close>

lemma findLease_sound:
  assumes "findLease env h \<noteq> -1"
  shows "0 \<le> findLease env h" "findLease env h < leaseRange h"
    "free_or_expired h (t_findLease env) (findLease env h)"
proof -
  have room: "0 < leaseRange h"
    using assms by (auto simp: findLease_def Let_def split: if_splits)
  then have rnd: "0 \<le> rand_Intn env (leaseRange h)" "rand_Intn env (leaseRange h) < leaseRange h"
    by (simp_all add: rand_Intn_def flip: zless_nat_eq_int_zless)
  let ?n = "findLease env h"
  have "(?n = rand_Intn env (leaseRange h) \<and> free_or_expired h (t_findLease env) ?n) \<or>
      first_upto (free_or_expired h (t_findLease env)) 0 (nat (leaseRange h)) = Some ?n"
    using assms by (auto simp: findLease_def Let_def split: if_splits option.splits)
  then show "0 \<le> ?n" "?n < leaseRange h" "free_or_expired h (t_findLease env) ?n"
    using rnd first_upto_Some [of "free_or_expired h (t_findLease env)" 0 "nat (leaseRange h)" ?n] room
    by auto
qed

lemma findLease_complete:
  "findLease env h = -1 \<longleftrightarrow> leaseRange h \<le> int (length (leasesIP h))"
proof
  assume none: "findLease env h = -1"
  show "leaseRange h \<le> int (length (leasesIP h))"
  proof (rule ccontr)
    assume room: "\<not> leaseRange h \<le> int (length (leasesIP h))"
    let ?p = "free_or_expired h (t_findLease env)"
    have "length (leasesIP h) < card {0..<leaseRange h}" using room by simp
    from gomap_has_gap [OF this]
    obtain k where k: "0 \<le> k" "k < leaseRange h" "map_of (leasesIP h) k = None" by auto
    then have "?p k" by (simp add: free_or_expired_def)
    then have "first_upto ?p 0 (nat (leaseRange h)) \<noteq> None"
      using k unfolding first_upto_None by auto
    then obtain j where j: "first_upto ?p 0 (nat (leaseRange h)) = Some j" by blast
    then have "0 \<le> j" using first_upto_Some [OF j] by simp
    moreover have "0 \<le> rand_Intn env (leaseRange h)" by (simp add: rand_Intn_def)
    ultimately show False
      using none room j by (auto simp: findLease_def Let_def split: if_splits)
  qed
next
  assume "leaseRange h \<le> int (length (leasesIP h))"
  then show "findLease env h = -1" by (simp add: findLease_def Let_def)
qed

section \<open>The branches of a request\<close>

abbreviation client :: "packet \<Rightarrow> string" where
  "client p \<equiv> mac_string (CHAddr p)"

definition other_server :: "Handler \<Rightarrow> Options \<Rightarrow> bool" where
  "other_server h opts =
     (case map_of opts OptionServerIdentifier of
        None \<Rightarrow> False | Some server \<Rightarrow> \<not> IP_Equal server (serverIP h))"

definition granted :: "env \<Rightarrow> Handler \<Rightarrow> int \<Rightarrow> bytes \<Rightarrow> string \<Rightarrow> Options \<Rightarrow> Lease" where
  "granted env h n ip hw opts =
     (case leaseHW h hw of
        None \<Rightarrow> new_lease env h n ip hw opts
      | Some l \<Rightarrow> retain (deref h l) (new_lease env h n ip hw opts))"

lemma retain_fields [simp]:
  "Num (retain l x) = Num x" "Addr (retain l x) = Addr x" "HardwareAddr (retain l x) = HardwareAddr x"
  "Expiry (retain l x) = (if Expiry l = 0 then 0 else Expiry x)"
  by (simp_all add: retain_def Let_def IsZero_def)

lemma granted_fields [simp]:
  "Num (granted env h n ip hw opts) = n" "HardwareAddr (granted env h n ip hw opts) = hw"
  "length ip = 4 \<Longrightarrow> Addr (granted env h n ip hw opts) = ip"
  by (simp_all add: granted_def new_lease_def split: option.split)

lemma serve_request_cases:
  "serve_request lib env h p opts =
     (let n = canLease lib env h (requested_ip p opts) (client p) in
      if other_server h opts then (h, None, [])
      else if n = -1 then (h, Some (ReplyPacket NAK (serverIP h) None 0 None), [])
      else let h' = grant h n (granted env h n (requested_ip p opts) (client p) opts) in
        (h', Some (ReplyPacket ACK (serverIP h) (Some (requested_ip p opts))
               (leasePeriodForDevice h (client p)) (select_options h opts)),
         callLeasesLocked env h' (length (heap h))))"
proof -
  have hw: "HardwareAddr (new_lease env h n ip hw opts) = hw" for n ip hw
    by (simp add: new_lease_def)
  show ?thesis
    unfolding serve_request_def other_server_def [symmetric]
    by (cases "leaseHW h (client p)")
      (simp_all add: Let_def hw granted_def grant_def release_def store_lease_def split: if_split)
qed

section \<open>The table after each operation\<close>

definition expired_for :: "string \<Rightarrow> time \<Rightarrow> Lease \<Rightarrow> Lease" where
  "expired_for hw t l = (if HardwareAddr l = hw then l\<lparr>Expiry := t\<rparr> else l)"

lemma expireLease_cases:
  "fst (expireLease env h hw) =
     (case leaseHW h hw of None \<Rightarrow> h
      | Some p \<Rightarrow> h\<lparr>heap := (heap h)[p := (deref h p)\<lparr>Expiry := t_wall env\<rparr>]\<rparr>)"
  "snd (expireLease env h hw) = (leaseHW h hw \<noteq> None)"
  by (auto simp: expireLease_def leaseHW_def split: option.splits)

lemma lease_at_expire:
  assumes "db_inv h"
  shows "lease_at (fst (expireLease env h hw)) m = map_option (expired_for hw (t_wall env)) (lease_at h m)"
proof (cases "leaseHW h hw")
  case None
  then have "HardwareAddr l \<noteq> hw" if "lease_at h m = Some l" for l
    using leaseHW_None [OF assms] that by blast
  with None show ?thesis
    by (cases "lease_at h m") (auto simp: expireLease_cases expired_for_def)
next
  case (Some p)
  then obtain n where n: "map_of (leasesIP h) n = Some p" "HardwareAddr (deref h p) = hw"
    using leaseHW_Some [OF assms] by blast
  then have ln: "lease_at h n = Some (deref h p)" by (simp add: lease_at_def)
  have upd: "lease_at (fst (expireLease env h hw)) =
      (lease_at h)(n \<mapsto> (deref h p)\<lparr>Expiry := t_wall env\<rparr>)"
    using Some lease_at_write [OF assms n(1)] by (simp add: expireLease_cases)
  show ?thesis
  proof (cases "m = n")
    case True
    then show ?thesis using upd ln n(2) by (simp add: expired_for_def)
  next
    case False
    then have "HardwareAddr l \<noteq> hw" if "lease_at h m = Some l" for l
      using one_number_per_client [OF assms that ln] n(2) by auto
    with False show ?thesis
      by (cases "lease_at h m") (simp_all add: upd expired_for_def)
  qed
qed

lemma db_inv_expire: "db_inv h \<Longrightarrow> db_inv (fst (expireLease env h hw))"
  by (auto simp: expireLease_cases leaseHW_Some split: option.split intro: db_inv_write)

lemma expire_fields [simp]:
  "start (fst (expireLease env h hw)) = start h"
  "leaseRange (fst (expireLease env h hw)) = leaseRange h"
  "serverIP (fst (expireLease env h hw)) = serverIP h"
  by (simp_all add: expireLease_cases split: option.split)

definition named :: "string \<Rightarrow> Lease \<Rightarrow> Lease" where
  "named name l = l\<lparr>Hostname := name, HostnameOverride := name\<rparr>"

lemma SetHostname_Inr:
  assumes "db_inv h" "SetHostname env h hw name = Inr (h', cbs)"
  obtains n p where "map_of (leasesIP h) n = Some p" "HardwareAddr (deref h p) = hw"
    "\<not> Expired (deref h p) (t_offer env)" "h' = h\<lparr>heap := (heap h)[p := named name (deref h p)]\<rparr>"
    "cbs = callLeasesLocked env h' p"
  using assms by (auto simp: SetHostname_def Let_def named_def split: option.splits if_splits)

section \<open>The server as a machine\<close>

datatype event =
  EvDHCP env packet MessageType Options
| EvSetHostname env string string

datatype effect =
  OutReply packet reply
| OutLeases callback
| OutFault fault

definition handle :: "dhcp4_lib \<Rightarrow> Handler \<Rightarrow> event \<Rightarrow> Handler \<times> effect list" where
  "handle lib h ev =
     (case ev of
        EvDHCP env p mt opts \<Rightarrow>
          (let (h', r, cbs) = serveDHCP lib env h p mt opts in
           (h', (case r of None \<Rightarrow> [] | Some r \<Rightarrow> [OutReply p r]) @ map OutLeases cbs))
      | EvSetHostname env hw name \<Rightarrow>
          (case SetHostname env h hw name of
             Inl f \<Rightarrow> (h, [OutFault f])
           | Inr (h', cbs) \<Rightarrow> (h', map OutLeases cbs)))"

text \<open>
  Every lease in the table has a number of the pool and the address of that number; the pool
  does not run past the last IPv4 address.
\<close>

definition pool_inv :: "dhcp4_lib \<Rightarrow> Handler \<Rightarrow> bool" where
  "pool_inv lib h \<longleftrightarrow> db_inv h \<and> length (start h) = 4 \<and>
     int (be_val (start h)) + leaseRange h \<le> 2 ^ 32 \<and>
     (\<forall>n l. lease_at h n = Some l \<longrightarrow>
        0 \<le> n \<and> n < leaseRange h \<and> length (Addr l) = 4 \<and> IPRange lib (start h) (Addr l) = n + 1)"

lemma pool_inv_db: "pool_inv lib h \<Longrightarrow> db_inv h"
  by (simp add: pool_inv_def)

lemma pool_invD:
  assumes "pool_inv lib h" "lease_at h n = Some l"
  shows "0 \<le> n" "n < leaseRange h" "length (Addr l) = 4" "IPRange lib (start h) (Addr l) = n + 1"
  using assms unfolding pool_inv_def by blast+

text \<open>A step that keeps the handler's constants and only rewrites leases keeps the pool invariant.\<close>

lemma pool_inv_same_addr:
  assumes "pool_inv lib h" "db_inv h'" "start h' = start h" "leaseRange h' = leaseRange h"
    "\<And>n l'. lease_at h' n = Some l' \<Longrightarrow> \<exists>l. lease_at h n = Some l \<and> Addr l' = Addr l"
  shows "pool_inv lib h'"
  using assms unfolding pool_inv_def by metis

lemma pool_inv_request:
  assumes "pool_inv lib h"
  shows "pool_inv lib (fst (serve_request lib env h p opts))"
proof -
  let ?n = "canLease lib env h (requested_ip p opts) (client p)"
  let ?l = "granted env h ?n (requested_ip p opts) (client p) opts"
  have "pool_inv lib (grant h ?n ?l)" if "?n \<noteq> -1"
  proof -
    have range: "0 \<le> ?n" "?n < leaseRange h" "?n = IPRange lib (start h) (requested_ip p opts) - 1"
      "length (requested_ip p opts) = 4"
      using canLease_range [OF that] by simp_all
    have db: "db_inv (grant h ?n ?l)"
      using pool_inv_db [OF assms] by (simp add: db_inv_grant)
    have "0 \<le> m \<and> m < leaseRange h \<and> length (Addr l) = 4 \<and> IPRange lib (start h) (Addr l) = m + 1"
      if "lease_at (grant h ?n ?l) m = Some l" for m l
    proof (cases "m = ?n")
      case True
      then have "l = ?l"
        using that by (simp add: lease_at_grant pool_inv_db [OF assms] bind_client_def)
      then show ?thesis using True range by simp
    next
      case False
      then have "lease_at h m = Some l"
        using that by (auto simp: lease_at_grant pool_inv_db [OF assms] bind_client_def
            split: option.splits if_splits)
      then show ?thesis using pool_invD [OF assms] by simp
    qed
    with db show ?thesis using assms unfolding pool_inv_def by simp
  qed
  with assms show ?thesis by (simp add: serve_request_cases Let_def)
qed

lemma pool_inv_expire: "pool_inv lib h \<Longrightarrow> pool_inv lib (fst (expireLease env h hw))"
  by (rule pool_inv_same_addr)
    (auto simp: pool_inv_db db_inv_expire lease_at_expire expired_for_def)

lemma pool_inv_hostname:
  assumes inv: "pool_inv lib h" and ok: "SetHostname env h hw name = Inr (h', cbs)"
  shows "pool_inv lib h'"
proof -
  note db = pool_inv_db [OF inv]
  obtain n p where np: "map_of (leasesIP h) n = Some p"
    and h': "h' = h\<lparr>heap := (heap h)[p := named name (deref h p)]\<rparr>"
    using SetHostname_Inr [OF db ok] by metis
  have "lease_at h' = (lease_at h)(n \<mapsto> named name (deref h p))"
    unfolding h' by (rule lease_at_write [OF db np])
  then show ?thesis
    by (intro pool_inv_same_addr [OF inv])
      (auto simp: h' named_def db_inv_write [OF db np] lease_at_Some np split: if_splits)
qed

lemma handle_pool_inv: "pool_inv lib h \<Longrightarrow> pool_inv lib (fst (handle lib h ev))"
  by (auto simp: handle_def serveDHCP_def split_beta pool_inv_request pool_inv_expire pool_inv_hostname
      split: event.split MessageType.split sum.split)

interpretation serve: run_machine "handle lib" "pool_inv lib" for lib
  by unfold_locales (rule handle_pool_inv)

end
