(* ===== verification/Dhcp4dSafety.thy ===== *)
theory Dhcp4dSafety
  imports Dhcp4dServe
begin

text \<open>
  Safety of the address pool over whole histories of the server: while a client's lease runs,
  its number stays bound to it and nobody else is offered or granted the address. The argument
  is one interpretation of the contract \<open>guarded_machine\<close>.
\<close>

section \<open>What a discover may offer\<close>

definition open_to :: "env \<Rightarrow> string \<Rightarrow> Lease option \<Rightarrow> bool" where
  "open_to env hw slot =
     (case slot of
        None \<Rightarrow> True
      | Some l \<Rightarrow> HardwareAddr l = hw \<or> Expired l (t_canLease env) \<or> Expired l (t_findLease env))"

lemma canLease_open:
  "canLease lib env h ip hw = n \<Longrightarrow> n \<noteq> -1 \<Longrightarrow> open_to env hw (lease_at h n)"
  by (auto simp: canLease_lease_at open_to_def Let_def split: if_splits option.splits)

lemma findLease_open:
  "findLease env h = n \<Longrightarrow> n \<noteq> -1 \<Longrightarrow> open_to env hw (lease_at h n)"
  using findLease_sound(3) [of env h]
  by (auto simp: free_or_expired_iff open_to_def split: option.splits)

lemma discover_number_cases:
  assumes "discover_number lib env h ip hw = n"
  obtains (can) "canLease lib env h ip hw = n" "n \<noteq> -1"
  | (own) p where "leaseHW h hw = Some p" "n = Num (deref h p)"
  | (find) "findLease env h = n"
  using assms by (auto simp: discover_number_def Let_def split: if_splits option.splits)

lemma discover_number_ok:
  assumes inv: "pool_inv lib h" and n: "discover_number lib env h ip hw = n" "n \<noteq> -1"
  shows "0 \<le> n \<and> n < leaseRange h \<and> open_to env hw (lease_at h n)"
  using n(1)
proof (cases rule: discover_number_cases)
  case can
  then show ?thesis using canLease_range canLease_open by blast
next
  case (own p)
  then obtain m where m: "map_of (leasesIP h) m = Some p" "HardwareAddr (deref h p) = hw"
    using leaseHW_Some pool_inv_db [OF inv] by blast
  then have "n = m" using own(2) db_invD(2) [OF pool_inv_db [OF inv] m(1)] by simp
  with m have at: "lease_at h n = Some (deref h p)" by (simp add: lease_at_def)
  then show ?thesis using pool_invD [OF inv at] m(2) by (simp add: open_to_def)
next
  case find
  then show ?thesis using findLease_sound [of env h] findLease_open n(2) by blast
qed

section \<open>A running lease\<close>

definition holds :: "bytes \<Rightarrow> string \<Rightarrow> int \<Rightarrow> time \<Rightarrow> bytes \<Rightarrow> Handler \<Rightarrow> bool" where
  "holds st hw n e ip h \<longleftrightarrow>
     start h = st \<and>
     (case lease_at h n of None \<Rightarrow> False
      | Some l \<Rightarrow> HardwareAddr l = hw \<and> Expiry l = e \<and> Addr l = ip)"

text \<open>
  Events that leave the lease alone: no request and no decline by the client itself, and the
  clock has not passed the expiry (zero is a lease that never expires).
\<close>

definition quiet :: "string \<Rightarrow> time \<Rightarrow> event \<Rightarrow> bool" where
  "quiet hw e ev =
     (case ev of
        EvDHCP env p mt opts \<Rightarrow>
          \<not> (client p = hw \<and> (mt = Request \<or> mt = Decline)) \<and>
          (e = 0 \<or> (t_canLease env \<le> e \<and> t_findLease env \<le> e))
      | EvSetHostname env hwaddr name \<Rightarrow> True)"

text \<open>A reply that offers or grants the address with number \<open>n\<close> to another client.\<close>

definition hands_out :: "dhcp4_lib \<Rightarrow> bytes \<Rightarrow> string \<Rightarrow> int \<Rightarrow> effect \<Rightarrow> bool" where
  "hands_out lib st hw n out =
     (case out of
        OutReply p r \<Rightarrow>
          client p \<noteq> hw \<and> (r_type r = Offer \<or> r_type r = ACK) \<and>
          (case r_yiaddr r of None \<Rightarrow> False | Some ip \<Rightarrow> IPRange lib st ip = n + 1)
      | _ \<Rightarrow> False)"

lemma quiet_not_open:
  assumes "holds st hw n e ip h" "quiet hw e (EvDHCP env p mt opts)" "client p \<noteq> hw"
  shows "\<not> open_to env (client p) (lease_at h n)"
  using assms
  by (auto simp: holds_def quiet_def open_to_def Expired_def After_def IsZero_def split: option.splits)

lemma holds_request:
  assumes inv: "pool_inv lib h" and hold: "holds st hw n e ip h"
    and q: "quiet hw e (EvDHCP env p Request opts)"
  shows "holds st hw n e ip (fst (serve_request lib env h p opts))"
    "serve_request lib env h p opts = (h', Some r, cbs) \<Longrightarrow> \<not> hands_out lib st hw n (OutReply p r)"
proof -
  have other: "client p \<noteq> hw" using q by (auto simp: quiet_def)
  let ?m = "canLease lib env h (requested_ip p opts) (client p)"
  have m: "?m \<noteq> n" if "?m \<noteq> -1"
    using canLease_open [OF refl that] quiet_not_open [OF hold q other] by auto
  obtain l where l: "lease_at h n = Some l" "HardwareAddr l = hw" "Expiry l = e" "Addr l = ip"
    "start h = st"
    using hold by (auto simp: holds_def split: option.splits)
  have "lease_at (grant h ?m (granted env h ?m (requested_ip p opts) (client p) opts)) n = Some l"
    if "?m \<noteq> -1"
    by (rule db.give_others [OF pool_inv_db [OF inv]]) (use m [OF that] l other in auto)
  with hold l show "holds st hw n e ip (fst (serve_request lib env h p opts))"
    by (auto simp: serve_request_cases Let_def holds_def)
  assume r: "serve_request lib env h p opts = (h', Some r, cbs)"
  show "\<not> hands_out lib st hw n (OutReply p r)"
  proof (cases "?m = -1")
    case True
    with r show ?thesis by (auto simp: serve_request_cases Let_def hands_out_def split: if_splits)
  next
    case False
    have "IPRange lib st (requested_ip p opts) = ?m + 1"
      using canLease_range [OF False] l(5) by simp
    with r m [OF False] False show ?thesis
      by (auto simp: serve_request_cases Let_def hands_out_def split: if_splits)
  qed
qed

lemma holds_discover:
  assumes lib: "lib_ok lib" and inv: "pool_inv lib h" and hold: "holds st hw n e ip h"
    and q: "quiet hw e (EvDHCP env p Discover opts)"
    and r: "serve_discover lib env h p opts = Some r"
  shows "\<not> hands_out lib st hw n (OutReply p r)"
proof (cases "client p = hw")
  case False
  let ?m = "discover_number lib env h (requested_ip p opts) (client p)"
  have m1: "?m \<noteq> -1" and yi: "r_yiaddr r = Some (IPAdd lib (start h) ?m)"
    using r by (auto simp: serve_discover_def Let_def split: if_splits)
  have range: "0 \<le> ?m" "?m < leaseRange h" and op: "open_to env (client p) (lease_at h ?m)"
    using discover_number_ok [OF inv refl m1] by simp_all
  have "?m \<noteq> n" using op quiet_not_open [OF hold q False] by auto
  moreover have "IPRange lib (start h) (IPAdd lib (start h) ?m) = ?m + 1"
    using IPRange_IPAdd [OF lib, of "start h" ?m] inv range unfolding pool_inv_def by simp
  ultimately show ?thesis using yi hold by (auto simp: hands_out_def holds_def)
qed (simp add: hands_out_def)

lemma holds_decline:
  assumes "pool_inv lib h" "holds st hw n e ip h" "client p \<noteq> hw"
  shows "holds st hw n e ip (fst (expireLease env h (client p)))"
  using assms
  by (auto simp: holds_def lease_at_expire pool_inv_db expired_for_def split: option.splits)

lemma holds_hostname:
  assumes inv: "pool_inv lib h" and hold: "holds st hw n e ip h"
    and ok: "SetHostname env h hwaddr name = Inr (h', cbs)"
  shows "holds st hw n e ip h'"
proof -
  note db = pool_inv_db [OF inv]
  obtain m p where mp: "map_of (leasesIP h) m = Some p"
    and h': "h' = h\<lparr>heap := (heap h)[p := named name (deref h p)]\<rparr>"
    using SetHostname_Inr [OF db ok] by metis
  have "lease_at h' = (lease_at h)(m \<mapsto> named name (deref h p))"
    unfolding h' by (rule lease_at_write [OF db mp])
  moreover have "start h' = start h" by (simp add: h')
  moreover have "lease_at h m = Some (deref h p)" by (simp add: lease_at_def mp)
  ultimately show ?thesis
    using hold by (auto simp: holds_def named_def split: option.splits if_splits)
qed

lemma handle_holds:
  assumes inv: "pool_inv lib h" and hold: "holds st hw n e ip h" and q: "quiet hw e ev"
  shows "holds st hw n e ip (fst (handle lib h ev))"
proof (cases ev)
  case (EvDHCP env p mt opts)
  have "client p \<noteq> hw" if "mt = Decline" using q that by (auto simp: EvDHCP quiet_def)
  then show ?thesis
    using holds_request(1) [OF inv hold] holds_decline [OF inv hold] hold q
    by (cases mt) (auto simp: EvDHCP handle_def serveDHCP_def split_beta)
next
  case (EvSetHostname env hwaddr name)
  then show ?thesis
    using holds_hostname [OF inv hold] hold
    by (auto simp: handle_def split: sum.split)
qed

lemma handle_no_handout:
  assumes lib: "lib_ok lib" and inv: "pool_inv lib h" and hold: "holds st hw n e ip h"
    and q: "quiet hw e ev" and out: "out \<in> set (snd (handle lib h ev))"
  shows "\<not> hands_out lib st hw n out"
proof (cases ev)
  case (EvDHCP env p mt opts)
  obtain h' r cbs where s: "serveDHCP lib env h p mt opts = (h', r, cbs)"
    by (cases "serveDHCP lib env h p mt opts") auto
  have "\<not> hands_out lib st hw n (OutReply p r')" if "r = Some r'" for r'
    using s that holds_request(2) [OF inv hold, of env p opts h' r' cbs]
      holds_discover [OF lib inv hold, of env p opts r'] q EvDHCP
    by (cases mt) (auto simp: serveDHCP_def)
  then show ?thesis
    using out s by (auto simp: EvDHCP handle_def hands_out_def split: option.splits)
next
  case (EvSetHostname env hwaddr name)
  then show ?thesis using out by (auto simp: handle_def hands_out_def split: sum.splits)
qed

interpretation lease: guarded_machine
  "handle lib" "\<lambda>h. lib_ok lib \<and> pool_inv lib h" "quiet hw e" "holds st hw n e ip" "hands_out lib st hw n"
  for lib hw e st n ip
  by unfold_locales (auto intro: handle_pool_inv handle_holds dest: handle_no_handout)

end
