(* ===== verification/Dhcp4dProps.thy ===== *)
theory Dhcp4dProps
  imports Dhcp4dSafety
begin

text \<open>
  The properties of the DHCPv4 server, with a witness for each that has hypotheses: a server on
  192.168.42.1/24, as in the package's tests, with the concrete library \<open>plain_lib\<close>.
\<close>

section \<open>Constants of a run\<close>

lemma handle_consts:
  "start (fst (handle lib h ev)) = start h \<and> leaseRange (fst (handle lib h ev)) = leaseRange h"
proof (cases ev)
  case (EvDHCP env p mt opts)
  then show ?thesis
    by (cases mt) (auto simp: handle_def serveDHCP_def split_beta serve_request_cases Let_def)
next
  case (EvSetHostname env hw name)
  then show ?thesis
    by (auto simp: handle_def SetHostname_def Let_def split: sum.split option.splits if_splits)
qed

interpretation fixed: run_machine "handle lib" "\<lambda>h. start h = st \<and> leaseRange h = k" for lib st k
  by unfold_locales (simp add: handle_consts)

section \<open>A new handler, loaded leases\<close>

lemma NewHandler_Inr:
  assumes "NewHandler la iface byName given listen = Inr h"
  obtains ip where "la = Inr ip" "length (To4 ip) = 4" "serverIP h = To4 ip"
    "start h = (To4 ip)[3 := To4 ip ! 3 + 1]" "leaseRange h = 230" "LeasePeriod h = 20 * Minute"
    "leasesIP h = []" "leasesHW h = []" "heap h = []"
proof -
  from assms obtain ip where ip: "la = Inr ip" and ne: "To4 ip \<noteq> []"
    by (cases "To4 (projr la) = []")
      (auto simp: NewHandler_def start_of_def Let_def bindR_eq_Inr split: if_splits)
  with length_To4 [of ip] have len: "length (To4 ip) = 4" by simp
  with assms ip ne show ?thesis
    by (intro that [of ip])
      (auto simp: NewHandler_def start_of_def Let_def bindR_eq_Inr split: if_splits)
qed

lemma pool_inv_new:
  assumes "NewHandler la iface byName given listen = Inr h" "be_val (start h) + 230 \<le> 2 ^ 32"
  shows "pool_inv lib h"
proof -
  from NewHandler_Inr [OF assms(1)]
  have "length (start h) = 4" "leaseRange h = 230" "leasesIP h = []"
    by (metis length_list_update)+
  moreover have "int (be_val (start h)) + 230 \<le> 2 ^ 32" using assms(2) by simp
  ultimately show ?thesis by (simp add: pool_inv_def db_inv_def lease_at_def)
qed

text \<open>The loop of \<open>SetLeases\<close>: it keeps the invariant if no client occurs twice.\<close>

lemma SetLeases_loop_inv:
  assumes "db_inv h" "\<forall>p \<in> set ls. p < length (heap h)"
    "distinct (map (\<lambda>p. HardwareAddr (deref h p)) ls)"
    "\<forall>p \<in> set ls. \<forall>n l. lease_at h n = Some l \<longrightarrow> HardwareAddr l \<noteq> HardwareAddr (deref h p)"
  shows "db_inv (SetLeases_loop h ls) \<and> heap (SetLeases_loop h ls) = heap h \<and>
    start (SetLeases_loop h ls) = start h \<and> leaseRange (SetLeases_loop h ls) = leaseRange h \<and>
    (\<forall>n l. lease_at (SetLeases_loop h ls) n = Some l \<longrightarrow>
       lease_at h n = Some l \<or> (\<exists>p \<in> set ls. deref h p = l \<and> Num l = n))"
  using assms
proof (induction ls arbitrary: h)
  case Nil
  then show ?case by simp
next
  case (Cons q ls)
  let ?h = "h\<lparr>leasesHW := AList.update (HardwareAddr (deref h q)) (Num (deref h q)) (leasesHW h),
               leasesIP := AList.update (Num (deref h q)) q (leasesIP h)\<rparr>"
  have fresh: "HardwareAddr l \<noteq> HardwareAddr (deref h q)" if "lease_at h n = Some l" for n l
    using Cons.prems(4) that by simp
  have at: "lease_at ?h = (lease_at h)(Num (deref h q) \<mapsto> deref h q)"
    by (auto simp: lease_at_def fun_eq_iff)
  have db: "db_inv ?h"
    using Cons.prems(1,2) fresh by (auto simp: db_inv_def lease_at_def)
  have ih: "db_inv (SetLeases_loop ?h ls) \<and> heap (SetLeases_loop ?h ls) = heap ?h \<and>
      start (SetLeases_loop ?h ls) = start ?h \<and> leaseRange (SetLeases_loop ?h ls) = leaseRange ?h \<and>
      (\<forall>n l. lease_at (SetLeases_loop ?h ls) n = Some l \<longrightarrow>
         lease_at ?h n = Some l \<or> (\<exists>p \<in> set ls. deref ?h p = l \<and> Num l = n))"
  proof (rule Cons.IH [OF db])
    show "\<forall>p \<in> set ls. \<forall>n l. lease_at ?h n = Some l \<longrightarrow> HardwareAddr l \<noteq> HardwareAddr (deref ?h p)"
      using Cons.prems(3,4) by (auto simp: at split: if_splits)
  qed (use Cons.prems(2,3) in auto)
  have "lease_at h n = Some l \<or> (\<exists>p \<in> set (q # ls). deref h p = l \<and> Num l = n)"
    if "lease_at (SetLeases_loop ?h ls) n = Some l" for n l
  proof -
    have "lease_at ?h n = Some l \<or> (\<exists>p \<in> set ls. deref h p = l \<and> Num l = n)"
      using ih that by simp
    then show ?thesis by (auto simp: at split: if_splits)
  qed
  then show ?case using ih by simp
qed

lemma SetLeases_loop_at:
  "lease_at (SetLeases_loop h ls) n =
     (case find (\<lambda>p. Num (deref h p) = n) (rev ls) of
        Some p \<Rightarrow> Some (deref h p) | None \<Rightarrow> lease_at h n)"
proof (induction ls arbitrary: h)
  case (Cons q ls)
  then show ?case
    by (auto simp: find_append lease_at_def split: option.split)
qed simp

lemma replicate_6: "replicate 6 x = [x, x, x, x, x, x]"
  by (simp add: numeral_eq_Suc)

lemma expireLease_iface_mac [simp]: "iface_mac (fst (expireLease env h hw)) = iface_mac h"
  by (simp add: expireLease_def split: option.split)

lemma serveDHCP_fields:
  "serverIP (fst (serveDHCP lib env h p mt opts)) = serverIP h \<and>
   iface_mac (fst (serveDHCP lib env h p mt opts)) = iface_mac h"
  by (cases mt) (simp_all add: serveDHCP_def serve_request_cases Let_def)

section \<open>A concrete server\<close>

definition demo_env :: env where
  "demo_env =
     \<lparr>t_canLease = 100, t_offer = 100, t_findLease = 100, t_request = 100, t_wall = 100,
      rand_bits = 21, map_order = (\<lambda>ps. ps)\<rparr>"

definition demo_handler :: Handler where
  "demo_handler =
     \<lparr>serverIP = [192, 168, 42, 1], start = [192, 168, 42, 2], leaseRange = 230,
      LeasePeriod = 20 * Minute,
      options =
        [(OptionSubnetMask, [255, 255, 255, 0]),
         (OptionRouter, [192, 168, 42, 1]),
         (OptionDomainNameServer, [192, 168, 42, 1]),
         (OptionDomainName, go_bytes ''lan''),
         (OptionDomainSearch, 3 # go_bytes ''lan'' @ [0])],
      iface_mac = [0, 0, 0, 0, 0, 1], Leases_set = False, leasesHW = [], leasesIP = [], heap = []\<rparr>"

lemma demo_NewHandler:
  "NewHandler (Inr [192, 168, 42, 1]) (Some [0, 0, 0, 0, 0, 1]) (Inl (Err '''')) True (Inr ()) = Inr demo_handler"
  by (simp add: NewHandler_def start_of_def demo_handler_def Let_def numeral_eq_Suc go_copy_def)

lemma demo_pool: "pool_inv lib demo_handler"
  by (rule pool_inv_new [OF demo_NewHandler]) (simp add: demo_handler_def be_val_def)

definition demo_packet :: "byte \<Rightarrow> byte \<Rightarrow> packet" where
  "demo_packet host mac = \<lparr>CIAddr = [192, 168, 42, host], CHAddr = [0x11, 0x22, 0x33, 0x44, 0x55, mac], Broadcast = False\<rparr>"

lemma leasePeriod_mac:
  "leasePeriodForDevice h (mac_string mac) =
     (if length mac = 6 \<and> take 3 mac \<in> set nintendoMacPrefixes then Hour else LeasePeriod h)"
  using nintendo.hit_iff [of "take 3 mac"]
  by (auto simp: leasePeriodForDevice_def hex_decode_mac_string table_hit_def table_index_def Let_def)

lemma demo_period: "leasePeriodForDevice h (mac_string [0x11, 0x22, 0x33, 0x44, 0x55, m]) = LeasePeriod h"
  unfolding leasePeriod_mac by (simp add: nintendoMacPrefixes_def)

text \<open>The server after its first client, ending in 01, was granted 192.168.42.5.\<close>

definition demo_server :: Handler where
  "demo_server = fst (handle plain_lib demo_handler (EvDHCP demo_env (demo_packet 5 1) Request []))"

definition demo_lease :: Lease where
  "demo_lease =
     \<lparr>Num = 3, Addr = [192, 168, 42, 5], HardwareAddr = mac_string [0x11, 0x22, 0x33, 0x44, 0x55, 1],
      Hostname = '''', HostnameOverride = '''', Expiry = 100 + 20 * Minute\<rparr>"

lemma demo_canLease: "canLease plain_lib demo_env demo_handler [192, 168, 42, 5] hw = 3"
  by (simp add: canLease_lease_at lease_at_def demo_handler_def plain_lib_def be_val_def)

lemma demo_server_eq:
  "demo_server = demo_handler\<lparr>heap := [demo_lease], leasesIP := [(3, 0)],
     leasesHW := [(mac_string [0x11, 0x22, 0x33, 0x44, 0x55, 1], 3)]\<rparr>"
  by (simp add: demo_server_def handle_def serveDHCP_def serve_request_def requested_ip_def
      demo_packet_def demo_canLease Let_def callLeasesLocked_def store_lease_def new_lease_def
      leaseHW_def demo_period option_bytes_def go_string_def demo_lease_def del: mac_string.simps)
    (simp add: demo_handler_def demo_env_def del: mac_string.simps)

lemma demo_server_pool: "pool_inv plain_lib demo_server"
  unfolding demo_server_def by (rule handle_pool_inv) (rule demo_pool)

lemma demo_lease_at: "lease_at demo_server 3 = Some demo_lease"
  by (simp add: demo_server_eq lease_at_def)


section \<open>Properties\<close>

text \<open>
  C1. While a client's lease runs (the clock reads of the events do not pass its expiry, and the
  client itself neither requests nor declines), any sequence of messages from anybody and of
  hostname changes leaves the number bound to the client with the same address and expiry, and
  no reply of the whole sequence offers or grants that address to another client.
\<close>

theorem lease_exclusive:
  assumes "lib_ok lib" "pool_inv lib h" "lease_at h n = Some l"
    and "list_all (quiet (HardwareAddr l) (Expiry l)) es"
  shows "(\<exists>l'. lease_at (fst (run (handle lib) h es)) n = Some l' \<and>
            HardwareAddr l' = HardwareAddr l \<and> Expiry l' = Expiry l \<and> Addr l' = Addr l) \<and>
         (\<forall>out \<in> set (snd (run (handle lib) h es)).
            \<not> hands_out lib (start h) (HardwareAddr l) n out)"
proof -
  let ?k = "holds (start h) (HardwareAddr l) n (Expiry l) (Addr l)"
  have inv: "lib_ok lib \<and> pool_inv lib h" and "?k h"
    using assms by (simp_all add: holds_def)
  then have "?k (fst (run (handle lib) h es))"
    using assms(4) by (rule lease.run_keep)
  moreover have "\<not> hands_out lib (start h) (HardwareAddr l) n out"
    if "out \<in> set (snd (run (handle lib) h es))" for out
    using lease.run_good [OF inv \<open>?k h\<close> assms(4) that] .
  ultimately show ?thesis by (auto simp: holds_def split: option.splits)
qed

lemma demo_quiet:
  "list_all (quiet (HardwareAddr demo_lease) (Expiry demo_lease))
     [EvDHCP demo_env (demo_packet 5 2) Request [], EvDHCP demo_env (demo_packet 0 2) Discover [],
      EvSetHostname demo_env (HardwareAddr demo_lease) ''laptop'']"
  by (simp add: quiet_def demo_packet_def demo_lease_def demo_env_def mac_string_inj
      Minute_def Second_def del: mac_string.simps)

lemma lease_exclusive_witness:
  "\<exists>l'. lease_at (fst (run (handle plain_lib) demo_server
       [EvDHCP demo_env (demo_packet 5 2) Request [], EvDHCP demo_env (demo_packet 0 2) Discover [],
        EvSetHostname demo_env (HardwareAddr demo_lease) ''laptop''])) 3 = Some l' \<and>
     Addr l' = [192, 168, 42, 5]"
  using lease_exclusive [OF lib_ok_plain demo_server_pool demo_lease_at demo_quiet]
  by (auto simp: demo_lease_def)

text \<open>
  C2. From a fresh handler, after any sequence of events, every lease in the table has the number
  under which it is stored, a number of the pool, the address of that number, and no other
  number has the same client or the same address.
\<close>

theorem table_consistent:
  assumes "NewHandler la iface byName given listen = Inr h0" "be_val (start h0) + 230 \<le> 2 ^ 32"
    and "h = fst (run (handle lib) h0 es)" "lease_at h n = Some l"
  shows "0 \<le> n \<and> n < 230 \<and> Num l = n \<and> IPRange lib (start h0) (Addr l) = n + 1 \<and>
    (\<forall>m l'. lease_at h m = Some l' \<and> m \<noteq> n \<longrightarrow>
       HardwareAddr l' \<noteq> HardwareAddr l \<and> Addr l' \<noteq> Addr l)"
proof -
  have inv: "pool_inv lib h"
    unfolding assms(3) by (rule serve.run_inv) (rule pool_inv_new [OF assms(1,2)])
  have k: "start h = start h0 \<and> leaseRange h = 230"
    unfolding assms(3) by (rule fixed.run_inv) (use NewHandler_Inr [OF assms(1)] in metis)
  have db: "db_inv h" using inv by (rule pool_inv_db)
  have "HardwareAddr l' \<noteq> HardwareAddr l \<and> Addr l' \<noteq> Addr l"
    if "lease_at h m = Some l'" "m \<noteq> n" for m l'
    using one_number_per_client [OF db that(1) assms(4)] that(2)
      pool_invD(4) [OF inv that(1)] pool_invD(4) [OF inv assms(4)] by auto
  then show ?thesis
    using pool_invD [OF inv assms(4)] lease_at_Num [OF db assms(4)] k by auto
qed

lemma table_consistent_witness:
  "IPRange plain_lib [192, 168, 42, 2] (Addr demo_lease) = 3 + 1 \<and> Num demo_lease = 3"
  using table_consistent [OF demo_NewHandler _ _ demo_lease_at, of plain_lib
      "[EvDHCP demo_env (demo_packet 5 1) Request []]"]
  by (simp add: demo_server_def demo_handler_def be_val_def)

text \<open>
  C8. A request is ignored if it names another server; it gets a NAK and changes nothing if the
  address cannot be leased to the client; otherwise it gets an ACK for the requested address and
  the table changes by binding the client to the number of that address, which takes away every
  other number of the client and nothing from anybody else but an expired lease on that number.
\<close>

theorem request_outcome:
  assumes "db_inv h" "serveDHCP lib env h p Request opts = (h', r, cbs)"
    and "n = canLease lib env h (requested_ip p opts) (client p)"
  shows "if other_server h opts then h' = h \<and> r = None \<and> cbs = []
    else if n = -1 then h' = h \<and> r = Some (ReplyPacket NAK (serverIP h) None 0 None) \<and> cbs = []
    else r = Some (ReplyPacket ACK (serverIP h) (Some (requested_ip p opts))
               (leasePeriodForDevice h (client p)) (select_options h opts)) \<and>
      db_inv h' \<and>
      lease_at h' = bind_client (lease_at h) n (granted env h n (requested_ip p opts) (client p) opts) \<and>
      n = IPRange lib (start h) (requested_ip p opts) - 1 \<and>
      (case lease_at h n of None \<Rightarrow> True
       | Some l \<Rightarrow> HardwareAddr l = client p \<or> Expired l (t_canLease env))"
proof (cases "other_server h opts \<or> n = -1")
  case True
  then show ?thesis
    using assms(2,3) by (auto simp: serveDHCP_def serve_request_cases Let_def split: if_splits)
next
  case False
  let ?l = "granted env h n (requested_ip p opts) (client p) opts"
  have n: "canLease lib env h (requested_ip p opts) (client p) \<noteq> -1" using False assms(3) by simp
  have "h' = grant h n ?l" and "r = Some (ReplyPacket ACK (serverIP h) (Some (requested_ip p opts))
      (leasePeriodForDevice h (client p)) (select_options h opts))"
    using False assms(2,3) by (simp_all add: serveDHCP_def serve_request_cases Let_def)
  moreover have "case lease_at h n of None \<Rightarrow> True
      | Some l \<Rightarrow> HardwareAddr l = client p \<or> Expired l (t_canLease env)"
    using canLease_slot [OF n] assms(3) by simp
  moreover have "db_inv (grant h n ?l)" by (rule db_inv_grant [OF assms(1)]) simp
  moreover have "lease_at (grant h n ?l) = bind_client (lease_at h) n ?l"
    by (rule lease_at_grant [OF assms(1)])
  moreover have "n = IPRange lib (start h) (requested_ip p opts) - 1"
    using canLease_range [OF n] assms(3) by simp
  ultimately show ?thesis using False by auto
qed

lemma request_outcome_witness:
  "\<exists>h' cbs. serveDHCP plain_lib demo_env demo_handler (demo_packet 5 1) Request [] =
     (h', Some (ReplyPacket ACK [192, 168, 42, 1] (Some [192, 168, 42, 5]) (20 * Minute)
        (Some (options demo_handler, None))), cbs)"
proof -
  obtain h' r cbs where s: "serveDHCP plain_lib demo_env demo_handler (demo_packet 5 1) Request [] = (h', r, cbs)"
    by (rule prod_cases3)
  show ?thesis
    using request_outcome [OF pool_inv_db [OF demo_pool] s refl] s
    by (simp add: other_server_def requested_ip_def demo_packet_def demo_canLease demo_period
        select_options_def del: mac_string.simps) (simp add: demo_handler_def)
qed

text \<open>
  C31. A discover is left unanswered exactly when the table has as many entries as the pool has
  numbers (expired entries count, so a full table of expired leases refuses every newcomer), the
  client has no running lease, and the address it asks for, if any, cannot be leased to it.
\<close>

theorem discover_refused_iff:
  assumes "pool_inv lib h"
  shows "serveDHCP lib env h p Discover opts = (h, None, []) \<longleftrightarrow>
    leaseRange h \<le> int (length (leasesIP h)) \<and>
    (\<forall>n l. lease_at h n = Some l \<and> HardwareAddr l = client p \<longrightarrow> Expired l (t_offer env)) \<and>
    (IP_Equal (To4 (requested_ip p opts)) IPv4zero \<or>
     canLease lib env h (requested_ip p opts) (client p) = -1)"
proof (cases "leaseHW h (client p)")
  case None
  then have "HardwareAddr l \<noteq> client p" if "lease_at h n = Some l" for n l
    using leaseHW_None [OF pool_inv_db [OF assms]] that by blast
  with None show ?thesis
    by (auto simp: serveDHCP_def serve_discover_def discover_number_def Let_def findLease_complete)
next
  case (Some q)
  then obtain m where m: "map_of (leasesIP h) m = Some q" "HardwareAddr (deref h q) = client p"
    using leaseHW_Some pool_inv_db [OF assms] by blast
  then have at: "lease_at h m = Some (deref h q)" by (simp add: lease_at_def)
  have num: "Num (deref h q) \<noteq> -1"
    using lease_at_Num [OF pool_inv_db [OF assms] at] pool_invD(1) [OF assms at] by simp
  have "(\<forall>n l. lease_at h n = Some l \<and> HardwareAddr l = client p \<longrightarrow> Expired l (t_offer env)) \<longleftrightarrow>
      Expired (deref h q) (t_offer env)"
    using one_number_per_client [OF pool_inv_db [OF assms] at] at m(2) by (metis option.inject)
  with Some num show ?thesis
    by (auto simp: serveDHCP_def serve_discover_def discover_number_def Let_def findLease_complete)
qed

lemma discover_refused_iff_witness:
  "serveDHCP plain_lib demo_env demo_server (demo_packet 0 2) Discover [] \<noteq> (demo_server, None, [])"
  unfolding discover_refused_iff [OF demo_server_pool]
  by (simp add: demo_server_eq) (simp add: demo_handler_def)

text \<open>
  C32. An offer can be taken up: if a discover is answered with an address and the client then
  requests that address from this server, with clocks that do not run backwards, the request is
  granted and the address is bound to the client.
\<close>

theorem offer_then_request:
  assumes "lib_ok lib" "pool_inv lib h" "start h \<noteq> [0, 0, 0, 0]"
    and "serveDHCP lib env h p Discover opts = (h, Some r, [])" "r_yiaddr r = Some ip"
    and "CHAddr p' = CHAddr p" "requested_ip p' opts' = ip" "\<not> other_server h opts'"
    and "t_canLease env \<le> t_canLease env'" "t_findLease env \<le> t_canLease env'"
  shows "\<exists>h' r' cbs n. serveDHCP lib env' h p' Request opts' = (h', Some r', cbs) \<and>
    r_type r = Offer \<and> r_type r' = ACK \<and> r_yiaddr r' = Some ip \<and>
    (\<exists>l. lease_at h' n = Some l \<and> HardwareAddr l = client p \<and> Addr l = ip)"
proof -
  let ?n = "discover_number lib env h (requested_ip p opts) (client p)"
  have n1: "?n \<noteq> -1" and ip: "ip = IPAdd lib (start h) ?n" and "r_type r = Offer"
    using assms(4,5) by (auto simp: serveDHCP_def serve_discover_def Let_def split: if_splits)
  have range: "0 \<le> ?n" "?n < leaseRange h" and op: "open_to env (client p) (lease_at h ?n)"
    using discover_number_ok [OF assms(2) refl n1] by simp_all
  have st: "length (start h) = 4" "int (be_val (start h)) + leaseRange h \<le> 2 ^ 32"
    using assms(2) by (simp_all add: pool_inv_def)
  have fits: "int (be_val (start h)) + ?n < 2 ^ 32" using st range by simp
  have len: "length ip = 4" and val: "int (be_val ip) = int (be_val (start h)) + ?n"
    using lib_okD(2,3) [OF assms(1) st(1) _ fits] range ip by simp_all
  have "be_val (start h) \<noteq> be_val [0, 0, 0, 0]"
    using be_val_inj4 [OF st(1), of "[0, 0, 0, 0]"] assms(3) by auto
  then have nz: "ip \<noteq> [0, 0, 0, 0]" using val range(1) by (auto simp: be_val_def)
  have num: "IPRange lib (start h) ip = ?n + 1"
    using IPRange_IPAdd [OF assms(1) st(1) range(1) fits] ip by simp
  have "canLease lib env' h ip (client p) = ?n"
    using num len nz range op assms(9,10)
    by (auto simp: canLease_lease_at open_to_def Expired_def After_def split: option.splits)
  moreover define g where "g = granted env' h ?n ip (client p) opts'"
  ultimately have eq: "serveDHCP lib env' h p' Request opts' =
      (grant h ?n g, Some (ReplyPacket ACK (serverIP h) (Some ip) (leasePeriodForDevice h (client p))
         (select_options h opts')), callLeasesLocked env' (grant h ?n g) (length (heap h)))"
    using assms(6,7,8) n1 by (simp add: serveDHCP_def serve_request_cases Let_def)
  have g: "lease_at (grant h ?n g) ?n = Some g \<and> HardwareAddr g = client p \<and> Addr g = ip"
    using db.give_owner [OF pool_inv_db [OF assms(2)]] len by (simp add: g_def)
  show ?thesis
    by (rule exI, rule exI, rule exI, rule exI [of _ ?n], intro conjI, rule eq)
      (use \<open>r_type r = Offer\<close> g in auto)
qed


lemma demo_offer:
  "serveDHCP plain_lib demo_env demo_handler (demo_packet 5 1) Discover [] =
     (demo_handler, Some (ReplyPacket Offer [192, 168, 42, 1] (Some [192, 168, 42, 5]) (20 * Minute)
        (Some (options demo_handler, None))), [])"
  by (simp add: serveDHCP_def serve_discover_def discover_number_def requested_ip_def demo_packet_def
      demo_canLease demo_period select_options_def Let_def IP_Equal_IPv4zero leaseHW_def
      del: mac_string.simps)
    (simp add: demo_handler_def plain_lib_def be_val_def be_bytes4_def)

lemma offer_then_request_witness:
  "\<exists>h' r' cbs n l. serveDHCP plain_lib demo_env demo_handler (demo_packet 5 1) Request [] = (h', Some r', cbs) \<and>
     r_type r' = ACK \<and> lease_at h' n = Some l \<and> Addr l = [192, 168, 42, 5]"
  using offer_then_request [OF lib_ok_plain demo_pool _ demo_offer, of "[192, 168, 42, 5]"
      "demo_packet 5 1" "[]" demo_env]
  by (auto simp: demo_handler_def other_server_def requested_ip_def demo_packet_def demo_env_def
      simp del: mac_string.simps)

text \<open>
  C33. A granted lease runs for one hour if the client's hardware address has six bytes and begins
  with a prefix of the Nintendo table, and for the handler's period otherwise (formatting the
  address, decoding it again and bisecting the table amount to membership in the table); the reply
  announces that period. A client that had a permanent lease (expiry zero) keeps a permanent one.
\<close>

theorem granted_period:
  assumes "db_inv h" "serveDHCP lib env h p Request opts = (h', Some r, cbs)" "r_type r = ACK"
    and "d = (if length (CHAddr p) = 6 \<and> take 3 (CHAddr p) \<in> set nintendoMacPrefixes
              then Hour else LeasePeriod h)"
  shows "r_period r = d \<and>
    (\<exists>n l. lease_at h' n = Some l \<and> HardwareAddr l = client p \<and>
       Expiry l =
         (if \<exists>m l0. lease_at h m = Some l0 \<and> HardwareAddr l0 = client p \<and> Expiry l0 = 0
          then 0 else t_request env + d))"
proof -
  let ?n = "canLease lib env h (requested_ip p opts) (client p)"
  let ?l = "granted env h ?n (requested_ip p opts) (client p) opts"
  have "h' = grant h ?n ?l" and r: "r_period r = leasePeriodForDevice h (client p)"
    using assms(2,3) by (auto simp: serveDHCP_def serve_request_cases Let_def split: if_splits)
  then have at: "lease_at h' ?n = Some ?l" using db.give_owner [OF assms(1)] by simp
  have d: "leasePeriodForDevice h (client p) = d" unfolding leasePeriod_mac assms(4) ..
  have "Expiry ?l =
      (if \<exists>m l0. lease_at h m = Some l0 \<and> HardwareAddr l0 = client p \<and> Expiry l0 = 0
       then 0 else t_request env + d)"
  proof (cases "leaseHW h (client p)")
    case None
    then have "\<not> (\<exists>m l0. lease_at h m = Some l0 \<and> HardwareAddr l0 = client p \<and> Expiry l0 = 0)"
      using leaseHW_None [OF assms(1), of "client p"] by blast
    then show ?thesis using None d by (auto simp: granted_def new_lease_def)
  next
    case (Some q)
    then obtain m where m: "map_of (leasesIP h) m = Some q" "HardwareAddr (deref h q) = client p"
      using leaseHW_Some [OF assms(1)] by blast
    then have "lease_at h m = Some (deref h q)" by (simp add: lease_at_def)
    then have "(\<exists>m l0. lease_at h m = Some l0 \<and> HardwareAddr l0 = client p \<and> Expiry l0 = 0) \<longleftrightarrow>
        Expiry (deref h q) = 0"
      using one_number_per_client [OF assms(1)] m(2) by (metis option.inject)
    then show ?thesis using Some d by (simp add: granted_def new_lease_def)
  qed
  then show ?thesis using r d at by (intro conjI exI [of _ ?n] exI [of _ ?l]) simp_all
qed

lemma granted_period_witness:
  "\<exists>h' r cbs. serveDHCP plain_lib demo_env demo_handler (demo_packet 5 1) Request [] = (h', Some r, cbs) \<and>
     r_period r = 20 * Minute"
proof -
  obtain h' r cbs where s: "serveDHCP plain_lib demo_env demo_handler (demo_packet 5 1) Request [] = (h', Some r, cbs)"
    and ack: "r_type r = ACK"
    by (simp add: serveDHCP_def serve_request_cases Let_def other_server_def requested_ip_def
        demo_packet_def demo_canLease)
  show ?thesis
    using granted_period [OF pool_inv_db [OF demo_pool] s ack refl] s
    by (simp add: demo_packet_def demo_handler_def nintendoMacPrefixes_def)
qed

text \<open>
  A decline gets no reply and expires the client's lease, if any, at the current time; every
  other lease and every number stay as they are, and the client's number can be leased to others
  from the next clock tick on.
\<close>

theorem decline_outcome:
  assumes "db_inv h" "serveDHCP lib env h p Decline opts = (h', r, cbs)"
  shows "r = None \<and> cbs = [] \<and> db_inv h' \<and>
    (\<forall>n. lease_at h' n = map_option (expired_for (client p) (t_wall env)) (lease_at h n)) \<and>
    (\<forall>n l now. lease_at h' n = Some l \<and> HardwareAddr l = client p \<and> t_wall env \<noteq> 0 \<and>
       t_wall env < now \<longrightarrow> free_or_expired h' now n)"
proof -
  have h': "h' = fst (expireLease env h (client p))" "r = None" "cbs = []"
    using assms(2) by (auto simp: serveDHCP_def)
  have at: "lease_at h' n = map_option (expired_for (client p) (t_wall env)) (lease_at h n)" for n
    unfolding h' by (rule lease_at_expire [OF assms(1)])
  have "Expiry l = t_wall env" if l: "lease_at h' n = Some l" "HardwareAddr l = client p" for n l
  proof -
    obtain l0 where "l = expired_for (client p) (t_wall env) l0" using l(1) by (auto simp: at)
    then show ?thesis using l(2) by (simp add: expired_for_def split: if_splits)
  qed
  then have "free_or_expired h' now n"
    if "lease_at h' n = Some l" "HardwareAddr l = client p" "t_wall env \<noteq> 0" "t_wall env < now" for n l now
    using that by (simp add: free_or_expired_iff Expired_def After_def IsZero_def)
  then show ?thesis using h' at db_inv_expire [OF assms(1)] by blast
qed

lemma decline_outcome_witness:
  "\<exists>h'. serveDHCP plain_lib demo_env demo_server (demo_packet 0 1) Decline [] = (h', None, []) \<and>
     lease_at h' 3 = Some (demo_lease\<lparr>Expiry := 100\<rparr>)"
proof -
  obtain h' r cbs where s: "serveDHCP plain_lib demo_env demo_server (demo_packet 0 1) Decline [] = (h', r, cbs)"
    by (rule prod_cases3)
  show ?thesis
    using decline_outcome [OF pool_inv_db [OF demo_server_pool] s] s
    by (simp add: demo_lease_at expired_for_def demo_packet_def demo_env_def demo_lease_def
        del: mac_string.simps)
qed

text \<open>
  \<open>SetHostname\<close> renames the client's running lease and nothing else. Without one it is an error,
  except that it dereferences nil if the number recorded for the client (zero if there is none)
  has no lease: the check compares the lease's client but never asks whether there is a lease.
\<close>

lemma SetHostname_outcome:
  assumes "db_inv h"
  shows "SetHostname env h hw name =
    (case leaseHW h hw of
       Some p \<Rightarrow>
         if Expired (deref h p) (t_offer env)
         then Inl (Err ''hwaddr does not have a valid lease'')
         else let h' = h\<lparr>heap := (heap h)[p := named name (deref h p)]\<rparr>
              in Inr (h', callLeasesLocked env h' p)
     | None \<Rightarrow>
         if lease_at h (case map_of (leasesHW h) hw of None \<Rightarrow> 0 | Some n \<Rightarrow> n) = None
         then Inl (Panic ''nil pointer dereference'')
         else Inl (Err ''hwaddr does not have a valid lease''))"
proof (cases "leaseHW h hw")
  case None
  then have other: "HardwareAddr l \<noteq> hw" if "lease_at h n = Some l" for n l
    using leaseHW_None [OF assms] that by blast
  let ?n = "case map_of (leasesHW h) hw of None \<Rightarrow> 0 | Some n \<Rightarrow> n"
  show ?thesis
  proof (cases "map_of (leasesIP h) ?n")
    case None
    then show ?thesis
      using \<open>leaseHW h hw = None\<close> by (simp add: SetHostname_def Let_def lease_at_def)
  next
    case (Some q)
    then have at: "lease_at h ?n = Some (deref h q)" by (simp add: lease_at_def)
    with Some other [OF at] \<open>leaseHW h hw = None\<close> show ?thesis
      by (simp add: SetHostname_def Let_def)
  qed
next
  case (Some p)
  then obtain n where n: "map_of (leasesIP h) n = Some p" "HardwareAddr (deref h p) = hw"
    using leaseHW_Some [OF assms] by blast
  moreover have "map_of (leasesHW h) hw = Some n" using db_invD(3) [OF assms n(1)] n(2) by simp
  ultimately show ?thesis using Some by (simp add: SetHostname_def Let_def named_def)
qed

lemma SetHostname_outcome_witness:
  "SetHostname demo_env demo_handler ''aa'' ''laptop'' = Inl (Panic ''nil pointer dereference'')"
  unfolding SetHostname_outcome [OF pool_inv_db [OF demo_pool]]
  by (simp add: demo_handler_def leaseHW_def lease_at_def)

text \<open>
  A hostname set by the administrator survives the client's later requests: the renewed lease,
  on whatever address, carries it as hostname and as override, whatever name the client sends.
\<close>

lemma hostname_sticky:
  assumes "db_inv h" "SetHostname env h (client p) name = Inr (h1, cbs)" "name \<noteq> ''''"
    and "serveDHCP lib env' h1 p Request opts = (h2, Some r, cbs')" "r_type r = ACK"
  shows "\<exists>n l. lease_at h2 n = Some l \<and> HardwareAddr l = client p \<and>
    Hostname l = name \<and> HostnameOverride l = name"
proof -
  obtain m q where q: "map_of (leasesIP h) m = Some q" "HardwareAddr (deref h q) = client p"
    and h1: "h1 = h\<lparr>heap := (heap h)[q := named name (deref h q)]\<rparr>"
    using SetHostname_Inr [OF assms(1,2)] by metis
  have db1: "db_inv h1" unfolding h1 by (rule db_inv_write [OF assms(1) q(1)]) (simp_all add: named_def)
  have d: "deref h1 q = named name (deref h q)" using db_invD(1) [OF assms(1) q(1)] by (simp add: h1)
  have lhw: "leaseHW h1 (client p) = Some q"
    using q d unfolding leaseHW_Some [OF db1] by (auto simp: h1 named_def)
  let ?n = "canLease lib env' h1 (requested_ip p opts) (client p)"
  let ?l = "granted env' h1 ?n (requested_ip p opts) (client p) opts"
  have "h2 = grant h1 ?n ?l"
    using assms(4,5) by (auto simp: serveDHCP_def serve_request_cases Let_def split: if_splits)
  then have "lease_at h2 ?n = Some ?l" using db.give_owner [OF db1] by simp
  moreover have "Hostname ?l = name \<and> HostnameOverride ?l = name"
    using lhw d assms(3) by (simp add: granted_def retain_def named_def Let_def)
  ultimately show ?thesis by (intro exI [of _ ?n] exI [of _ ?l]) simp
qed

lemma demo_rename:
  "SetHostname demo_env demo_server (client (demo_packet 5 1)) ''laptop'' =
     Inr (demo_server\<lparr>heap := [named ''laptop'' demo_lease]\<rparr>, [])"
  by (simp add: SetHostname_def demo_server_eq demo_packet_def Let_def callLeasesLocked_def named_def
      Expired_def IsZero_def After_def demo_env_def del: mac_string.simps)
    (simp add: demo_lease_def demo_handler_def Minute_def Second_def)

lemma hostname_sticky_witness:
  "\<exists>h2 r cbs n l.
     serveDHCP plain_lib demo_env (demo_server\<lparr>heap := [named ''laptop'' demo_lease]\<rparr>)
       (demo_packet 7 1) Request [(OptionHostName, [0x78])] = (h2, Some r, cbs) \<and>
     lease_at h2 n = Some l \<and> Hostname l = ''laptop''"
proof -
  let ?h = "demo_server\<lparr>heap := [named ''laptop'' demo_lease]\<rparr>"
  have can: "canLease plain_lib demo_env ?h [192, 168, 42, 7] hw = 5" for hw
    by (simp add: canLease_lease_at lease_at_def demo_server_eq)
      (simp add: demo_handler_def plain_lib_def be_val_def)
  obtain h2 r cbs where s: "serveDHCP plain_lib demo_env ?h (demo_packet 7 1) Request [(OptionHostName, [0x78])] =
      (h2, Some r, cbs)" and ack: "r_type r = ACK"
    by (simp add: serveDHCP_def serve_request_cases Let_def other_server_def requested_ip_def
        demo_packet_def can)
  have rename: "SetHostname demo_env demo_server (client (demo_packet 7 1)) ''laptop'' = Inr (?h, [])"
    using demo_rename by (simp add: demo_packet_def)
  show ?thesis
    using hostname_sticky [OF pool_inv_db [OF demo_server_pool] rename _ s ack] s by auto
qed

text \<open>
  C34. The pool of a new handler never contains the server's own address, and it stays within the
  /24 network whose mask the server hands out exactly if the server's last octet is at most 25, or
  255 (where the start wraps around to 0).
\<close>

theorem pool_addresses:
  assumes "lib_ok lib" "NewHandler la iface byName given listen = Inr h"
    and "be_val (start h) + 230 \<le> 2 ^ 32"
  shows "(\<forall>n. 0 \<le> n \<and> n < leaseRange h \<longrightarrow> IPAdd lib (start h) n \<noteq> serverIP h) \<and>
    ((\<forall>n. 0 \<le> n \<and> n < leaseRange h \<longrightarrow> take 3 (IPAdd lib (start h) n) = take 3 (serverIP h)) \<longleftrightarrow>
     serverIP h ! 3 \<le> 25 \<or> serverIP h ! 3 = 255)"
proof -
  obtain a b c d where sip: "serverIP h = [a, b, c, d]" and st: "start h = [a, b, c, d + 1]"
    and range: "leaseRange h = 230"
    using NewHandler_Inr [OF assms(2)] length_4_iff [of "serverIP h"]
    by (metis list_update_code(2,3) numeral_3_eq_3 nth_Cons_0 nth_Cons_Suc)
  define q where "q = be_val [a, b, c]"
  have sv: "be_val (serverIP h) = 256 * q + unat d" and stv: "be_val (start h) = 256 * q + unat (d + 1)"
    by (simp_all add: q_def sip st be_val_def)
  have q: "be_val (serverIP h) div 256 = q" using sv unat_byte_less [of d] by simp
  note suc = unat_byte_Suc [of d]
  have ip: "length (IPAdd lib (start h) n) = 4"
      "int (be_val (IPAdd lib (start h) n)) = int (256 * q + unat (d + 1)) + n"
    if n: "0 \<le> n \<and> n < 230" for n
    using lib_okD(2,3) [OF assms(1), of "start h" n] assms(3) n by (simp_all add: st flip: stv)
  have "IPAdd lib (start h) n \<noteq> serverIP h" if n: "0 \<le> n \<and> n < 230" for n
  proof
    assume "IPAdd lib (start h) n = serverIP h"
    then have "int (256 * q + unat d) = int (256 * q + unat (d + 1)) + n" using ip(2) [OF n] sv by simp
    then show False using suc n by (auto split: if_splits)
  qed
  moreover have net: "take 3 (IPAdd lib (start h) n) = take 3 (serverIP h) \<longleftrightarrow> unat (d + 1) + nat n < 256"
    if n: "0 \<le> n \<and> n < 230" for n
  proof -
    have "be_val (IPAdd lib (start h) n) = 256 * q + (unat (d + 1) + nat n)" using ip(2) [OF n] n by arith
    moreover have "(256 * q + m) div 256 = q \<longleftrightarrow> m < 256" for m :: nat by auto
    ultimately show ?thesis
      using take3_eq_iff [OF ip(1) [OF n], of "serverIP h"] n q sip by simp
  qed
  moreover have "(\<forall>n. 0 \<le> n \<and> n < 230 \<longrightarrow> unat (d + 1) + nat n < 256) \<longleftrightarrow> unat (d + 1) \<le> 26"
    by (auto dest: spec [of _ 229])
  moreover have "unat (d + 1) \<le> 26 \<longleftrightarrow> d \<le> 25 \<or> d = 255"
    using suc by (auto simp: word_le_nat_alt)
  ultimately show ?thesis by (simp add: range sip)
qed

lemma pool_addresses_witness:
  "take 3 (IPAdd plain_lib [192, 168, 42, 2] 229) = [192, 168, 42]"
  using pool_addresses [OF lib_ok_plain demo_NewHandler]
  by (simp add: demo_handler_def be_val_def)

text \<open>
  Loading leases: if the leases belong to different clients and each has a number of the pool
  and the address of that number, \<open>SetLeases\<close> replaces the table by exactly these leases (the last
  one of a number wins) and establishes the invariant, whatever the table was before.
\<close>

lemma SetLeases_loads:
  assumes "length (start h) = 4" "int (be_val (start h)) + leaseRange h \<le> 2 ^ 32"
    and "distinct (map (\<lambda>p. HardwareAddr (deref h p)) ls)"
    and "\<forall>p \<in> set ls. p < length (heap h) \<and> 0 \<le> Num (deref h p) \<and> Num (deref h p) < leaseRange h \<and>
      length (Addr (deref h p)) = 4 \<and> IPRange lib (start h) (Addr (deref h p)) = Num (deref h p) + 1"
  shows "pool_inv lib (SetLeases h ls) \<and>
    (\<forall>n. lease_at (SetLeases h ls) n = map_option (deref h) (find (\<lambda>p. Num (deref h p) = n) (rev ls)))"
proof -
  let ?h = "h\<lparr>leasesHW := [], leasesIP := []\<rparr>"
  have "db_inv ?h" by (simp add: db_inv_def)
  moreover have none: "lease_at ?h n = None" for n by (simp add: lease_at_def)
  ultimately have "db_inv (SetLeases_loop ?h ls) \<and> heap (SetLeases_loop ?h ls) = heap ?h \<and>
      start (SetLeases_loop ?h ls) = start ?h \<and> leaseRange (SetLeases_loop ?h ls) = leaseRange ?h \<and>
      (\<forall>n l. lease_at (SetLeases_loop ?h ls) n = Some l \<longrightarrow>
         lease_at ?h n = Some l \<or> (\<exists>p \<in> set ls. deref ?h p = l \<and> Num l = n))"
    by (intro SetLeases_loop_inv) (use assms(3,4) in simp_all)
  then have "pool_inv lib (SetLeases h ls)"
    using assms(1,2,4) none by (fastforce simp: pool_inv_def SetLeases_def)
  moreover have "lease_at (SetLeases h ls) n = map_option (deref h) (find (\<lambda>p. Num (deref h p) = n) (rev ls))"
    for n
    using SetLeases_loop_at [of ?h ls n] none by (simp add: SetLeases_def split: option.split)
  ultimately show ?thesis by blast
qed

lemma SetLeases_loads_witness:
  "lease_at (SetLeases (demo_server\<lparr>leasesIP := [], leasesHW := []\<rparr>) [0]) 3 = Some demo_lease"
  using SetLeases_loads [of "demo_server\<lparr>leasesIP := [], leasesHW := []\<rparr>" "[0]" plain_lib]
  by (simp add: demo_server_eq) (simp add: demo_handler_def demo_lease_def plain_lib_def be_val_def)



end
