(* ===== verification/NetText.thy ===== *)
theory NetText
  imports GoLib
begin

text \<open>
  Text forms of numbers and addresses in the Go standard library: \<open>strconv\<close>, \<open>net.IP.String\<close>,
  \<open>net.ParseIP\<close>, \<open>net.ParseCIDR\<close>, \<open>net.IPMask.Size\<close>, \<open>net.SplitHostPort\<close>, \<open>net.ParseMAC\<close>, with the round trips of
  the dotted-quad form and of hardware addresses.
\<close>

section \<open>Characters and decimal numbers\<close>

definition is_digit :: "char \<Rightarrow> bool" where
  "is_digit c \<longleftrightarrow> 48 \<le> (of_char c :: nat) \<and> (of_char c :: nat) \<le> 57"

definition digit_char :: "nat \<Rightarrow> char" where
  "digit_char n = char_of (48 + n)"

definition digit_val :: "char \<Rightarrow> nat" where
  "digit_val c = of_char c - 48"

lemma is_digit_char: "n < 10 \<Longrightarrow> is_digit (digit_char n)"
  by (simp add: is_digit_def digit_char_def of_char_of)

lemma digit_val_char: "n < 10 \<Longrightarrow> digit_val (digit_char n) = n"
  by (simp add: digit_val_def digit_char_def of_char_of)

lemma not_digit [simp]: "\<not> is_digit CHR ''.''" "\<not> is_digit CHR '':''" "\<not> is_digit CHR ''/''"
    "\<not> is_digit CHR ''-''"
  by (simp_all add: is_digit_def)

text \<open>\<open>strconv.Itoa\<close> (also the verb \<open>%d\<close>) of a natural number.\<close>

fun itoa :: "nat \<Rightarrow> string" where
  "itoa n = (if n < 10 then [digit_char n] else itoa (n div 10) @ [digit_char (n mod 10)])"

declare itoa.simps [simp del]

definition dec_val :: "string \<Rightarrow> nat" where
  "dec_val s = foldl (\<lambda>n c. 10 * n + digit_val c) 0 s"

lemma itoa_digits: "list_all is_digit (itoa n)"
  by (induction n rule: itoa.induct) (simp add: itoa.simps is_digit_char)

lemma itoa_not_Nil [simp]: "itoa n \<noteq> []"
  by (simp add: itoa.simps)

lemma dec_val_itoa [simp]: "dec_val (itoa n) = n"
proof (induction n rule: itoa.induct)
  case (1 n)
  then show ?case by (auto simp: itoa.simps [of n] dec_val_def digit_val_char)
qed

lemma itoa_inj [simp]: "itoa m = itoa n \<longleftrightarrow> m = n"
  by (metis dec_val_itoa)

lemma hd_itoa_zero: "hd (itoa n) = CHR ''0'' \<longleftrightarrow> n = 0"
proof (induction n rule: itoa.induct)
  case (1 n)
  have "digit_char n = CHR ''0'' \<longleftrightarrow> n = 0" if "n < 10"
    using that by (simp add: digit_char_def char_of_eq_iff take_bit_eq_mod)
  then show ?case using 1 by (auto simp: itoa.simps [of n])
qed

section \<open>Splitting\<close>

text \<open>\<open>strings.Split(s, sep)\<close> for a separator of one character.\<close>

fun split_on :: "char \<Rightarrow> string \<Rightarrow> string list" where
  "split_on c [] = [[]]"
| "split_on c (x # xs) =
     (if x = c then [] # split_on c xs
      else case split_on c xs of [] \<Rightarrow> [[x]] | p # ps \<Rightarrow> (x # p) # ps)"

lemma split_on_not_Nil [simp]: "split_on c s \<noteq> []"
  by (cases s) (auto split: list.split)

lemma split_on_single: "c \<notin> set s \<Longrightarrow> split_on c s = [s]"
  by (induction s) auto

lemma split_on_append: "c \<notin> set s \<Longrightarrow> split_on c (s @ c # t) = s # split_on c t"
  by (induction s) auto

lemma digits_no_sep: "list_all is_digit s \<Longrightarrow> \<not> is_digit c \<Longrightarrow> c \<notin> set s"
  by (auto simp: list_all_iff)

text \<open>\<open>strings.HasPrefix\<close>, \<open>strings.TrimPrefix\<close>\<close>

definition has_prefix :: "string \<Rightarrow> string \<Rightarrow> bool" where
  "has_prefix s p \<longleftrightarrow> take (length p) s = p"

definition trim_prefix :: "string \<Rightarrow> string \<Rightarrow> string" where
  "trim_prefix s p = (if has_prefix s p then drop (length p) s else s)"

section \<open>Addresses to text\<close>

definition IP4_String :: "bytes \<Rightarrow> string" where
  "IP4_String p = itoa (unat (p ! 0)) @ ''.'' @ itoa (unat (p ! 1)) @ ''.'' @
     itoa (unat (p ! 2)) @ ''.'' @ itoa (unat (p ! 3))"

text \<open>\<open>appendHex\<close>: hexadecimal without leading zeros.\<close>

definition append_hex :: "nat \<Rightarrow> string" where
  "append_hex n =
     (if n = 0 then ''0''
      else dropWhile (\<lambda>c. c = CHR ''0'')
             [hexDigit (n div 4096 mod 16), hexDigit (n div 256 mod 16), hexDigit (n div 16 mod 16), hexDigit (n mod 16)])"

definition groups :: "bytes \<Rightarrow> nat list" where
  "groups p = map (\<lambda>i. 256 * unat (p ! (2 * i)) + unat (p ! (2 * i + 1))) [0..<8]"

text \<open>The longest run of zero groups, the first of the longest; a run of one group does not count.\<close>

function zero_run :: "nat list \<Rightarrow> nat \<Rightarrow> nat \<times> nat \<Rightarrow> nat \<times> nat" where
  "zero_run gs i best =
     (if i \<ge> length gs then best
      else let j = i + length (takeWhile (\<lambda>g. g = 0) (drop i gs)) in
        if j > i \<and> j - i > snd best - fst best then zero_run gs (j + 1) (i, j)
        else zero_run gs (i + 1) best)"
  by pat_completeness auto
termination
  by (relation "measure (\<lambda>(gs, i, best). length gs - i)") auto

fun show_groups :: "nat list \<Rightarrow> nat \<Rightarrow> string" where
  "show_groups [] i = []"
| "show_groups (g # gs) i = (if i > 0 then '':'' else []) @ append_hex g @ show_groups gs (i + 1)"

definition IP_String :: "bytes \<Rightarrow> string" where
  "IP_String ip =
     (if ip = [] then ''<nil>''
      else if To4 ip \<noteq> [] then IP4_String (To4 ip)
      else if length ip \<noteq> 16 then ''?'' @ concat (map hex2 ip)
      else
        let gs = groups ip; (e0, e1) = zero_run gs 0 (0, 0) in
        if e1 - e0 \<le> 1 then show_groups gs 0
        else show_groups (take e0 gs) 0 @ ''::'' @ show_groups (drop e1 gs) 0)"

section \<open>Text to addresses\<close>

text \<open>\<open>dtoi\<close>: the leading decimal number, its length and whether there is one below 0xFFFFFF.\<close>

fun dtoi_loop :: "nat \<Rightarrow> nat \<Rightarrow> string \<Rightarrow> (nat \<times> nat \<times> bool)" where
  "dtoi_loop n i [] = (n, i, 0 < i)"
| "dtoi_loop n i (c # cs) =
     (if is_digit c then
        let n' = 10 * n + digit_val c in
        if n' \<ge> 0xFFFFFF then (0xFFFFFF, i, False) else dtoi_loop n' (i + 1) cs
      else (n, i, 0 < i))"

abbreviation dtoi :: "string \<Rightarrow> nat \<times> nat \<times> bool" where
  "dtoi s \<equiv> dtoi_loop 0 0 s"

fun xtoi_loop :: "nat \<Rightarrow> nat \<Rightarrow> string \<Rightarrow> (nat \<times> nat \<times> bool)" where
  "xtoi_loop n i [] = (n, i, 0 < i)"
| "xtoi_loop n i (c # cs) =
     (case fromHex c of
        Some d \<Rightarrow> let n' = 16 * n + d in
                  if n' \<ge> 0xFFFFFF then (0, i, False) else xtoi_loop n' (i + 1) cs
      | None \<Rightarrow> (n, i, 0 < i))"

fun parse_quad :: "nat \<Rightarrow> string \<Rightarrow> bytes option" where
  "parse_quad k s =
     (case k of
        0 \<Rightarrow> if s = [] then Some [] else None
      | Suc k' \<Rightarrow>
          if s = [] then None
          else if k < 4 \<and> hd s \<noteq> CHR ''.'' then None
          else
            let s = (if k < 4 then tl s else s); (n, c, ok) = dtoi s in
            if \<not> ok \<or> n > 0xFF then None
            else if c > 1 \<and> hd s = CHR ''0'' then None
            else map_option (\<lambda>bs. of_nat n # bs) (parse_quad k' (drop c s)))"

declare parse_quad.simps [simp del]

definition parseIPv4 :: "string \<Rightarrow> bytes option" where
  "parseIPv4 s = map_option (\<lambda>bs. v4InV6Prefix @ bs) (parse_quad 4 s)"

text \<open>
  \<open>parseIPv6\<close>: the loop over groups; \<open>ip\<close> are the bytes so far, \<open>el\<close> the place of the ellipsis.
  The result is the bytes, the ellipsis and the rest of the text.
\<close>

function parse6_loop :: "bytes \<Rightarrow> nat option \<Rightarrow> string \<Rightarrow> (bytes \<times> nat option \<times> string) option" where
  "parse6_loop ip el s =
     (if length ip \<ge> 16 then Some (ip, el, s)
      else
        let (n, c, ok) = xtoi_loop 0 0 s; rest = drop c s; ip' = ip @ [of_nat (n div 256), of_nat n] in
        if \<not> ok \<or> n > 0xFFFF then None
        else if rest \<noteq> [] \<and> hd rest = CHR ''.'' then
          if el = None \<and> length ip \<noteq> 12 then None
          else if length ip + 4 > 16 then None
          else map_option (\<lambda>q. (ip @ drop 12 q, el, [])) (parseIPv4 s)
        else if rest = [] then Some (ip', el, [])
        else if hd rest \<noteq> CHR '':'' \<or> length rest = 1 then None
        else if hd (tl rest) = CHR '':'' then
          if el \<noteq> None then None
          else if drop 2 rest = [] then Some (ip', Some (length ip'), [])
          else parse6_loop ip' (Some (length ip')) (drop 2 rest)
        else parse6_loop ip' el (tl rest))"
  by pat_completeness auto
termination
  by (relation "measure (\<lambda>(ip, el, s). 16 - length ip)") auto

definition parseIPv6 :: "string \<Rightarrow> bytes option" where
  "parseIPv6 s =
     (let lead = take 2 s = ''::''; s' = (if lead then drop 2 s else s) in
      if lead \<and> s' = [] then Some (replicate 16 0)
      else case parse6_loop [] (if lead then Some 0 else None) s' of
        None \<Rightarrow> None
      | Some (ip, el, rest) \<Rightarrow>
          if rest \<noteq> [] then None
          else if length ip < 16 then
            (case el of None \<Rightarrow> None
             | Some e \<Rightarrow> Some (take e ip @ replicate (16 - length ip) 0 @ drop e ip))
          else if el \<noteq> None then None
          else Some ip)"

text \<open>\<open>net.ParseIP\<close>, nil as \<open>[]\<close>: the first dot or colon decides.\<close>

definition ParseIP :: "string \<Rightarrow> bytes" where
  "ParseIP s =
     (case dropWhile (\<lambda>c. c \<noteq> CHR ''.'' \<and> c \<noteq> CHR '':'') s of
        [] \<Rightarrow> []
      | c # _ \<Rightarrow>
          (case (if c = CHR ''.'' then parseIPv4 s else parseIPv6 s) of None \<Rightarrow> [] | Some ip \<Rightarrow> ip))"

text \<open>\<open>net.ParseCIDR\<close>: the address and the length of its prefix.\<close>

definition ParseCIDR :: "string \<Rightarrow> (bytes \<times> nat) result" where
  "ParseCIDR s =
     (let addr = takeWhile (\<lambda>c. c \<noteq> CHR ''/'') s; m = dropWhile (\<lambda>c. c \<noteq> CHR ''/'') s in
      if m = [] then Inl (Err ''invalid CIDR address'')
      else
        let mask = tl m; (n, i, ok) = dtoi mask;
            (ip, bits) = (case parseIPv4 addr of Some a \<Rightarrow> (Some a, 32) | None \<Rightarrow> (parseIPv6 addr, 128))
        in case ip of
             None \<Rightarrow> Inl (Err ''invalid CIDR address'')
           | Some a \<Rightarrow>
               if \<not> ok \<or> i \<noteq> length mask \<or> n > bits then Inl (Err ''invalid CIDR address'')
               else Inr (a, n))"

text \<open>\<open>net.SplitHostPort\<close>: the host; \<open>net.JoinHostPort\<close> is its inverse.\<close>

definition JoinHostPort :: "string \<Rightarrow> string \<Rightarrow> string" where
  "JoinHostPort host port =
     (if CHR '':'' \<in> set host then ''['' @ host @ '']:'' @ port else host @ '':'' @ port)"

definition SplitHostPort :: "string \<Rightarrow> (string \<times> string) result" where
  "SplitHostPort hp =
     (if CHR '':'' \<notin> set hp then Inl (Err ''missing port in address'')
      else
        let port = rev (takeWhile (\<lambda>c. c \<noteq> CHR '':'') (rev hp)); i = length hp - length port - 1 in
        if hd hp = CHR ''['' then
          (if CHR '']'' \<notin> set hp then Inl (Err ''missing ']' in address'')
           else
             let end = length (takeWhile (\<lambda>c. c \<noteq> CHR '']'') hp) in
             if end + 1 = length hp then Inl (Err ''missing port in address'')
             else if end + 1 \<noteq> i then
               (if hp ! (end + 1) = CHR '':'' then Inl (Err ''too many colons in address'')
                else Inl (Err ''missing port in address''))
             else if CHR ''['' \<in> set (drop 1 hp) then Inl (Err ''unexpected '[' in address'')
             else if CHR '']'' \<in> set (drop (end + 1) hp) then Inl (Err ''unexpected ']' in address'')
             else Inr (take (end - 1) (drop 1 hp), port))
        else if CHR '':'' \<in> set (take i hp) then Inl (Err ''too many colons in address'')
        else if CHR ''['' \<in> set hp then Inl (Err ''unexpected '[' in address'')
        else if CHR '']'' \<in> set hp then Inl (Err ''unexpected ']' in address'')
        else Inr (take i hp, port))"

section \<open>Round trips\<close>

lemma dtoi_loop_digits:
  assumes "list_all is_digit s" "foldl (\<lambda>n c. 10 * n + digit_val c) n s < 0xFFFFFF"
    and "t = [] \<or> \<not> is_digit (hd t)" "0 < i \<or> s \<noteq> []"
  shows "dtoi_loop n i (s @ t) = (foldl (\<lambda>n c. 10 * n + digit_val c) n s, i + length s, True)"
  using assms
proof (induction s arbitrary: n i)
  case Nil
  then show ?case by (cases t) auto
next
  case (Cons c cs)
  have mono: "m \<le> foldl (\<lambda>n c. 10 * n + digit_val c) m cs" for m
  proof (induction cs arbitrary: m)
    case (Cons a cs)
    have "m \<le> 10 * m + digit_val a" by simp
    also have "\<dots> \<le> foldl (\<lambda>n c. 10 * n + digit_val c) (10 * m + digit_val a) cs" by (rule Cons.IH)
    finally show ?case by simp
  qed simp
  have "10 * n + digit_val c < 0xFFFFFF"
    using Cons.prems(2) mono [of "10 * n + digit_val c"] by simp
  then show ?case using Cons by simp
qed

lemma dtoi_itoa:
  "n < 0xFFFFFF \<Longrightarrow> t = [] \<or> \<not> is_digit (hd t) \<Longrightarrow> dtoi (itoa n @ t) = (n, length (itoa n), True)"
  using dtoi_loop_digits [of "itoa n" 0 t 0] dec_val_itoa [of n] itoa_digits [of n]
  by (simp add: dec_val_def)

lemma itoa_long: "1 < length (itoa n) \<Longrightarrow> hd (itoa n) \<noteq> CHR ''0''"
  by (metis hd_itoa_zero itoa.simps length_Cons list.size(3) One_nat_def less_irrefl zero_less_numeral)

lemma parse_quad_step:
  assumes "k < 4" "t = [] \<or> \<not> is_digit (hd t)"
  shows "parse_quad (Suc k) ((if Suc k < 4 then ''.'' else []) @ itoa (unat (b :: byte)) @ t) =
    map_option (\<lambda>bs. b # bs) (parse_quad k t)"
proof -
  have n: "unat b < 0xFFFFFF" "\<not> unat b > 0xFF" using unat_byte_less [of b] by simp_all
  have "\<not> (Suc 0 < length (itoa (unat b)) \<and> hd (itoa (unat b)) = CHR ''0'')"
    using itoa_long [of "unat b"] by auto
  then show ?thesis
    using assms dtoi_itoa [OF n(1), of t] n(2)
    by (auto simp add: parse_quad.simps [of "Suc k"] Let_def)
qed

lemma parse_quad_String:
  "parse_quad 4 (IP4_String [a, b, c, d]) = Some [a, b, c, d]"
proof -
  have nd: "\<not> is_digit (hd (''.'' @ x))" for x by simp
  have "parse_quad 4 (itoa (unat a) @ ''.'' @ itoa (unat b) @ ''.'' @ itoa (unat c) @ ''.'' @ itoa (unat d) @ []) =
      Some [a, b, c, d]"
    using parse_quad_step [of 3 "''.'' @ itoa (unat b) @ ''.'' @ itoa (unat c) @ ''.'' @ itoa (unat d) @ []" a]
      parse_quad_step [of 2 "''.'' @ itoa (unat c) @ ''.'' @ itoa (unat d) @ []" b]
      parse_quad_step [of 1 "''.'' @ itoa (unat d) @ []" c] parse_quad_step [of 0 "[]" d]
    by (simp add: parse_quad.simps [of 0] numeral_eq_Suc)
  then show ?thesis by (simp add: IP4_String_def)
qed

lemma ParseIP_String:
  assumes "length ip = 4"
  shows "ParseIP (IP4_String ip) = v4InV6Prefix @ ip"
proof -
  obtain a b c d where ip: "ip = [a, b, c, d]" using assms by (auto simp: length_4_iff)
  have "\<forall>x \<in> set (itoa (unat a)). x \<noteq> CHR ''.'' \<and> x \<noteq> CHR '':''"
    using itoa_digits [of "unat a"] by (auto simp: list_all_iff)
  then have "dropWhile (\<lambda>c. c \<noteq> CHR ''.'' \<and> c \<noteq> CHR '':'') (IP4_String ip) =
      ''.'' @ itoa (unat b) @ ''.'' @ itoa (unat c) @ ''.'' @ itoa (unat d)"
    by (simp add: IP4_String_def ip dropWhile_append2)
  then show ?thesis
    by (simp add: ParseIP_def parseIPv4_def ip parse_quad_String)
qed

lemma IP4_String_inj:
  "length a = 4 \<Longrightarrow> length b = 4 \<Longrightarrow> IP4_String a = IP4_String b \<Longrightarrow> a = b"
  by (metis ParseIP_String append_same_eq same_append_eq)

lemma IP4_String_chars: "length ip = 4 \<Longrightarrow> x \<in> set (IP4_String ip) \<Longrightarrow> is_digit x \<or> x = CHR ''.''"
  using itoa_digits by (auto simp: IP4_String_def list_all_iff)

lemma ParseCIDR_String:
  assumes "length ip = 4" "n \<le> 32"
  shows "ParseCIDR (IP4_String ip @ ''/'' @ itoa n) = Inr (v4InV6Prefix @ ip, n)"
proof -
  obtain a b c d where ip: "ip = [a, b, c, d]" using assms by (auto simp: length_4_iff)
  have "x \<noteq> CHR ''/''" if "x \<in> set (IP4_String ip)" for x
    using IP4_String_chars [OF assms(1) that] by auto
  then have "takeWhile (\<lambda>c. c \<noteq> CHR ''/'') (IP4_String ip @ ''/'' @ itoa n) = IP4_String ip"
    "dropWhile (\<lambda>c. c \<noteq> CHR ''/'') (IP4_String ip @ ''/'' @ itoa n) = ''/'' @ itoa n"
    by (simp_all add: takeWhile_append2 dropWhile_append2)
  then show ?thesis
    using assms(2) dtoi_itoa [of n "[]"]
    by (simp add: ParseCIDR_def parseIPv4_def ip parse_quad_String)
qed

lemma SplitHostPort_v4:
  assumes "length ip = 4" "list_all is_digit port"
  shows "SplitHostPort (JoinHostPort (IP4_String ip) port) = Inr (IP4_String ip, port)"
proof -
  let ?h = "IP4_String ip"
  have c: "CHR '':'' \<notin> set ?h" "CHR ''['' \<notin> set ?h" "CHR '']'' \<notin> set ?h"
    using IP4_String_chars [OF assms(1)] by (auto simp: is_digit_def dest!: IP4_String_chars [OF assms(1)])
  have p: "x \<noteq> CHR '':'' \<and> x \<noteq> CHR ''['' \<and> x \<noteq> CHR '']''" if "x \<in> set port" for x
    using assms(2) that by (auto simp: list_all_iff is_digit_def)
  have "takeWhile (\<lambda>c. c \<noteq> CHR '':'') (rev port @ CHR '':'' # rev ?h) = rev port"
    by (subst takeWhile_append2) (use p in auto)
  moreover have "?h \<noteq> []" by (simp add: IP4_String_def)
  moreover have "hd ?h \<noteq> CHR ''[''" using c(2) \<open>?h \<noteq> []\<close> by (metis list.set_sel(1))
  ultimately show ?thesis
    using c p by (auto simp: SplitHostPort_def JoinHostPort_def)
qed

section \<open>Hardware addresses\<close>

text \<open>\<open>net.ParseMAC\<close>: two hexadecimal digits between colons or dashes, or four between dots.\<close>

fun mac_pairs :: "char \<Rightarrow> string \<Rightarrow> bytes option" where
  "mac_pairs sep (a # b # r) =
     (case (fromHex a, fromHex b) of
        (Some x, Some y) \<Rightarrow>
          (case r of
             [] \<Rightarrow> Some [of_nat (16 * x + y)]
           | c # r' \<Rightarrow> if c = sep then map_option (\<lambda>bs. of_nat (16 * x + y) # bs) (mac_pairs sep r') else None)
      | _ \<Rightarrow> None)"
| "mac_pairs sep s = None"

fun mac_quads :: "string \<Rightarrow> bytes option" where
  "mac_quads (a # b # c # d # r) =
     (case (fromHex a, fromHex b, fromHex c, fromHex d) of
        (Some w, Some x, Some y, Some z) \<Rightarrow>
          (case r of
             [] \<Rightarrow> Some [of_nat (16 * w + x), of_nat (16 * y + z)]
           | e # r' \<Rightarrow>
               if e = CHR ''.''
               then map_option (\<lambda>bs. of_nat (16 * w + x) # of_nat (16 * y + z) # bs) (mac_quads r') else None)
      | _ \<Rightarrow> None)"
| "mac_quads s = None"

definition ParseMAC :: "string \<Rightarrow> bytes result" where
  "ParseMAC s =
     (case (if length s < 14 then None
            else if s ! 2 \<in> {CHR '':'', CHR ''-''} then mac_pairs (s ! 2) s
            else if s ! 4 = CHR ''.'' then mac_quads s
            else None) of
        Some hw \<Rightarrow> if length hw \<in> {6, 8, 20} then Inr hw else Inl (Err ''invalid MAC address'')
      | None \<Rightarrow> Inl (Err ''invalid MAC address''))"

text \<open>What \<open>HardwareAddr.String\<close> prints is read back, for the lengths that Go accepts.\<close>

lemma mac_pairs_hex2:
  "mac_pairs CHR '':'' (hex2 b @ r) =
     (case r of [] \<Rightarrow> Some [b]
      | c # r' \<Rightarrow> if c = CHR '':'' then map_option (\<lambda>bs. b # bs) (mac_pairs CHR '':'' r') else None)"
proof -
  have "16 * (unat b div 16) + unat b mod 16 = unat b" by simp
  then have "of_nat (16 * (unat b div 16) + unat b mod 16) = b" by (metis of_nat_unat ucast_id)
  then show ?thesis
    by (simp add: hex2_def fromHex_hexDigit byte_div16 del: of_nat_add of_nat_mult split: list.split)
qed

lemma mac_pairs_string: "bs \<noteq> [] \<Longrightarrow> mac_pairs CHR '':'' (mac_string bs) = Some bs"
proof (induction bs rule: mac_string.induct)
  case (2 b)
  show ?case using mac_pairs_hex2 [of b "[]"] by simp
qed (simp_all add: mac_pairs_hex2)

lemma ParseMAC_mac_string: "length hw \<in> {6, 8, 20} \<Longrightarrow> ParseMAC (mac_string hw) = Inr hw"
proof -
  assume hw: "length hw \<in> {6, 8, 20}"
  then obtain b c bs where b: "hw = b # c # bs" by (cases hw rule: mac_string.cases) auto
  then have "mac_string hw ! 2 = CHR '':''" by (simp add: hex2_def)
  moreover have "14 \<le> length (mac_string hw)" using length_mac_string [of hw] hw b by fastforce
  ultimately show ?thesis using mac_pairs_string [of hw] hw b by (auto simp: ParseMAC_def)
qed

end
