(* ===== verification/Oui.thy ===== *)
theory Oui
  imports NetText
begin

text \<open>
  \<open>util/oui/oui.go\<close>: the vendor database behind the status page. The parsed CSV records, the HTTP
  exchange and the file operations are inputs (\<open>oui_io\<close>); the state of the database, every path
  through \<open>update\<close> and the decoding of the records are the code's.
\<close>

section \<open>State\<close>

record DB =
  ouiURL :: string
  loaded :: bool
  err :: "fault option"
  orgs :: "(string, string) gomap"

text \<open>An option is a function on the new database; \<open>NewDB\<close> applies them to the defaults, in order.\<close>

type_synonym oui_option = "DB \<Rightarrow> DB"

definition ouiURL_option :: "string \<Rightarrow> oui_option" where
  "ouiURL_option u = (\<lambda>d. d\<lparr>ouiURL := u\<rparr>)"

definition NewDB :: "oui_option list \<Rightarrow> DB" where
  "NewDB opts =
     fold (\<lambda>opt d. opt d) opts
       \<lparr>ouiURL = ''http://standards-oui.ieee.org/oui/oui.csv'', loaded = False, err = None, orgs = []\<rparr>"

lemma NewDB_URL: "NewDB [ouiURL_option u] = \<lparr>ouiURL = u, loaded = False, err = None, orgs = []\<rparr>"
  by (simp add: NewDB_def ouiURL_option_def)

definition Lookup :: "DB \<Rightarrow> string \<Rightarrow> string" where
  "Lookup d assignment = (case map_of (orgs d) assignment of None \<Rightarrow> '''' | Some org \<Rightarrow> org)"

text \<open>\<open>None\<close> while the call blocks.\<close>

definition WaitUntilLoaded :: "DB \<Rightarrow> fault option option" where
  "WaitUntilLoaded d = (if loaded d then Some (err d) else None)"

definition setErr :: "DB \<Rightarrow> fault option \<Rightarrow> DB" where
  "setErr d e = d\<lparr>loaded := True, err := e\<rparr>"

section \<open>Loading records\<close>

text \<open>\<open>hex.Decode(dst, src)\<close> with a slice that may be too short: writing past its end panics.\<close>

fun hex_Decode :: "bytes \<Rightarrow> nat \<Rightarrow> string \<Rightarrow> (bytes \<times> nat) result" where
  "hex_Decode dst i [] = Inr (dst, i)"
| "hex_Decode dst i [a] =
     (case fromHex a of
        None \<Rightarrow> Inl (Err ''encoding/hex: invalid byte'')
      | Some _ \<Rightarrow> Inl (Err ''encoding/hex: odd length hex string''))"
| "hex_Decode dst i (a # b # s) =
     (case (fromHex a, fromHex b) of
        (Some x, Some y) \<Rightarrow>
          if i < length dst then hex_Decode (dst[i := of_nat (16 * x + y)]) (i + 1) s
          else Inl (Panic ''index out of range'')
      | _ \<Rightarrow> Inl (Err ''encoding/hex: invalid byte''))"

fun load_loop :: "bytes \<Rightarrow> (string, string) gomap \<Rightarrow> string list list \<Rightarrow> (string, string) gomap result" where
  "load_loop buf os [] = Inr os"
| "load_loop buf os (record # records) =
     (if length record \<le> 2 then Inl (Panic ''index out of range'')
      else
        let assignment = record ! 1; org = record ! 2 in
        bindR (hex_Decode buf 0 assignment) (\<lambda>(buf, n).
          if n \<noteq> 3 then Inl (Err ''decode assignment: unexpected number of bytes'')
          else load_loop buf (AList.update (mac_string buf) org os) records))"

definition load :: "DB \<Rightarrow> string list list result \<Rightarrow> DB result" where
  "load d csv =
     bindR csv (\<lambda>records.
       if records = [] then Inl (Panic ''slice bounds out of range'')
       else bindR (load_loop (replicate 3 0) [] (tl records)) (\<lambda>os.
              Inr (d\<lparr>orgs := os, loaded := True\<rparr>)))"

section \<open>Updating\<close>

record response =
  status :: nat
  body :: "unit result"

record oui_io =
  io_request :: "unit result"
  io_cache :: "string list list result option"
  io_mtime :: "time option"
  io_http :: "time option \<Rightarrow> response result"
  io_mkdir :: "unit result"
  io_tempfile :: "unit result"
  io_replace :: "unit result"
  io_reopen :: "string list list result result"

text \<open>
  An error ends \<open>update\<close> with \<open>setErr\<close>, a panic ends the process. \<open>cached\<close> is the state after the
  load of the cached file, if there is one, with the If-Modified-Since header of the request.
\<close>

definition attempt :: "DB \<Rightarrow> 'a result \<Rightarrow> ('a \<Rightarrow> DB result) \<Rightarrow> DB result" where
  "attempt d m k =
     (case m of
        Inl (Panic x) \<Rightarrow> Inl (Panic x)
      | Inl (Err x) \<Rightarrow> Inr (setErr d (Some (Err x)))
      | Inr x \<Rightarrow> k x)"

definition cached :: "DB \<Rightarrow> oui_io \<Rightarrow> (DB \<times> time option) result" where
  "cached d io =
     (case io_cache io of
        None \<Rightarrow> Inr (d, None)
      | Some csv \<Rightarrow>
          (case load d csv of
             Inl (Panic x) \<Rightarrow> Inl (Panic x)
           | Inl (Err x) \<Rightarrow> Inr (d, None)
           | Inr d' \<Rightarrow> Inr (d', io_mtime io)))"

definition update :: "DB \<Rightarrow> oui_io \<Rightarrow> DB result" where
  "update d io =
     attempt d (io_request io) (\<lambda>_.
     bindR (cached d io) (\<lambda>(d1, since).
     attempt d1 (io_http io since) (\<lambda>resp.
       if status resp = 304 then Inr (setErr d1 None)
       else if status resp \<noteq> 200 then Inr (setErr d1 (Some (Err ''unexpected HTTP status'')))
       else
         attempt d1 (io_mkdir io) (\<lambda>_.
         attempt d1 (io_tempfile io) (\<lambda>_.
         attempt d1 (body resp) (\<lambda>_.
         attempt d1 (io_replace io) (\<lambda>_.
         attempt d1 (io_reopen io) (\<lambda>csv.
         attempt d1 (load d1 csv) (\<lambda>d2.
           Inr (setErr d2 None))))))))))"

section \<open>Decoding\<close>

lemma hex_Decode_eq:
  "i \<le> length dst \<Longrightarrow> hex_Decode dst i s = Inr (r, n) \<longleftrightarrow>
     (\<exists>bs. hex_decode s = Inr bs \<and> n = i + length bs \<and> n \<le> length dst \<and>
        r = take i dst @ bs @ drop n dst)"
proof (induction dst i s arbitrary: r n rule: hex_Decode.induct)
  case (3 dst i a b s)
  show ?case
  proof (cases "fromHex a = None \<or> fromHex b = None \<or> length dst \<le> i")
    case True
    then show ?thesis using 3(2) by (auto simp: bindR_eq_Inr split: option.splits)
  next
    case False
    then obtain x y where xy: "fromHex a = Some x" "fromHex b = Some y" and i: "i < length dst" by auto
    define dst' where "dst' = dst[i := of_nat (16 * x + y)]"
    have split: "take (i + 1) dst' = take i dst @ [of_nat (16 * x + y)]" "drop m dst' = drop m dst"
      if "i < m" for m
      using i that by (simp_all add: dst'_def take_Suc_conv_app_nth)
    have "hex_Decode dst' (i + 1) s = Inr (r, n) \<longleftrightarrow>
        (\<exists>bs. hex_decode s = Inr bs \<and> n = i + 1 + length bs \<and> n \<le> length dst' \<and>
           r = take (i + 1) dst' @ bs @ drop n dst')"
      using 3(1) [OF refl xy i] i by (simp add: dst'_def)
    also have "\<dots> \<longleftrightarrow> (\<exists>bs. hex_decode s = Inr bs \<and> n = i + 1 + length bs \<and> n \<le> length dst \<and>
           r = take i dst @ (of_nat (16 * x + y) # bs) @ drop n dst)"
      using split [OF less_add_one] split(2) by (simp add: dst'_def) fastforce
    also have "\<dots> \<longleftrightarrow> (\<exists>bs. hex_decode (a # b # s) = Inr bs \<and> n = i + length bs \<and> n \<le> length dst \<and>
           r = take i dst @ bs @ drop n dst)"
      using xy by (auto simp: bindR_eq_Inr)
    finally show ?thesis using xy i by (simp add: dst'_def)
  qed
qed (auto split: option.splits)

lemma hex_Decode_3:
  "length buf = 3 \<Longrightarrow> hex_Decode buf 0 s = Inr (r, 3) \<longleftrightarrow> hex_decode s = Inr r \<and> length r = 3"
  by (auto simp: hex_Decode_eq)

lemma take_mac_string: "3 \<le> length mac \<Longrightarrow> take 8 (mac_string mac) = mac_string (take 3 mac)"
proof -
  assume "3 \<le> length mac"
  then have "Suc (Suc (Suc 0)) \<le> length mac" by simp
  then obtain a b c r where "mac = a # b # c # r"
    unfolding Suc_le_length_iff by blast
  then show ?thesis by (cases r) (simp_all add: hex2_def)
qed

text \<open>The map that the loop builds: the last record of an assignment wins.\<close>

definition assigned :: "bytes \<Rightarrow> string list \<Rightarrow> bool" where
  "assigned pre record \<longleftrightarrow> hex_decode (record ! 1) = Inr pre"

lemma load_loop_lookup:
  assumes "load_loop buf os records = Inr os'" "length buf = 3" "length pre = 3"
  shows "map_of os' (mac_string pre) =
    (case find (assigned pre) (rev records) of Some r \<Rightarrow> Some (r ! 2) | None \<Rightarrow> map_of os (mac_string pre))"
  using assms
proof (induction records arbitrary: buf os)
  case (Cons r rs)
  then obtain buf' where buf': "hex_Decode buf 0 (r ! 1) = Inr (buf', 3)"
    and rest: "load_loop buf' (AList.update (mac_string buf') (r ! 2) os) rs = Inr os'"
    by (auto simp: bindR_eq_Inr Let_def split: if_splits)
  then have dec: "hex_decode (r ! 1) = Inr buf'" "length buf' = 3"
    using hex_Decode_3 [OF Cons.prems(2)] by blast+
  show ?case
    using Cons.IH [OF rest dec(2) Cons.prems(3)] dec(1)
    by (auto simp: find_append assigned_def mac_string_inj split: option.split)
qed simp

section \<open>Properties\<close>

text \<open>
  C37. Once a database is loaded, looking up the first eight characters of a formatted hardware
  address, as the status page does, yields the organisation of the last record whose assignment
  decodes to the first three bytes of the address, and the empty string if there is none.
\<close>

theorem vendor_of_mac:
  assumes "load d (Inr (heading # records)) = Inr d'" "3 \<le> length mac"
  shows "Lookup d' (take 8 (mac_string mac)) =
    (case find (assigned (take 3 mac)) (rev records) of None \<Rightarrow> '''' | Some r \<Rightarrow> r ! 2)"
proof -
  have "load_loop (replicate 3 0) [] records = Inr (orgs d')"
    using assms(1) by (auto simp: load_def bindR_eq_Inr)
  then have "map_of (orgs d') (mac_string (take 3 mac)) =
      (case find (assigned (take 3 mac)) (rev records) of Some r \<Rightarrow> Some (r ! 2) | None \<Rightarrow> None)"
    using load_loop_lookup [of "replicate 3 0" "[]" records "orgs d'" "take 3 mac"] assms(2)
    by (simp split: option.splits)
  then show ?thesis
    using assms(2) by (simp add: Lookup_def take_mac_string split: option.split)
qed

lemma demo_load:
  "load (NewDB [ouiURL_option '''']) (Inr [[''Registry'', ''Assignment'', ''Organization Name''],
      [''MA-L'', ''F09FC2'', ''Ubiquiti Networks Inc.'']]) =
   Inr \<lparr>ouiURL = '''', loaded = True, err = None, orgs = [(mac_string [0xf0, 0x9f, 0xc2], ''Ubiquiti Networks Inc.'')]\<rparr>"
  by (simp add: load_def NewDB_URL Let_def fromHex_def numeral_eq_Suc del: mac_string.simps)

lemma vendor_of_mac_witness:
  "Lookup \<lparr>ouiURL = '''', loaded = True, err = None, orgs = [(mac_string [0xf0, 0x9f, 0xc2], ''Ubiquiti Networks Inc.'')]\<rparr>
     (take 8 (mac_string [0xf0, 0x9f, 0xc2, 1, 2, 3])) = ''Ubiquiti Networks Inc.''"
  using vendor_of_mac [OF demo_load, of "[0xf0, 0x9f, 0xc2, 1, 2, 3]"]
  by (simp add: assigned_def fromHex_def del: mac_string.simps)

text \<open>
  An update that does not panic leaves the database loaded, so that waiters go on, and reports
  what failed; a failed update keeps the organisations of the cached file (or the old ones if
  there is no readable cache), and the request asks for changes only if the cache was loaded.
\<close>

lemma update_outcome:
  assumes "update d io = Inr d'" "io_request io = Inr ()" "cached d io = Inr (d1, since)"
  shows "WaitUntilLoaded d' = Some (err d') \<and>
    (err d' \<noteq> None \<longrightarrow> orgs d' = orgs d1) \<and>
    (err d' = None \<longrightarrow> orgs d' = orgs d1 \<or>
       (\<exists>csv d2. io_reopen io = Inr csv \<and> load d1 csv = Inr d2 \<and> orgs d' = orgs d2)) \<and>
    (since \<noteq> None \<longrightarrow> (\<exists>csv. io_cache io = Some csv \<and> load d csv = Inr d1)) \<and>
    (orgs d1 = orgs d \<or> (\<exists>csv. io_cache io = Some csv \<and> load d csv = Inr d1))"
proof -
  have "WaitUntilLoaded d' = Some (err d') \<and> (err d' \<noteq> None \<longrightarrow> orgs d' = orgs d1) \<and>
    (err d' = None \<longrightarrow> orgs d' = orgs d1 \<or>
       (\<exists>csv d2. io_reopen io = Inr csv \<and> load d1 csv = Inr d2 \<and> orgs d' = orgs d2))"
    using assms
    by (auto simp: update_def attempt_def setErr_def WaitUntilLoaded_def
        split: sum.splits fault.splits if_splits)
  moreover have "(since \<noteq> None \<longrightarrow> (\<exists>csv. io_cache io = Some csv \<and> load d csv = Inr d1)) \<and>
    (orgs d1 = orgs d \<or> (\<exists>csv. io_cache io = Some csv \<and> load d csv = Inr d1))"
    using assms(3) by (auto simp: cached_def split: option.splits sum.splits fault.splits)
  ultimately show ?thesis by blast
qed

definition demo_io :: oui_io where
  "demo_io =
     \<lparr>io_request = Inr (), io_cache = Some (Inr [[''Registry'', ''Assignment'', ''Organization Name''],
      [''MA-L'', ''F09FC2'', ''Ubiquiti Networks Inc.'']]), io_mtime = Some 5,
      io_http = (\<lambda>_. Inr \<lparr>status = 200, body = Inr ()\<rparr>), io_mkdir = Inr (), io_tempfile = Inr (),
      io_replace = Inl (Err ''disk full''), io_reopen = Inl (Err ''not reached'')\<rparr>"

lemma update_outcome_witness:
  "\<exists>d'. update (NewDB [ouiURL_option '''']) demo_io = Inr d' \<and> err d' = Some (Err ''disk full'') \<and>
     Lookup d' (mac_string [0xf0, 0x9f, 0xc2]) = ''Ubiquiti Networks Inc.''"
proof -
  have cache: "\<exists>d1. cached (NewDB [ouiURL_option '''']) demo_io = Inr (d1, Some 5) \<and>
      orgs d1 = [(mac_string [0xf0, 0x9f, 0xc2], ''Ubiquiti Networks Inc.'')]"
    by (simp add: cached_def demo_io_def demo_load del: mac_string.simps)
  then obtain d1 where d1: "cached (NewDB [ouiURL_option '''']) demo_io = Inr (d1, Some 5)"
    "orgs d1 = [(mac_string [0xf0, 0x9f, 0xc2], ''Ubiquiti Networks Inc.'')]" by blast
  then obtain d' where d': "update (NewDB [ouiURL_option '''']) demo_io = Inr d'" "err d' = Some (Err ''disk full'')"
    by (simp add: update_def attempt_def setErr_def demo_io_def)
  have "orgs d' = orgs d1"
    using update_outcome [OF d'(1) _ d1(1)] d'(2) by (simp add: demo_io_def)
  then show ?thesis using d' d1(2) by (simp add: Lookup_def)
qed

end
