(* ===== verification/Networking.thy ===== *)
theory Networking
  imports NetText
begin

text \<open>
  \<open>networking/netinfo.go\<close>: which addresses of the router are private, and the private and public
  addresses of its active interfaces. The kernel's answer (\<open>net.Interfaces\<close>, \<open>Interface.Addrs\<close>)
  is an input: names, flags and the text form of each address, or an error at any of the calls.
\<close>

unbundle bit_operations_syntax

section \<open>Address classes of net.IP\<close>

definition IsPrivate :: "bytes \<Rightarrow> bool" where
  "IsPrivate ip =
     (let ip4 = To4 ip in
      if ip4 \<noteq> [] then
        ip4 ! 0 = 10 \<or> (ip4 ! 0 = 172 \<and> ip4 ! 1 AND 0xf0 = 16) \<or> (ip4 ! 0 = 192 \<and> ip4 ! 1 = 168)
      else length ip = 16 \<and> ip ! 0 AND 0xfe = 0xfc)"

definition IsLoopback :: "bytes \<Rightarrow> bool" where
  "IsLoopback ip =
     (let ip4 = To4 ip in
      if ip4 \<noteq> [] then ip4 ! 0 = 127 else IP_Equal ip (replicate 15 0 @ [1]))"

definition IsLinkLocalUnicast :: "bytes \<Rightarrow> bool" where
  "IsLinkLocalUnicast ip =
     (let ip4 = To4 ip in
      if ip4 \<noteq> [] then ip4 ! 0 = 169 \<and> ip4 ! 1 = 254
      else length ip = 16 \<and> ip ! 0 = 0xfe \<and> ip ! 1 AND 0xc0 = 0x80)"

definition IsMulticast :: "bytes \<Rightarrow> bool" where
  "IsMulticast ip =
     (let ip4 = To4 ip in
      if ip4 \<noteq> [] then ip4 ! 0 AND 0xf0 = 0xe0
      else length ip = 16 \<and> ip ! 0 = 0xff)"

section \<open>netinfo.go\<close>

definition isPrivate :: "string \<Rightarrow> bytes \<Rightarrow> bool" where
  "isPrivate iface ip =
     (if has_prefix iface ''uplink'' then False
      else IsPrivate ip \<or> IsLoopback ip \<or> IsLinkLocalUnicast ip \<or> IsMulticast ip)"

definition IsInPrivateNet :: "bytes \<Rightarrow> bool" where
  "IsInPrivateNet ip = isPrivate '''' ip"

record NetIface =
  if_name :: string
  if_up :: bool
  if_addrs :: "string list result"

definition host_string :: "string \<Rightarrow> bytes \<Rightarrow> string" where
  "host_string name ipaddr =
     (let host = IP_String ipaddr in
      if IsLinkLocalUnicast ipaddr then host @ ''%'' @ name else host)"

fun addrs_loop :: "(string \<Rightarrow> bytes \<Rightarrow> bool) \<Rightarrow> string \<Rightarrow> string list \<Rightarrow> string list \<Rightarrow> string list result" where
  "addrs_loop keep name [] hosts = Inr hosts"
| "addrs_loop keep name (a # as) hosts =
     bindR (ParseCIDR a) (\<lambda>(ipaddr, _).
       if \<not> keep name ipaddr then addrs_loop keep name as hosts
       else addrs_loop keep name as (hosts @ [host_string name ipaddr]))"

fun ifaces_loop :: "(string \<Rightarrow> bytes \<Rightarrow> bool) \<Rightarrow> NetIface list \<Rightarrow> string list \<Rightarrow> string list result" where
  "ifaces_loop keep [] hosts = Inr hosts"
| "ifaces_loop keep (i # is) hosts =
     (if \<not> if_up i then ifaces_loop keep is hosts
      else bindR (if_addrs i) (\<lambda>addrs.
             bindR (addrs_loop keep (if_name i) addrs hosts) (\<lambda>hosts.
               ifaces_loop keep is hosts)))"

definition interfaceAddrs :: "NetIface list result \<Rightarrow> (string \<Rightarrow> bytes \<Rightarrow> bool) \<Rightarrow> string list result" where
  "interfaceAddrs interfaces keep = bindR interfaces (\<lambda>ifaces. ifaces_loop keep ifaces [])"

definition PrivateInterfaceAddrs :: "NetIface list result \<Rightarrow> string list result" where
  "PrivateInterfaceAddrs interfaces = interfaceAddrs interfaces isPrivate"

definition PublicInterfaceAddrs :: "NetIface list result \<Rightarrow> string list result" where
  "PublicInterfaceAddrs interfaces = interfaceAddrs interfaces (\<lambda>iface addr. \<not> isPrivate iface addr)"

section \<open>The address ranges\<close>

lemma nibble_eq: "b AND 0xf0 = (n :: byte) \<longleftrightarrow> unat b div 16 = unat n div 16 \<and> unat n mod 16 = 0"
proof -
  have "0xf0 = NOT (mask 4 :: byte)" by (simp add: mask_eq_exp_minus_1)
  moreover have "b AND NOT (mask 4) = push_bit 4 (drop_bit 4 b)"
    by (rule bit_eqI) (auto simp: bit_simps)
  ultimately have "b AND 0xf0 = push_bit 4 (drop_bit 4 b)" by simp
  then have "unat (b AND 0xf0) = unat b div 16 * 16 mod 256"
    using unat_byte_less [of b]
    by (simp only: unsigned_push_bit_eq unsigned_drop_bit_eq)
      (simp add: push_bit_eq_mult drop_bit_eq_div take_bit_eq_mod)
  also have "\<dots> = 16 * (unat b div 16)"
    using unat_byte_less [of b] by (simp add: mult.commute)
  finally have "unat (b AND 0xf0) = 16 * (unat b div 16)" .
  moreover have "x = y \<longleftrightarrow> unat x = unat y" for x y :: byte by (simp add: word_unat_eq_iff)
  ultimately show ?thesis by (metis div_mult_mod_eq mult.commute add_0_right nonzero_mult_div_cancel_left
        mod_mult_self1_is_0 zero_neq_numeral)
qed

lemma lead_bytes:
  assumes "length ip = 4"
  shows "be_val ip div 16777216 = unat (ip ! 0)" "be_val ip div 65536 = 256 * unat (ip ! 0) + unat (ip ! 1)"
proof -
  obtain a b c d where ip: "ip = [a, b, c, d]" using assms by (auto simp: length_4_iff)
  have lt: "unat b < 256" "unat c < 256" "unat d < 256" by (rule unat_byte_less)+
  have "be_val ip = 16777216 * unat a + (65536 * unat b + 256 * unat c + unat d)"
    "be_val ip = 65536 * (256 * unat a + unat b) + (256 * unat c + unat d)"
    by (simp_all add: ip be_val_def)
  then show "be_val ip div 16777216 = unat (ip ! 0)"
    "be_val ip div 65536 = 256 * unat (ip ! 0) + unat (ip ! 1)"
    using lt by (simp_all add: ip)
qed

text \<open>
  The IPv4 networks behind \<open>IsInPrivateNet\<close>: 10/8, 172.16/12, 192.168/16 (RFC 1918), 127/8,
  169.254/16 and 224/4, read off the address as a number.
\<close>

definition private_range :: "nat \<Rightarrow> bool" where
  "private_range v \<longleftrightarrow>
     v div 2 ^ 24 = 10 \<or> v div 2 ^ 20 = 172 * 16 + 1 \<or> v div 2 ^ 16 = 192 * 256 + 168 \<or>
     v div 2 ^ 24 = 127 \<or> v div 2 ^ 16 = 169 * 256 + 254 \<or> v div 2 ^ 28 = 14"

lemma byte_eq_unat: "(b :: byte) = numeral k \<longleftrightarrow> unat b = unat (numeral k :: byte)"
  by (simp add: word_unat_eq_iff)

lemma private_range_bytes:
  assumes "length ip = 4"
  shows "private_range (be_val ip) \<longleftrightarrow> IsPrivate ip \<or> IsLoopback ip \<or> IsLinkLocalUnicast ip \<or> IsMulticast ip"
proof -
  have lt: "unat (ip ! 1) < 256" by (rule unat_byte_less)
  have d: "be_val ip div 1048576 = be_val ip div 65536 div 16" "be_val ip div 268435456 = be_val ip div 16777216 div 16"
    by (simp_all add: div_mult2_eq [symmetric])
  have ne: "ip \<noteq> []" using assms by auto
  have "(256 * unat (ip ! 0) + unat (ip ! 1)) div 16 = 16 * unat (ip ! 0) + unat (ip ! 1) div 16"
    by simp
  moreover have "16 * x + q = 2753 \<longleftrightarrow> x = 172 \<and> q = 1" if "q < 16" for x q :: nat
    using base_eq_iff [OF that, of 1 x 172] by simp
  note seg = this [OF byte_div16]
  have pair: "256 * x + y = 49320 \<longleftrightarrow> x = 192 \<and> y = 168" "256 * x + y = 43518 \<longleftrightarrow> x = 169 \<and> y = 254"
    if "y < 256" for x y :: nat
    using base_eq_iff [OF that, of 168 x 192] base_eq_iff [OF that, of 254 x 169] by simp_all
  note two = pair [OF lt]
  ultimately show ?thesis
    using lt assms ne
    by (simp add: private_range_def d lead_bytes seg two IsPrivate_def IsLoopback_def IsLinkLocalUnicast_def
        IsMulticast_def nibble_eq byte_eq_unat [of "ip ! 0"] byte_eq_unat [of "ip ! Suc 0"])
qed

section \<open>The loops\<close>

text \<open>What the loops collect from: the parsed addresses of the active interfaces, in order.\<close>

fun parse_all :: "string \<Rightarrow> string list \<Rightarrow> (string \<times> bytes) list result" where
  "parse_all name [] = Inr []"
| "parse_all name (a # as) =
     bindR (ParseCIDR a) (\<lambda>(ip, _). bindR (parse_all name as) (\<lambda>r. Inr ((name, ip) # r)))"

fun active_addrs :: "NetIface list \<Rightarrow> (string \<times> bytes) list result" where
  "active_addrs [] = Inr []"
| "active_addrs (i # is) =
     (if if_up i then
        bindR (if_addrs i) (\<lambda>as. bindR (parse_all (if_name i) as) (\<lambda>xs.
          bindR (active_addrs is) (\<lambda>ys. Inr (xs @ ys))))
      else active_addrs is)"

definition hosts_of :: "(string \<Rightarrow> bytes \<Rightarrow> bool) \<Rightarrow> (string \<times> bytes) list \<Rightarrow> string list" where
  "hosts_of keep xs = map (\<lambda>(n, ip). host_string n ip) (filter (\<lambda>(n, ip). keep n ip) xs)"

lemma hosts_of_simps [simp]:
  "hosts_of keep [] = []" "hosts_of keep (xs @ ys) = hosts_of keep xs @ hosts_of keep ys"
  "hosts_of keep ((n, ip) # xs) = (if keep n ip then host_string n ip # hosts_of keep xs else hosts_of keep xs)"
  by (simp_all add: hosts_of_def)

lemma addrs_loop_eq:
  "addrs_loop keep name as hosts = bindR (parse_all name as) (\<lambda>xs. Inr (hosts @ hosts_of keep xs))"
proof (induction as arbitrary: hosts)
  case (Cons a as)
  show ?case
    by (cases "ParseCIDR a"; cases "parse_all name as") (auto simp: Cons.IH)
qed simp

lemma ifaces_loop_eq:
  "ifaces_loop keep is hosts = bindR (active_addrs is) (\<lambda>xs. Inr (hosts @ hosts_of keep xs))"
proof (induction "is" arbitrary: hosts)
  case (Cons i "is")
  show ?case
  proof (cases "if_addrs i")
    case (Inr as)
    then show ?thesis
      by (cases "parse_all (if_name i) as"; cases "active_addrs is") (auto simp: Cons.IH addrs_loop_eq)
  qed (simp add: Cons.IH)
qed simp

lemma interfaceAddrs_eq:
  "interfaceAddrs r keep = bindR (bindR r active_addrs) (\<lambda>xs. Inr (hosts_of keep xs))"
  by (cases r) (simp_all add: interfaceAddrs_def ifaces_loop_eq)

lemma hosts_of_split: "mset (hosts_of keep xs) + mset (hosts_of (\<lambda>i a. \<not> keep i a) xs) =
    mset (map (\<lambda>(n, ip). host_string n ip) xs)"
  by (induction xs) auto

section \<open>Properties\<close>

text \<open>
  The private and the public addresses fail together, with the same error, and otherwise split
  the addresses of the active interfaces between them; the private ones are private addresses of
  interfaces that are no uplink.
\<close>

lemma private_public_split:
  "case bindR r active_addrs of
     Inl e \<Rightarrow> PrivateInterfaceAddrs r = Inl e \<and> PublicInterfaceAddrs r = Inl e
   | Inr xs \<Rightarrow> (\<exists>ps qs. PrivateInterfaceAddrs r = Inr ps \<and> PublicInterfaceAddrs r = Inr qs \<and>
       mset ps + mset qs = mset (map (\<lambda>(n, ip). host_string n ip) xs) \<and>
       (\<forall>h \<in> set ps. \<exists>n ip. (n, ip) \<in> set xs \<and> h = host_string n ip \<and>
          \<not> has_prefix n ''uplink'' \<and> IsInPrivateNet ip))"
  using hosts_of_split [of isPrivate]
  by (auto simp: PrivateInterfaceAddrs_def PublicInterfaceAddrs_def interfaceAddrs_eq hosts_of_def
      isPrivate_def IsInPrivateNet_def has_prefix_def split: sum.split if_splits)

definition demo_ifaces :: "NetIface list" where
  "demo_ifaces =
     [\<lparr>if_name = ''uplink0'', if_up = True, if_addrs = Inr [IP4_String [10, 0, 0, 5] @ ''/'' @ itoa 8]\<rparr>,
      \<lparr>if_name = ''lan0'', if_up = True, if_addrs = Inr [IP4_String [192, 168, 42, 1] @ ''/'' @ itoa 24]\<rparr>]"

lemma demo_active:
  "bindR (Inr demo_ifaces) active_addrs =
     Inr [(''uplink0'', v4InV6Prefix @ [10, 0, 0, 5]), (''lan0'', v4InV6Prefix @ [192, 168, 42, 1])]"
  using ParseCIDR_String [of "[10, 0, 0, 5]" 8] ParseCIDR_String [of "[192, 168, 42, 1]" 24]
  by (simp add: demo_ifaces_def)

lemma private_public_split_witness:
  "\<exists>ps qs. PrivateInterfaceAddrs (Inr demo_ifaces) = Inr ps \<and> PublicInterfaceAddrs (Inr demo_ifaces) = Inr qs \<and>
     mset ps + mset qs = {#host_string ''uplink0'' (v4InV6Prefix @ [10, 0, 0, 5]),
       host_string ''lan0'' (v4InV6Prefix @ [192, 168, 42, 1])#}"
  using private_public_split [of "Inr demo_ifaces"] unfolding demo_active by auto

text \<open>
  \<open>IsInPrivateNet\<close> of an IPv4 address, in either of its representations, is membership in the
  networks of the RFCs: the bit tests of the code are the numeric ranges.
\<close>

lemma private_net_ranges:
  assumes "length ip = 4"
  shows "(IsInPrivateNet ip \<longleftrightarrow> private_range (be_val ip)) \<and>
    (IsInPrivateNet (v4InV6Prefix @ ip) \<longleftrightarrow> private_range (be_val ip))"
proof -
  have To4: "To4 (v4InV6Prefix @ ip) = ip" "To4 ip = ip" using assms by (simp_all add: To4_def)
  have ne: "ip \<noteq> []" using assms by auto
  have "IsInPrivateNet ip \<longleftrightarrow> private_range (be_val ip)"
    by (simp add: IsInPrivateNet_def isPrivate_def has_prefix_def private_range_bytes [OF assms])
  moreover have "IsInPrivateNet (v4InV6Prefix @ ip) \<longleftrightarrow> private_range (be_val ip)"
    using To4 ne
    by (simp add: IsInPrivateNet_def isPrivate_def has_prefix_def private_range_bytes [OF assms]
        IsPrivate_def IsLoopback_def IsLinkLocalUnicast_def IsMulticast_def)
  ultimately show ?thesis ..
qed

lemma private_net_ranges_witness:
  "IsInPrivateNet (v4InV6Prefix @ [172, 20, 0, 1]) \<longleftrightarrow> private_range 2886991873"
  using private_net_ranges [of "[172, 20, 0, 1]"] by (simp add: be_val_def)

end
