(* ===== verification/LeaseStatus.thy ===== *)
theory LeaseStatus
  imports Dhcp4dProps Oui Networking
begin

text \<open>
  \<open>cmd/dhcp4d\<close>: the daemon around the DHCPv4 handler. It keeps the last snapshot of the leases
  that the handler's callback delivered (pointers into the handler's heap), writes it to
  \<open>leases.json\<close> and answers HTTP requests about it. JSON encoding and the file write are inputs.
\<close>

section \<open>State\<close>

record Daemon =
  handler :: Handler
  leases :: "ptr list"
  leases_json :: "bytes option"
  nonExpiredLeases :: nat
  errors :: "fault list"

record daemon_io =
  json_Marshal :: "Lease list \<Rightarrow> bytes result"
  json_Indent :: "bytes \<Rightarrow> bytes result"
  io_WriteFile :: "unit result"
  io_now :: time

section \<open>The callback\<close>

definition updateNonExpired :: "time \<Rightarrow> Lease list \<Rightarrow> nat" where
  "updateNonExpired now ls = foldl (\<lambda>n l. if Expired l now then n else n + 1) 0 ls"

definition on_leases :: "daemon_io \<Rightarrow> Daemon \<Rightarrow> callback \<Rightarrow> Daemon" where
  "on_leases io d cb =
     (let (newLeases, latest) = cb; d = d\<lparr>leases := newLeases\<rparr>; ls = map (deref (handler d)) newLeases in
      case json_Marshal io ls of
        Inl e \<Rightarrow> d\<lparr>errors := errors d @ [e]\<rparr>
      | Inr b \<Rightarrow>
          let out = (case json_Indent io b of Inl _ \<Rightarrow> b | Inr ind \<Rightarrow> ind);
              d = (case io_WriteFile io of
                     Inl e \<Rightarrow> d\<lparr>errors := errors d @ [e]\<rparr> | Inr _ \<Rightarrow> d\<lparr>leases_json := Some out\<rparr>)
          in d\<lparr>nonExpiredLeases := updateNonExpired (io_now io) ls\<rparr>)"

definition serve_packet ::
    "dhcp4_lib \<Rightarrow> env \<Rightarrow> daemon_io \<Rightarrow> Daemon \<Rightarrow> packet \<Rightarrow> MessageType \<Rightarrow> Options \<Rightarrow> Daemon" where
  "serve_packet lib env io d p mt opts =
     (let (h', r, frames, cbs) = ServeDHCP lib env (handler d) p mt opts
      in foldl (on_leases io) (d\<lparr>handler := h'\<rparr>) cbs)"

section \<open>HTTP\<close>

record tmplLease =
  tl_lease :: Lease
  Vendor :: string
  tl_Expired :: bool
  Static :: bool

datatype http =
  HttpError nat string
| HttpRedirect string
| HttpLease bytes bool
| HttpHome "tmplLease list" "tmplLease list"

text \<open>\<open>/lease/<hostname>\<close>; the header X-Lease-Active says whether a third of the period has not passed.\<close>

definition handleLease :: "daemon_io \<Rightarrow> Daemon \<Rightarrow> string \<Rightarrow> http" where
  "handleLease io d path =
     (let hostname = trim_prefix path ''/lease/'' in
      if hostname = '''' then HttpError 400 ''syntax: /lease/<hostname>''
      else case find (\<lambda>p. Hostname (deref (handler d) p) = hostname) (leases d) of
        None \<Rightarrow> HttpError 404 ''no lease found''
      | Some p \<Rightarrow>
          let lease = deref (handler d) p in
          (case json_Marshal io [lease] of
             Inl _ \<Rightarrow> HttpError 500 ''json''
           | Inr b \<Rightarrow>
               HttpLease b (After (Expiry lease) (io_now io + LeasePeriod (handler d) * 2 div 3))))"

text \<open>\<open>tl\<close>: the row of a lease; slicing the hardware address panics if it is shorter than eight.\<close>

definition tl_row :: "daemon_io \<Rightarrow> DB \<Rightarrow> Lease \<Rightarrow> tmplLease result" where
  "tl_row io db l =
     (if length (HardwareAddr l) < 8 then Inl (Panic ''slice bounds out of range'')
      else Inr \<lparr>tl_lease = l, Vendor = Lookup db (take 8 (HardwareAddr l)),
                tl_Expired = Expired l (io_now io), Static = IsZero (Expiry l)\<rparr>)"

fun rows :: "daemon_io \<Rightarrow> DB \<Rightarrow> Lease list \<Rightarrow> tmplLease list \<Rightarrow> tmplLease list \<Rightarrow>
    (tmplLease list \<times> tmplLease list) result" where
  "rows io db [] static dynamic = Inr (static, dynamic)"
| "rows io db (l # ls) static dynamic =
     bindR (tl_row io db l) (\<lambda>t.
       if IsZero (Expiry l) then rows io db ls (static @ [t]) dynamic
       else rows io db ls static (dynamic @ [t]))"

definition client_ip :: "string \<Rightarrow> string \<Rightarrow> bytes" where
  "client_ip host xff =
     (let ip = ParseIP host in if IsLoopback ip \<and> xff \<noteq> '''' then ParseIP xff else ip)"

definition handleHome :: "daemon_io \<Rightarrow> DB \<Rightarrow> Daemon \<Rightarrow> string \<Rightarrow> string \<Rightarrow> http result" where
  "handleHome io db d remoteAddr xff =
     (case SplitHostPort remoteAddr of
        Inl _ \<Rightarrow> Inr (HttpError 400 ''bad request'')
      | Inr (host, port) \<Rightarrow>
          if \<not> IsInPrivateNet (client_ip host xff) then
            Inr (HttpError 403 (''access from '' @ IP_String (client_ip host xff) @ '' forbidden''))
          else
            bindR (rows io db (map (deref (handler d)) (leases d)) [] []) (\<lambda>(static, dynamic).
              Inr (HttpHome
                (sort_Slice (\<lambda>a b. Num (tl_lease a) < Num (tl_lease b)) static)
                (sort_Slice (\<lambda>a b. \<not> Before (Expiry (tl_lease a)) (Expiry (tl_lease b))) dynamic))))"

definition handleSetHostname ::
    "env \<Rightarrow> daemon_io \<Rightarrow> Daemon \<Rightarrow> string \<Rightarrow> string \<Rightarrow> string \<Rightarrow> (Daemon \<times> http) result" where
  "handleSetHostname env io d meth hwaddr hostname =
     (if meth \<noteq> ''POST'' then Inr (d, HttpError 405 ''want POST'')
      else if hwaddr = '''' then Inr (d, HttpError 400 ''missing hardwareaddr parameter'')
      else if hostname = '''' then Inr (d, HttpError 400 ''missing hostname parameter'')
      else case SetHostname env (handler d) hwaddr hostname of
        Inl (Panic x) \<Rightarrow> Inl (Panic x)
      | Inl (Err x) \<Rightarrow> Inr (d, HttpError 400 x)
      | Inr (h', cbs) \<Rightarrow>
          Inr (foldl (on_leases io) (d\<lparr>handler := h'\<rparr>) cbs, HttpRedirect ''/''))"

section \<open>Rows\<close>

lemma updateNonExpired_filter: "updateNonExpired now ls = length (filter (\<lambda>l. \<not> Expired l now) ls)"
proof -
  have "foldl (\<lambda>n l. if Expired l now then n else n + 1) k ls = k + length (filter (\<lambda>l. \<not> Expired l now) ls)" for k
    by (induction ls arbitrary: k) auto
  then show ?thesis by (simp add: updateNonExpired_def)
qed

definition row :: "daemon_io \<Rightarrow> DB \<Rightarrow> Lease \<Rightarrow> tmplLease" where
  "row io db l = \<lparr>tl_lease = l, Vendor = Lookup db (take 8 (HardwareAddr l)),
                  tl_Expired = Expired l (io_now io), Static = IsZero (Expiry l)\<rparr>"

lemma rows_eq:
  "rows io db ls s t =
     (if \<forall>l \<in> set ls. 8 \<le> length (HardwareAddr l)
      then Inr (s @ map (row io db) (filter (\<lambda>l. Expiry l = 0) ls), t @ map (row io db) (filter (\<lambda>l. Expiry l \<noteq> 0) ls))
      else Inl (Panic ''slice bounds out of range''))"
proof (induction ls arbitrary: s t)
  case (Cons l ls)
  then show ?case by (auto simp: tl_row_def row_def IsZero_def)
qed simp

lemma snapshot_of_table:
  assumes "db_inv h" "mset ps = mset (map snd (leasesIP h))"
  shows "set (map (deref h) ps) = {l. \<exists>n. lease_at h n = Some l}"
proof -
  have "set ps = snd ` set (leasesIP h)"
    using mset_eq_setD [OF assms(2)] by simp
  moreover have "(n, p) \<in> set (leasesIP h) \<longleftrightarrow> map_of (leasesIP h) n = Some p" for n p
    using db_inv_keys [OF assms(1)] by (simp add: map_of_eq_Some_iff)
  ultimately show ?thesis
    by (auto simp: lease_at_Some image_iff) (metis snd_conv)+
qed

lemma serve_packet_ack:
  assumes "db_inv (handler d)" "Leases_set (handler d)" "\<And>ps. mset (map_order env ps) = mset ps"
    and "canLease lib env (handler d) (requested_ip p opts) (client p) \<noteq> -1" "\<not> other_server (handler d) opts"
    and "h' = fst (serve_request lib env (handler d) p opts)"
  shows "\<exists>ps. mset ps = mset (map snd (leasesIP h')) \<and> db_inv h' \<and>
    serve_packet lib env io d p Request opts = on_leases io (d\<lparr>handler := h'\<rparr>) (ps, length (heap (handler d)))"
proof -
  let ?n = "canLease lib env (handler d) (requested_ip p opts) (client p)"
  let ?l = "granted env (handler d) ?n (requested_ip p opts) (client p) opts"
  have h': "h' = grant (handler d) ?n ?l"
    using assms(4,5,6) by (simp add: serve_request_cases Let_def)
  have "db_inv h'" unfolding h' by (rule db_inv_grant [OF assms(1)]) simp
  moreover have "serve_packet lib env io d p Request opts =
      on_leases io (d\<lparr>handler := h'\<rparr>) (map_order env (map snd (leasesIP h')), length (heap (handler d)))"
    using assms(2,4,5) h'
    by (simp add: serve_packet_def ServeDHCP_def serveDHCP_def serve_request_cases Let_def callLeasesLocked_def
        split_beta)
  ultimately show ?thesis using assms(3) by blast
qed

section \<open>Properties\<close>

text \<open>
  After every granted request the daemon's snapshot is exactly the lease table, whatever order
  the map iteration had, and, if the file can be written, the gauge counts the leases of the
  snapshot that have not expired and the file holds the encoded snapshot.
\<close>

theorem snapshot_after_grant:
  assumes "db_inv (handler d)" "Leases_set (handler d)" "\<And>ps. mset (map_order env ps) = mset ps"
    and "canLease lib env (handler d) (requested_ip p opts) (client p) \<noteq> -1" "\<not> other_server (handler d) opts"
    and "d' = serve_packet lib env io d p Request opts" "ls = map (deref (handler d')) (leases d')"
  shows "set ls = {l. \<exists>n. lease_at (handler d') n = Some l} \<and>
    (\<exists>l \<in> set ls. HardwareAddr l = client p) \<and>
    (\<forall>b. json_Marshal io ls = Inr b \<and> io_WriteFile io = Inr () \<longrightarrow>
       nonExpiredLeases d' = length (filter (\<lambda>l. \<not> Expired l (io_now io)) ls) \<and>
       leases_json d' = Some (case json_Indent io b of Inl _ \<Rightarrow> b | Inr ind \<Rightarrow> ind) \<and>
       errors d' = errors d)"
proof -
  define h' where "h' = fst (serve_request lib env (handler d) p opts)"
  obtain ps where ps: "mset ps = mset (map snd (leasesIP h'))" "db_inv h'"
    "d' = on_leases io (d\<lparr>handler := h'\<rparr>) (ps, length (heap (handler d)))"
    using serve_packet_ack [OF assms(1-5) h'_def] assms(6) by metis
  have d': "handler d' = h'" "leases d' = ps"
    by (auto simp: ps(3) on_leases_def Let_def split: sum.splits)
  have set_ls: "set ls = {l. \<exists>n. lease_at (handler d') n = Some l}"
    unfolding assms(7) d' by (rule snapshot_of_table [OF ps(2,1)])
  moreover have "\<exists>l \<in> set ls. HardwareAddr l = client p"
  proof -
    let ?n = "canLease lib env (handler d) (requested_ip p opts) (client p)"
    let ?l = "granted env (handler d) ?n (requested_ip p opts) (client p) opts"
    have "h' = grant (handler d) ?n ?l"
      using assms(4,5) by (simp add: h'_def serve_request_cases Let_def)
    then have "lease_at h' ?n = Some ?l" using db.give_owner [OF assms(1)] by simp
    then show ?thesis unfolding set_ls d' by (intro bexI [of _ ?l]) auto
  qed
  moreover have "nonExpiredLeases d' = length (filter (\<lambda>l. \<not> Expired l (io_now io)) ls) \<and>
      leases_json d' = Some (case json_Indent io b of Inl _ \<Rightarrow> b | Inr ind \<Rightarrow> ind) \<and> errors d' = errors d"
    if "json_Marshal io ls = Inr b \<and> io_WriteFile io = Inr ()" for b
    using that assms(7) d'
    by (simp add: ps(3) on_leases_def Let_def updateNonExpired_filter)
  ultimately show ?thesis by blast
qed

definition demo_daemon :: Daemon where
  "demo_daemon = \<lparr>handler = demo_handler\<lparr>Leases_set := True\<rparr>, leases = [], leases_json = None,
     nonExpiredLeases = 0, errors = []\<rparr>"

definition demo_dio :: daemon_io where
  "demo_dio = \<lparr>json_Marshal = (\<lambda>ls. Inr (map (of_nat \<circ> nat \<circ> Num) ls)), json_Indent = (\<lambda>b. Inr (9 # b)),
     io_WriteFile = Inr (), io_now = 100\<rparr>"

lemma snapshot_after_grant_example:
  "\<exists>d'. d' = serve_packet plain_lib demo_env demo_dio demo_daemon (demo_packet 5 1) Request [] \<and>
     set (map (deref (handler d')) (leases d')) = {l. \<exists>n. lease_at (handler d') n = Some l} \<and>
     leases_json d' \<noteq> None"
proof -
  have can: "canLease plain_lib demo_env (handler demo_daemon) (requested_ip (demo_packet 5 1) []) hw = 3" for hw
    by (simp add: canLease_lease_at lease_at_def demo_daemon_def demo_handler_def plain_lib_def be_val_def
        requested_ip_def demo_packet_def)
  have pre: "db_inv (handler demo_daemon)" "Leases_set (handler demo_daemon)"
      "mset (map_order demo_env ps) = mset ps" "\<not> other_server (handler demo_daemon) []"
      "json_Marshal demo_dio ls = Inr (map (of_nat \<circ> nat \<circ> Num) ls)" "io_WriteFile demo_dio = Inr ()" for ps ls
    by (simp_all add: demo_daemon_def demo_handler_def db_inv_def demo_env_def other_server_def demo_dio_def)
  show ?thesis
    using snapshot_after_grant [OF pre(1-3) _ pre(4) refl refl, of plain_lib "demo_packet 5 1" demo_dio]
    by (simp add: can pre)
qed

text \<open>
  C36. The status page: a request whose remote address is not loopback is served exactly if that
  address is private, whatever X-Forwarded-For says. The page lists every lease of the snapshot
  once, the permanent ones by number, the others from the latest expiry to the earliest; it
  panics exactly if some hardware address has fewer than eight characters.
\<close>

theorem home_page:
  assumes "SplitHostPort remoteAddr = Inr (host, port)" "\<not> IsLoopback (ParseIP host)"
    and "ls = map (deref (handler d)) (leases d)"
  shows "case handleHome io db d remoteAddr xff of
      Inl e \<Rightarrow> IsInPrivateNet (ParseIP host) \<and> (\<exists>l \<in> set ls. length (HardwareAddr l) < 8)
    | Inr (HttpHome static dynamic) \<Rightarrow> IsInPrivateNet (ParseIP host) \<and>
        mset (map tl_lease static) + mset (map tl_lease dynamic) = mset ls \<and>
        sorted (map (Num \<circ> tl_lease) static) \<and> (\<forall>t \<in> set static. Expiry (tl_lease t) = 0) \<and>
        sorted (rev (map (Expiry \<circ> tl_lease) dynamic)) \<and> (\<forall>t \<in> set dynamic. Expiry (tl_lease t) \<noteq> 0)
    | Inr other \<Rightarrow> other = HttpError 403 (''access from '' @ IP_String (ParseIP host) @ '' forbidden'') \<and> \<not> IsInPrivateNet (ParseIP host)"
proof -
  have ip: "client_ip host xff = ParseIP host" using assms(2) by (simp add: client_ip_def)
  have ls: "tl_lease \<circ> row io db = id" by (auto simp: row_def)
  have "image_mset (tl_lease \<circ> row io db) M = M" for M by (simp add: ls)
  then have m: "image_mset tl_lease (image_mset (row io db) {#l \<in># mset ls. Expiry l = 0#}) +
      image_mset tl_lease (image_mset (row io db) {#l \<in># mset ls. Expiry l \<noteq> 0#}) = mset ls"
    by (simp only: multiset.map_comp multiset_partition [symmetric])
  have perm: "mset (map tl_lease (sort_Slice c xs)) = mset (map tl_lease xs)"
    "set (sort_Slice c xs) = set xs" for c and xs :: "tmplLease list"
    by (metis mset_map mset_sort_Slice) (metis mset_eq_setD mset_sort_Slice)
  have num: "sorted (map (Num \<circ> tl_lease) (sort_Slice (\<lambda>a b. Num (tl_lease a) < Num (tl_lease b)) xs))"
    for xs :: "tmplLease list"
    by (rule sorted_sort_Slice) auto
  have "sorted (map (\<lambda>t. - Expiry (tl_lease t)) (sort_Slice (\<lambda>a b. \<not> Before (Expiry (tl_lease a)) (Expiry (tl_lease b))) xs))"
    for xs :: "tmplLease list"
    by (rule sorted_sort_Slice) (auto simp: Before_def)
  then have exp: "sorted (rev (map (Expiry \<circ> tl_lease) (sort_Slice (\<lambda>a b. \<not> Before (Expiry (tl_lease a)) (Expiry (tl_lease b))) xs)))"
    for xs :: "tmplLease list"
    by (simp add: sorted_wrt_rev sorted_wrt_map comp_def)
  show ?thesis
    using m assms(1)
    by (auto simp: handleHome_def ip rows_eq assms(3) [symmetric] perm num exp row_def not_le split: if_splits)
qed

lemma home_page_witness:
  "\<exists>static dynamic.
     handleHome demo_dio (NewDB []) (demo_daemon\<lparr>handler := demo_server, leases := [0]\<rparr>)
       (JoinHostPort (IP4_String [192, 168, 42, 7]) (itoa 80)) '''' = Inr (HttpHome static dynamic) \<and>
     mset (map tl_lease static) + mset (map tl_lease dynamic) = {#demo_lease#}"
proof -
  let ?d = "demo_daemon\<lparr>handler := demo_server, leases := [0]\<rparr>"
  have ip: "ParseIP (IP4_String [192, 168, 42, 7]) = v4InV6Prefix @ [192, 168, 42, 7]"
    by (simp add: ParseIP_String)
  have priv: "\<not> IsLoopback (v4InV6Prefix @ [192, 168, 42, 7])" "IsInPrivateNet (v4InV6Prefix @ [192, 168, 42, 7])"
    by (simp_all add: IsLoopback_def IsInPrivateNet_def isPrivate_def has_prefix_def IsPrivate_def To4_def)
  have ls: "map (deref (handler ?d)) (leases ?d) = [demo_lease]" by (simp add: demo_server_eq)
  have long: "\<not> length (HardwareAddr demo_lease) < 8" by (simp add: demo_lease_def length_mac_string del: mac_string.simps)
  have split: "SplitHostPort (JoinHostPort (IP4_String [192, 168, 42, 7]) (itoa 80)) = Inr (IP4_String [192, 168, 42, 7], itoa 80)"
    by (rule SplitHostPort_v4) (simp_all add: itoa_digits)
  show ?thesis
    using home_page [OF split _ refl, of ?d demo_dio "NewDB []" "''''", unfolded ip ls] priv long
    by (auto split: sum.splits http.splits)
qed

end
