(* ===== verification/Multilisten.thy ===== *)
theory Multilisten
  imports Networking
begin

text \<open>
  \<open>multilisten/multilisten.go\<close>: a pool of listeners, one per host, and the goroutines that serve
  them. A listener is a number (the order of creation); \<open>serving\<close> are the goroutines that have not
  returned yet. A goroutine may return at any time, and then deletes its host from the pool.
\<close>

section \<open>The pool\<close>

record Pool =
  listeners :: "(string, nat) gomap"
  serving :: "(string \<times> nat) list"
  closed :: "nat list"
  created :: nat

definition NewPool :: Pool where
  "NewPool = \<lparr>listeners = [], serving = [], closed = [], created = 0\<rparr>"

fun confirm_loop :: "Pool \<Rightarrow> string list \<Rightarrow> string list \<Rightarrow> Pool \<times> string list" where
  "confirm_loop p vanished [] = (p, vanished)"
| "confirm_loop p vanished (host # hosts) =
     (case map_of (listeners p) host of
        Some _ \<Rightarrow> confirm_loop p (filter (\<lambda>h. h \<noteq> host) vanished) hosts
      | None \<Rightarrow>
          let ln = created p in
          confirm_loop
            (p\<lparr>listeners := AList.update host ln (listeners p),
               serving := serving p @ [(host, ln)], created := created p + 1\<rparr>)
            vanished hosts)"

fun close_loop :: "Pool \<Rightarrow> string list \<Rightarrow> Pool" where
  "close_loop p [] = p"
| "close_loop p (host # hosts) =
     close_loop
       (p\<lparr>closed := (case map_of (listeners p) host of None \<Rightarrow> closed p | Some ln \<Rightarrow> closed p @ [ln]),
          listeners := AList.delete host (listeners p)\<rparr>) hosts"

definition ListenAndServe :: "Pool \<Rightarrow> string list \<Rightarrow> Pool" where
  "ListenAndServe p hosts =
     (let (p', vanished) = confirm_loop p (map fst (listeners p)) hosts in close_loop p' vanished)"

text \<open>The end of a goroutine: \<open>delete(p.listeners, host)\<close>, whichever listener is registered by then.\<close>

definition goroutine_ends :: "Pool \<Rightarrow> nat \<Rightarrow> Pool" where
  "goroutine_ends p i =
     (if i < length (serving p)
      then p\<lparr>listeners := AList.delete (fst (serving p ! i)) (listeners p),
             serving := take i (serving p) @ drop (i + 1) (serving p)\<rparr>
      else p)"

section \<open>Hosts to listen on\<close>

text \<open>\<open>IPv6Net1\<close>: the lease file as it was read and decoded; only the first prefix counts.\<close>

definition IPv6Net1 :: "bytes result \<Rightarrow> (bytes \<Rightarrow> bytes list result) \<Rightarrow> string result" where
  "IPv6Net1 readFile unmarshal =
     bindR readFile (\<lambda>b. bindR (unmarshal b) (\<lambda>prefixes.
       case prefixes of
         [] \<Rightarrow> Inl (Err ''no DHCPv6 prefix obtained'')
       | ip # _ \<Rightarrow>
           if ip = [] then Inl (Panic ''index out of range'')
           else Inr (IP_String (ip[length ip - 1 := 1]))))"

text \<open>
  The daemons listen on the private addresses, some also on the first address of the delegated
  prefix if it can be read. \<open>updateListeners\<close> is that of \<open>cmd/dhcp4d\<close>.
\<close>

definition listen_with_net1 :: "string result \<Rightarrow> Pool \<Rightarrow> string list \<Rightarrow> Pool result" where
  "listen_with_net1 net1 p hosts =
     (case net1 of
        Inl (Panic x) \<Rightarrow> Inl (Panic x)
      | Inl (Err _) \<Rightarrow> Inr (ListenAndServe p hosts)
      | Inr n \<Rightarrow> Inr (ListenAndServe p (hosts @ [n])))"

definition updateListeners :: "NetIface list result \<Rightarrow> string result \<Rightarrow> Pool \<Rightarrow> Pool result" where
  "updateListeners interfaces net1 p = bindR (PrivateInterfaceAddrs interfaces) (listen_with_net1 net1 p)"

section \<open>The invariant\<close>

text \<open>
  Every registered listener has a live goroutine of its own and is not closed.
\<close>

definition wf_pool :: "Pool \<Rightarrow> bool" where
  "wf_pool p \<longleftrightarrow> keys_distinct (listeners p) \<and> distinct (map snd (serving p)) \<and>
     (\<forall>i \<in> snd ` set (serving p) \<union> set (closed p). i < created p) \<and>
     (\<forall>h i. map_of (listeners p) h = Some i \<longrightarrow> (h, i) \<in> set (serving p) \<and> i \<notin> set (closed p))"

definition register :: "Pool \<Rightarrow> string \<Rightarrow> Pool" where
  "register p host =
     p\<lparr>listeners := AList.update host (created p) (listeners p),
       serving := serving p @ [(host, created p)], created := created p + 1\<rparr>"

definition unregister :: "Pool \<Rightarrow> string \<Rightarrow> Pool" where
  "unregister p host =
     p\<lparr>closed := (case map_of (listeners p) host of None \<Rightarrow> closed p | Some ln \<Rightarrow> closed p @ [ln]),
       listeners := AList.delete host (listeners p)\<rparr>"

lemma confirm_loop_Cons:
  "confirm_loop p v (h # hs) =
     (if map_of (listeners p) h = None then confirm_loop (register p h) v hs
      else confirm_loop p (filter (\<lambda>x. x \<noteq> h) v) hs)"
  by (auto simp: register_def Let_def split: option.split)

lemma close_loop_Cons: "close_loop p (h # hs) = close_loop (unregister p h) hs"
  by (simp add: unregister_def)

declare confirm_loop.simps(2) [simp del] close_loop.simps(2) [simp del]

lemma register_fields [simp]:
  "map_of (listeners (register p h)) = (map_of (listeners p))(h \<mapsto> created p)"
  "closed (register p h) = closed p"
  by (simp_all add: register_def)

lemma unregister_fields [simp]:
  "map_of (listeners (unregister p h)) = (map_of (listeners p))(h := None)"
  "serving (unregister p h) = serving p"
  by (simp_all add: unregister_def)

lemma snd_unique: "distinct (map snd xs) \<Longrightarrow> (a, i) \<in> set xs \<Longrightarrow> (b, i) \<in> set xs \<Longrightarrow> a = b"
  by (force simp: distinct_map inj_on_def)

lemma wf_register: "wf_pool p \<Longrightarrow> map_of (listeners p) h = None \<Longrightarrow> wf_pool (register p h)"
  by (auto simp: wf_pool_def register_def less_Suc_eq)

lemma wf_poolD:
  assumes "wf_pool p"
  shows "keys_distinct (listeners p)" "distinct (map snd (serving p))"
    "map_of (listeners p) h = Some i \<Longrightarrow> (h, i) \<in> set (serving p) \<and> i \<notin> set (closed p)"
    "(h, i) \<in> set (serving p) \<Longrightarrow> i < created p" "i \<in> set (closed p) \<Longrightarrow> i < created p"
  using assms unfolding wf_pool_def by (force)+

lemma wf_unregister: "wf_pool p \<Longrightarrow> wf_pool (unregister p h)"
proof -
  assume wf: "wf_pool p"
  have entry: "i \<notin> set (closed (unregister p h))"
    if "map_of (listeners p) h' = Some i" "h' \<noteq> h" for h' i
  proof (cases "map_of (listeners p) h")
    case (Some ln)
    then have "i \<noteq> ln"
      using snd_unique [OF wf_poolD(2) [OF wf]] wf_poolD(3) [OF wf] that by blast
    then show ?thesis using Some wf_poolD(3) [OF wf that(1)] by (simp add: unregister_def)
  qed (use wf_poolD(3) [OF wf that(1)] in \<open>simp add: unregister_def\<close>)
  have "i < created p" if "i \<in> set (closed (unregister p h))" for i
    using that wf_poolD(3,4,5) [OF wf] by (auto simp: unregister_def split: option.splits)
  moreover have "created (unregister p h) = created p" "keys_distinct (listeners (unregister p h))"
    using wf_poolD(1) [OF wf] by (simp_all add: unregister_def)
  ultimately show ?thesis
    using wf_poolD(2,3,4) [OF wf] entry unfolding wf_pool_def by auto
qed

lemma confirm_listeners:
  "dom (map_of (listeners (fst (confirm_loop p v hs)))) = dom (map_of (listeners p)) \<union> set hs"
  "map_of (listeners p) \<subseteq>\<^sub>m map_of (listeners (fst (confirm_loop p v hs)))"
proof (induction hs arbitrary: p v)
  case (Cons h hs)
  {
    case 1
    show ?case
      using Cons.IH(1) [of "register p h" v] Cons.IH(1) [of p "filter (\<lambda>x. x \<noteq> h) v"]
      by (auto simp: confirm_loop_Cons insert_absorb domIff)
  next
    case 2
    have "map_of (listeners p) \<subseteq>\<^sub>m map_of (listeners (register p h))" if "map_of (listeners p) h = None"
      using that by (auto simp: map_le_def)
    then show ?case
      using Cons.IH(2) [of "register p h" v] Cons.IH(2) [of p "filter (\<lambda>x. x \<noteq> h) v"]
      by (auto simp: confirm_loop_Cons simp del: register_fields intro: map_le_trans)
  }
qed simp_all

lemma confirm_closed: "closed (fst (confirm_loop p v hs)) = closed p"
  by (induction hs arbitrary: p v) (simp_all add: confirm_loop_Cons)

lemma confirm_wf: "wf_pool p \<Longrightarrow> wf_pool (fst (confirm_loop p v hs))"
  by (induction hs arbitrary: p v) (simp_all add: confirm_loop_Cons wf_register)

lemma confirm_vanished:
  "set v \<subseteq> dom (map_of (listeners p)) \<Longrightarrow> snd (confirm_loop p v hs) = filter (\<lambda>h. h \<notin> set hs) v"
proof (induction hs arbitrary: p v)
  case (Cons h hs)
  show ?case
  proof (cases "map_of (listeners p) h")
    case None
    then have "filter (\<lambda>x. x \<noteq> h \<and> x \<notin> set hs) v = filter (\<lambda>x. x \<notin> set hs) v"
      using Cons.prems by (intro filter_cong) auto
    moreover have "snd (confirm_loop (register p h) v hs) = filter (\<lambda>x. x \<notin> set hs) v"
      using Cons.prems by (intro Cons.IH) auto
    ultimately show ?thesis using None by (simp add: confirm_loop_Cons)
  next
    case (Some i)
    have "set (filter (\<lambda>x. x \<noteq> h) v) \<subseteq> dom (map_of (listeners p))" using Cons.prems by auto
    from Cons.IH [OF this] Some show ?thesis by (simp add: confirm_loop_Cons conj_commute)
  qed
qed simp

lemma confirm_loop_eq:
  assumes "set v \<subseteq> dom (map_of (listeners p))"
  shows "snd (confirm_loop p v hs) = filter (\<lambda>h. h \<notin> set hs) v"
    "dom (map_of (listeners (fst (confirm_loop p v hs)))) = dom (map_of (listeners p)) \<union> set hs"
    "map_of (listeners p) \<subseteq>\<^sub>m map_of (listeners (fst (confirm_loop p v hs)))"
    "closed (fst (confirm_loop p v hs)) = closed p"
    "wf_pool p \<Longrightarrow> wf_pool (fst (confirm_loop p v hs))"
  by (rule confirm_vanished [OF assms] confirm_listeners confirm_closed confirm_wf, assumption?)+

lemma close_loop_eq:
  "map_of (listeners (close_loop p hs)) = (\<lambda>h. if h \<in> set hs then None else map_of (listeners p) h)"
  "set (closed (close_loop p hs)) = set (closed p) \<union> {i. \<exists>h \<in> set hs. map_of (listeners p) h = Some i}"
  "wf_pool p \<Longrightarrow> wf_pool (close_loop p hs)"
proof -
  show "map_of (listeners (close_loop p hs)) = (\<lambda>h. if h \<in> set hs then None else map_of (listeners p) h)"
    by (induction hs arbitrary: p) (auto simp: close_loop_Cons fun_eq_iff)
  show "set (closed (close_loop p hs)) = set (closed p) \<union> {i. \<exists>h \<in> set hs. map_of (listeners p) h = Some i}"
  proof (induction hs arbitrary: p)
    case (Cons h hs)
    have "set (closed (unregister p h)) = set (closed p) \<union> {i. map_of (listeners p) h = Some i}"
      by (auto simp: unregister_def split: option.split)
    then show ?case by (auto simp: close_loop_Cons Cons.IH split: if_splits)
  qed simp
  show "wf_pool p \<Longrightarrow> wf_pool (close_loop p hs)"
    by (induction hs arbitrary: p) (simp_all add: close_loop_Cons wf_unregister)
qed

lemma wf_listen: "wf_pool p \<Longrightarrow> wf_pool (ListenAndServe p hosts)"
proof -
  assume "wf_pool p"
  moreover have "set (map fst (listeners p)) \<subseteq> dom (map_of (listeners p))" by (simp add: dom_map_of_conv_image_fst)
  ultimately show ?thesis
    using confirm_loop_eq(5) close_loop_eq(3) by (simp add: ListenAndServe_def split_beta)
qed

text \<open>What \<open>ListenAndServe\<close> appends to the lists of goroutines and of closed listeners.\<close>

lemma confirm_loop_serving:
  "\<exists>new. serving (fst (confirm_loop p v hs)) = serving p @ new \<and> created (fst (confirm_loop p v hs)) = created p + length new"
proof (induction hs arbitrary: p v)
  case (Cons h hs)
  show ?case
  proof (cases "map_of (listeners p) h")
    case None
    obtain new where "serving (fst (confirm_loop (register p h) v hs)) = serving (register p h) @ new"
      "created (fst (confirm_loop (register p h) v hs)) = created (register p h) + length new" using Cons.IH by blast
    then show ?thesis using None by (simp add: confirm_loop_Cons register_def)
  next
    case (Some i)
    then show ?thesis using Cons.IH by (simp add: confirm_loop_Cons)
  qed
qed simp

lemma close_loop_closed:
  "serving (close_loop p hs) = serving p \<and> created (close_loop p hs) = created p \<and>
   (\<exists>xs. closed (close_loop p hs) = closed p @ xs \<and> set xs = {i. \<exists>h \<in> set hs. map_of (listeners p) h = Some i})"
proof (induction hs arbitrary: p)
  case (Cons h hs)
  obtain xs where xs: "closed (close_loop (unregister p h) hs) = closed (unregister p h) @ xs"
    "set xs = {i. \<exists>h' \<in> set hs. map_of (listeners (unregister p h)) h' = Some i}" using Cons.IH by blast
  have "\<exists>ys. closed (unregister p h) = closed p @ ys \<and> set ys = {i. map_of (listeners p) h = Some i}"
    by (auto simp: unregister_def split: option.split)
  then obtain ys where ys: "closed (unregister p h) = closed p @ ys" "set ys = {i. map_of (listeners p) h = Some i}" by blast
  have "set (ys @ xs) = {i. \<exists>h' \<in> set (h # hs). map_of (listeners p) h' = Some i}"
    by (auto simp: xs(2) ys(2) split: if_splits)
  then show ?case
    using Cons.IH [of "unregister p h"] xs(1) ys(1)
    by (intro conjI exI [of _ "ys @ xs"]) (simp_all add: close_loop_Cons unregister_def)
qed simp

lemma listen_appends:
  obtains new xs where "serving (ListenAndServe p hosts) = serving p @ new"
    "created (ListenAndServe p hosts) = created p + length new"
    "closed (ListenAndServe p hosts) = closed p @ xs"
    "set xs = {i. \<exists>h. h \<notin> set hosts \<and> map_of (listeners p) h = Some i}"
proof -
  let ?v = "map fst (listeners p)" and ?q = "fst (confirm_loop p (map fst (listeners p)) hosts)"
  have dom: "set ?v = dom (map_of (listeners p))" by (simp add: dom_map_of_conv_image_fst)
  note cl = confirm_loop_eq [OF equalityD1 [OF dom]]
  have p': "ListenAndServe p hosts = close_loop ?q (filter (\<lambda>h. h \<notin> set hosts) ?v)"
    unfolding ListenAndServe_def by (simp add: split_beta cl(1))
  obtain new where new: "serving ?q = serving p @ new" "created ?q = created p + length new"
    using confirm_loop_serving by blast
  obtain xs where xs: "closed (ListenAndServe p hosts) = closed ?q @ xs"
    "set xs = {i. \<exists>h \<in> set (filter (\<lambda>h. h \<notin> set hosts) ?v). map_of (listeners ?q) h = Some i}"
    unfolding p' using close_loop_closed by blast
  have kept: "map_of (listeners ?q) h = map_of (listeners p) h" if "h \<in> dom (map_of (listeners p))" for h
    using cl(3) that by (auto simp: map_le_def dom_def)
  have "set xs = {i. \<exists>h. h \<notin> set hosts \<and> map_of (listeners p) h = Some i}"
    unfolding xs(2) using kept dom by (auto simp: dom_def) 
  then show ?thesis
    using that [of new xs] new xs(1) close_loop_closed unfolding p' by (simp add: cl(4))
qed

lemma listen_dom: "dom (map_of (listeners (ListenAndServe p hosts))) = set hosts"
proof -
  let ?v = "map fst (listeners p)" and ?q = "fst (confirm_loop p (map fst (listeners p)) hosts)"
  have dom: "set ?v = dom (map_of (listeners p))" by (simp add: dom_map_of_conv_image_fst)
  note cl = confirm_loop_eq [OF equalityD1 [OF dom]]
  have at: "map_of (listeners (ListenAndServe p hosts)) h =
      (if h \<in> set ?v \<and> h \<notin> set hosts then None else map_of (listeners ?q) h)" for h
    unfolding ListenAndServe_def by (simp add: split_beta cl(1) close_loop_eq(1))
  have "map_of (listeners ?q) h = None \<longleftrightarrow> h \<notin> set ?v \<and> h \<notin> set hosts" for h
    using cl(2) [of hosts] dom by (metis Un_iff domIff)
  then have "h \<in> dom (map_of (listeners (ListenAndServe p hosts))) \<longleftrightarrow> h \<in> set hosts" for h
    unfolding domIff at by (cases "h \<in> set hosts"; cases "h \<in> set ?v") (simp_all only: if_True if_False simp_thms)
  then show ?thesis by (rule set_eqI)
qed

lemma wf_ends: "wf_pool p \<Longrightarrow> wf_pool (goroutine_ends p i)"
proof -
  assume wf: "wf_pool p"
  show ?thesis
  proof (cases "i < length (serving p)")
    case True
    define x where "x = serving p ! i"
    have sp: "serving p = take i (serving p) @ x # drop (i + 1) (serving p)"
      using True by (simp add: x_def id_take_nth_drop [symmetric])
    have mem: "y \<in> set (serving p) \<longleftrightarrow> y = x \<or> y \<in> set (take i (serving p) @ drop (i + 1) (serving p))" for y
      by (subst sp) auto
    have "distinct (map snd (take i (serving p) @ drop (i + 1) (serving p)))"
      using wf unfolding wf_pool_def by (subst (asm) sp) auto
    moreover have "(h, j) \<in> set (take i (serving p) @ drop (i + 1) (serving p)) \<and> j \<notin> set (closed p)"
      if "map_of (AList.delete (fst x) (listeners p)) h = Some j" for h j
      using that wf_poolD(3) [OF wf, of h j] mem [of "(h, j)"] by (auto split: if_splits)
    moreover have "j < created p" if j: "j \<in> snd ` set (take i (serving p) @ drop (i + 1) (serving p))" for j
    proof -
      obtain y where y: "y \<in> set (take i (serving p) @ drop (i + 1) (serving p))" "j = snd y"
        using j by blast
      then have "(fst y, snd y) \<in> set (serving p)" unfolding prod.collapse mem by blast
      then show ?thesis unfolding y(2) by (rule wf_poolD(4) [OF wf])
    qed
    ultimately show ?thesis
      using wf_poolD(1,5) [OF wf] True unfolding wf_pool_def goroutine_ends_def x_def [symmetric] by auto
  qed (simp add: goroutine_ends_def wf)
qed

datatype pool_event = EvListen "string list" | EvEnds nat

definition pool_step :: "Pool \<Rightarrow> pool_event \<Rightarrow> Pool \<times> unit list" where
  "pool_step p ev = ((case ev of EvListen hosts \<Rightarrow> ListenAndServe p hosts | EvEnds i \<Rightarrow> goroutine_ends p i), [])"

interpretation pool: run_machine pool_step wf_pool
  by unfold_locales (simp add: pool_step_def wf_listen wf_ends split: pool_event.split)

section \<open>Properties\<close>


text \<open>
  A goroutine that ends late takes a newer listener of its host out of the pool: after a host
  vanished and came back, the end of the old goroutine leaves the new listener serving but
  unregistered, and the next update opens a second one beside it.
\<close>

theorem stale_goroutine_drops_listener:
  "\<exists>es p. p = fst (run pool_step NewPool es) \<and>
     (\<exists>i. (''192.168.42.1'', i) \<in> set (serving p) \<and> i \<notin> set (closed p) \<and>
        map_of (listeners p) ''192.168.42.1'' = None \<and>
        (\<exists>j. j \<noteq> i \<and> map_of (listeners (ListenAndServe p [''192.168.42.1''])) ''192.168.42.1'' = Some j \<and>
           (''192.168.42.1'', i) \<in> set (serving (ListenAndServe p [''192.168.42.1'']))))"
proof -
  let ?h = "''192.168.42.1''"
  let ?es = "[EvListen [?h], EvListen [], EvListen [?h], EvEnds 0]"
  have p: "fst (run pool_step NewPool ?es) = \<lparr>listeners = [], serving = [(?h, 1)], closed = [0], created = 2\<rparr>"
    by (simp add: pool_step_def NewPool_def ListenAndServe_def confirm_loop_Cons close_loop_Cons
        register_def unregister_def goroutine_ends_def)
  show ?thesis
    by (rule exI [of _ ?es], unfold p)
      (simp add: ListenAndServe_def confirm_loop_Cons register_def)
qed


end
