(* ===== verification/Dhcp4dDaemon.thy ===== *)
theory Dhcp4dDaemon
  imports LeaseStatus Multilisten
begin

text \<open>
  \<open>cmd/dhcp4d/dhcp4d.go\<close> as a whole: \<open>newSrv\<close> sets the daemon up, and from then on packets, HTTP
  requests and signals arrive in any order. The process ends with the first error sent to \<open>errs\<close>,
  which \<open>run\<close> returns, or with a panic outside the HTTP server (which recovers panics of its
  handlers).
\<close>

section \<open>Set-up\<close>

record srv_env =
  se_interfaces :: "NetIface list result"
  se_net1 :: "string result"
  se_mkdir :: "unit result"
  se_interfaceByName :: "bytes result"
  se_linkAddress :: "bytes result"
  se_listenPacket :: "unit result"
  se_listenUDP :: "unit result"

record Srv =
  sv_daemon :: Daemon
  sv_pool :: Pool
  sv_result :: "fault option"

definition newSrv :: "srv_env \<Rightarrow> Srv result" where
  "newSrv e =
     bindR (updateListeners (se_interfaces e) (se_net1 e) NewPool) (\<lambda>pool.
     bindR (se_mkdir e) (\<lambda>_.
     bindR (se_interfaceByName e) (\<lambda>ifc.
     bindR (NewHandler (se_linkAddress e) (Some ifc) (se_interfaceByName e) False (se_listenPacket e)) (\<lambda>h.
     bindR (se_listenUDP e) (\<lambda>_.
     Inr \<lparr>sv_daemon = \<lparr>handler = h\<lparr>Leases_set := True\<rparr>, leases = [], leases_json = None, nonExpiredLeases = 0, errors = []\<rparr>,
          sv_pool = pool, sv_result = None\<rparr>)))))"

section \<open>Events\<close>

datatype srv_event =
  EvPacket env daemon_io packet MessageType Options
| EvHostname env daemon_io string string string
| EvLease daemon_io string
| EvHome daemon_io DB string string
| EvUsr1 "NetIface list result" "string result"
| EvServeEnds fault

definition with_daemon :: "Srv \<Rightarrow> Daemon \<Rightarrow> Srv" where
  "with_daemon s d = s\<lparr>sv_daemon := d, sv_result := (case errors d of [] \<Rightarrow> None | e # _ \<Rightarrow> Some e)\<rparr>"

fun srv_live :: "dhcp4_lib \<Rightarrow> Srv \<Rightarrow> srv_event \<Rightarrow> Srv \<times> http result list" where
  "srv_live lib s (EvPacket env io p mt opts) = (with_daemon s (serve_packet lib env io (sv_daemon s) p mt opts), [])"
| "srv_live lib s (EvHostname env io meth hwaddr hostname) =
     (case handleSetHostname env io (sv_daemon s) meth hwaddr hostname of
        Inl f \<Rightarrow> (s, [Inl f])
      | Inr (d, answer) \<Rightarrow> (with_daemon s d, [Inr answer]))"
| "srv_live lib s (EvLease io path) = (s, [Inr (handleLease io (sv_daemon s) path)])"
| "srv_live lib s (EvHome io db remoteAddr xff) = (s, [handleHome io db (sv_daemon s) remoteAddr xff])"
| "srv_live lib s (EvUsr1 interfaces net1) =
     (case updateListeners interfaces net1 (sv_pool s) of
        Inl (Panic x) \<Rightarrow> (s\<lparr>sv_result := Some (Panic x)\<rparr>, [])
      | Inl (Err _) \<Rightarrow> (s, [])
      | Inr pool \<Rightarrow> (s\<lparr>sv_pool := pool\<rparr>, []))"
| "srv_live lib s (EvServeEnds f) = (s\<lparr>sv_result := Some f\<rparr>, [])"

definition srv_step :: "dhcp4_lib \<Rightarrow> Srv \<Rightarrow> srv_event \<Rightarrow> Srv \<times> http result list" where
  "srv_step lib s ev = (case sv_result s of None \<Rightarrow> srv_live lib s ev | Some _ \<Rightarrow> (s, []))"

section \<open>The snapshot\<close>

text \<open>The iteration order of a map visits every entry once.\<close>

definition fair :: "srv_event \<Rightarrow> bool" where
  "fair ev =
     (case ev of
        EvPacket env io p mt opts \<Rightarrow> \<forall>ps. mset (map_order env ps) = mset ps
      | EvHostname env io m hw hn \<Rightarrow> \<forall>ps. mset (map_order env ps) = mset ps
      | _ \<Rightarrow> True)"

definition snapshot_inv :: "Daemon \<Rightarrow> bool" where
  "snapshot_inv d \<longleftrightarrow> db_inv (handler d) \<and> Leases_set (handler d) \<and>
     mset (leases d) = mset (map snd (leasesIP (handler d)))"

lemma on_leases_fields [simp]:
  "handler (on_leases io d cb) = handler d" "leases (on_leases io d cb) = fst cb"
  by (auto simp: on_leases_def Let_def split_beta split: sum.split)

text \<open>A change of the table is followed by a callback with the new table.\<close>

definition reported :: "env \<Rightarrow> Handler \<Rightarrow> Handler \<Rightarrow> callback list \<Rightarrow> bool" where
  "reported env h h' cbs \<longleftrightarrow> Leases_set h' = Leases_set h \<and>
     (cbs = [] \<and> leasesIP h' = leasesIP h \<or> (\<exists>q. cbs = [(map_order env (map snd (leasesIP h')), q)]))"

lemma serveDHCP_reported:
  assumes "Leases_set h" "serveDHCP lib env h p mt opts = (h', r, cbs)"
  shows "reported env h h' cbs"
proof (cases mt)
  case Request
  then show ?thesis
    using assms by (auto simp: serveDHCP_def serve_request_def store_lease_def callLeasesLocked_def reported_def Let_def
        split: if_splits option.splits)
next
  case Decline
  then show ?thesis
    using assms by (auto simp: serveDHCP_def expireLease_def reported_def Let_def split: if_splits option.splits)
qed (use assms in \<open>auto simp: serveDHCP_def reported_def\<close>)

lemma SetHostname_reported:
  "Leases_set h \<Longrightarrow> SetHostname env h hw name = Inr (h', cbs) \<Longrightarrow> reported env h h' cbs"
  by (auto simp: SetHostname_def callLeasesLocked_def reported_def Let_def split: if_splits option.splits)

lemma snapshot_inv_callbacks:
  assumes "snapshot_inv d" "reported env (handler d) h' cbs" "db_inv h'" "\<And>ps. mset (map_order env ps) = mset ps"
  shows "snapshot_inv (foldl (on_leases io) (d\<lparr>handler := h'\<rparr>) cbs)"
  using assms by (auto simp: snapshot_inv_def reported_def)

lemma db_inv_serveDHCP: "db_inv h \<Longrightarrow> db_inv (fst (serveDHCP lib env h p mt opts))"
  by (auto simp: serveDHCP_def serve_request_cases Let_def db_inv_expire intro: db_inv_grant split: MessageType.split)

lemma db_inv_hostname:
  assumes "db_inv h" "SetHostname env h hw name = Inr (h', cbs)"
  shows "db_inv h'"
proof -
  from SetHostname_Inr [OF assms] obtain n p where np: "map_of (leasesIP h) n = Some p"
    and h': "h' = h\<lparr>heap := (heap h)[p := named name (deref h p)]\<rparr>" by metis
  show ?thesis unfolding h' by (auto simp: named_def db_inv_write [OF assms(1) np])
qed

lemma snapshot_packet:
  assumes "snapshot_inv d" "\<And>ps. mset (map_order env ps) = mset ps"
  shows "snapshot_inv (serve_packet lib env io d p mt opts)"
proof -
  obtain h' r cbs where s: "serveDHCP lib env (handler d) p mt opts = (h', r, cbs)" by (rule prod_cases3)
  have "serve_packet lib env io d p mt opts = foldl (on_leases io) (d\<lparr>handler := h'\<rparr>) cbs"
    by (simp add: serve_packet_def ServeDHCP_def s split: option.split prod.split)
  moreover have "db_inv h'"
    using db_inv_serveDHCP [of "handler d" lib env p mt opts] assms(1) by (simp add: s snapshot_inv_def)
  ultimately show ?thesis
    using snapshot_inv_callbacks [OF assms(1) serveDHCP_reported [OF _ s]] assms by (simp add: snapshot_inv_def)
qed

lemma snapshot_hostname:
  assumes "snapshot_inv d" "\<And>ps. mset (map_order env ps) = mset ps"
    and "handleSetHostname env io d meth hw name = Inr (d', answer)"
  shows "snapshot_inv d'"
proof (cases "d' = d")
  case False
  then obtain h' cbs where s: "SetHostname env (handler d) hw name = Inr (h', cbs)"
    and d': "d' = foldl (on_leases io) (d\<lparr>handler := h'\<rparr>) cbs"
    using assms(3) by (auto simp: handleSetHostname_def split: if_splits sum.splits fault.splits)
  have "db_inv h'" using db_inv_hostname [OF _ s] assms(1) by (simp add: snapshot_inv_def)
  then show ?thesis
    unfolding d' using snapshot_inv_callbacks [OF assms(1) SetHostname_reported [OF _ s]] assms by (simp add: snapshot_inv_def)
qed (use assms(1) in simp)

lemma snapshot_step:
  assumes "snapshot_inv (sv_daemon s)" "fair ev"
  shows "snapshot_inv (sv_daemon (fst (srv_step lib s ev)))"
proof (cases "sv_result s")
  case None
  then show ?thesis
  proof (cases ev)
    case (EvPacket env io p mt opts)
    then show ?thesis
      using None snapshot_packet [OF assms(1)] assms(2) by (simp add: srv_step_def with_daemon_def fair_def)
  next
    case (EvHostname env io meth hw name)
    then show ?thesis
      using None snapshot_hostname [OF assms(1) _, of env io meth hw name] assms
      by (cases "handleSetHostname env io (sv_daemon s) meth hw name") (auto simp: srv_step_def with_daemon_def fair_def)
  qed (use assms(1) None in \<open>auto simp: srv_step_def split: sum.split fault.split\<close>)
qed (simp add: srv_step_def assms(1))

interpretation srv: guarded_machine "srv_step lib" "\<lambda>_. True" fair "\<lambda>s. snapshot_inv (sv_daemon s)" "\<lambda>_. False" for lib
  by unfold_locales (auto intro: snapshot_step)

lemma snapshot_new:
  assumes "newSrv e = Inr s"
  shows "snapshot_inv (sv_daemon s)"
proof -
  from assms obtain h ifc pool where "NewHandler (se_linkAddress e) (Some ifc) (se_interfaceByName e) False (se_listenPacket e) = Inr h"
    "s = \<lparr>sv_daemon = \<lparr>handler = h\<lparr>Leases_set := True\<rparr>, leases = [], leases_json = None, nonExpiredLeases = 0, errors = []\<rparr>,
       sv_pool = pool, sv_result = None\<rparr>"
    by (auto simp: newSrv_def bindR_eq_Inr)
  moreover from NewHandler_Inr [OF this(1)] have "leasesIP h = []" by metis
  ultimately show ?thesis by (simp add: snapshot_inv_def db_inv_def)
qed

text \<open>The table's leases, one per client, in a snapshot.\<close>

lemma snapshot_clients:
  assumes "snapshot_inv d"
  shows "distinct (map (\<lambda>p. HardwareAddr (deref (handler d) p)) (leases d))"
proof -
  let ?h = "handler d" and ?hw = "\<lambda>p. HardwareAddr (deref (handler d) p)"
  have db: "db_inv ?h" using assms by (simp add: snapshot_inv_def)
  have "n = m" if "(n, p) \<in> set (leasesIP ?h)" "(m, q) \<in> set (leasesIP ?h)" "?hw p = ?hw q" for n m p q
    using that db db_inv_keys [OF db] unfolding db_inv_def by (metis map_of_eq_Some_iff option.inject)
  then have "distinct (map (\<lambda>x. ?hw (snd x)) (leasesIP ?h))"
    using db_inv_keys [OF db] by (force simp: distinct_map inj_on_def)
  then have "distinct (map ?hw (map snd (leasesIP ?h)))" by (simp add: comp_def)
  moreover have "mset (map ?hw (map snd (leasesIP ?h))) = mset (map ?hw (leases d))"
    using assms unfolding snapshot_inv_def by (metis mset_map)
  ultimately show ?thesis by (metis mset_eq_imp_distinct_iff)
qed

section \<open>Properties\<close>

text \<open>
  C14. Whatever packets, HTTP requests and signals the daemon has handled since its start: the leases
  that its pages show are exactly those of the lease table, one per client; an answer about a
  hostname is the encoding of a lease of the table with that hostname. When the next request is
  granted and the file can be written, the file holds the encoding of the new table and the gauge
  counts its leases that have not expired.
\<close>

theorem snapshot_current:
  assumes "newSrv e = Inr s0" "list_all fair es" "s = fst (run (srv_step lib) s0 es)"
    and "d = sv_daemon s" "shown = map (deref (handler d)) (leases d)"
  shows "set shown = {l. \<exists>n. lease_at (handler d) n = Some l} \<and> distinct (map HardwareAddr shown) \<and>
    (\<forall>path b active. handleLease io d path = HttpLease b active \<longrightarrow>
       (\<exists>n l. lease_at (handler d) n = Some l \<and> Hostname l = trim_prefix path ''/lease/'' \<and> json_Marshal io [l] = Inr b)) \<and>
    (\<forall>env p opts d' ls b. fair (EvPacket env io p Request opts) \<and> \<not> other_server (handler d) opts \<and>
       canLease lib env (handler d) (requested_ip p opts) (client p) \<noteq> -1 \<and>
       d' = serve_packet lib env io d p Request opts \<and> ls = map (deref (handler d')) (leases d') \<and>
       json_Marshal io ls = Inr b \<and> io_WriteFile io = Inr () \<longrightarrow>
       set ls = {l. \<exists>n. lease_at (handler d') n = Some l} \<and> (\<exists>l \<in> set ls. HardwareAddr l = client p) \<and>
       leases_json d' = Some (case json_Indent io b of Inl _ \<Rightarrow> b | Inr ind \<Rightarrow> ind) \<and>
       nonExpiredLeases d' = length (filter (\<lambda>l. \<not> Expired l (io_now io)) ls))"
proof -
  have inv: "snapshot_inv d"
    unfolding assms(4,3) by (rule srv.run_keep [OF TrueI snapshot_new [OF assms(1)] assms(2)])
  then have h: "db_inv (handler d)" "Leases_set (handler d)" by (simp_all add: snapshot_inv_def)
  have shown: "set shown = {l. \<exists>n. lease_at (handler d) n = Some l}"
    unfolding assms(5) using snapshot_of_table [OF h(1)] inv by (simp add: snapshot_inv_def)
  have one: "distinct (map HardwareAddr shown)"
    using snapshot_clients [OF inv] by (simp add: assms(5) comp_def)
  have lease: "\<exists>n l. lease_at (handler d) n = Some l \<and> Hostname l = trim_prefix path ''/lease/'' \<and> json_Marshal io [l] = Inr b"
    if answer: "handleLease io d path = HttpLease b active" for path b active
  proof -
    obtain q where q: "find (\<lambda>p. Hostname (deref (handler d) p) = trim_prefix path ''/lease/'') (leases d) = Some q"
      "json_Marshal io [deref (handler d) q] = Inr b"
      using answer unfolding handleLease_def Let_def
      by (cases "find (\<lambda>p. Hostname (deref (handler d) p) = trim_prefix path ''/lease/'') (leases d)")
        (auto split: if_splits sum.splits)
    then have "deref (handler d) q \<in> set shown" "Hostname (deref (handler d) q) = trim_prefix path ''/lease/''"
      by (auto simp: assms(5) find_Some_iff)
    then show ?thesis using q(2) unfolding shown by blast
  qed
  have grant: "set ls = {l. \<exists>n. lease_at (handler d') n = Some l} \<and> (\<exists>l \<in> set ls. HardwareAddr l = client p) \<and>
      leases_json d' = Some (case json_Indent io b of Inl _ \<Rightarrow> b | Inr ind \<Rightarrow> ind) \<and>
      nonExpiredLeases d' = length (filter (\<lambda>l. \<not> Expired l (io_now io)) ls)"
    if "fair (EvPacket env io p Request opts)" "\<not> other_server (handler d) opts"
      "canLease lib env (handler d) (requested_ip p opts) (client p) \<noteq> -1"
      "d' = serve_packet lib env io d p Request opts" "ls = map (deref (handler d')) (leases d')"
      "json_Marshal io ls = Inr b" "io_WriteFile io = Inr ()" for env p opts d' ls b
    using snapshot_after_grant [OF h _ that(3,2,4,5)] that(1,6,7) unfolding fair_def srv_event.case by blast
  show ?thesis using shown one lease grant by blast
qed

definition demo_srv :: srv_env where
  "demo_srv = \<lparr>se_interfaces = Inr [], se_net1 = Inl (Err ''no lease''), se_mkdir = Inr (), se_interfaceByName = Inr [0, 0, 0, 0, 0, 1],
     se_linkAddress = Inr [192, 168, 42, 1], se_listenPacket = Inr (), se_listenUDP = Inr ()\<rparr>"

lemma demo_newSrv: "\<exists>s0. newSrv demo_srv = Inr s0"
  by (simp add: newSrv_def demo_srv_def updateListeners_def listen_with_net1_def PrivateInterfaceAddrs_def interfaceAddrs_def
      NewHandler_def start_of_def Let_def To4_def go_copy_def)

lemma snapshot_current_witness:
  "\<exists>s0 d. newSrv demo_srv = Inr s0 \<and>
     d = sv_daemon (fst (run (srv_step plain_lib) s0
           [EvPacket demo_env demo_dio (demo_packet 5 1) Request [], EvHome demo_dio (NewDB []) '''' '''',
            EvPacket demo_env demo_dio (demo_packet 5 1) Decline []])) \<and>
     set (map (deref (handler d)) (leases d)) = {l. \<exists>n. lease_at (handler d) n = Some l}"
proof -
  obtain s0 where s0: "newSrv demo_srv = Inr s0" using demo_newSrv by blast
  let ?es = "[EvPacket demo_env demo_dio (demo_packet 5 1) Request [], EvHome demo_dio (NewDB []) '''' '''',
    EvPacket demo_env demo_dio (demo_packet 5 1) Decline []]"
  have "list_all fair ?es" by (simp add: fair_def demo_env_def)
  note shown = conjunct1 [OF snapshot_current [OF s0 this refl refl refl, of plain_lib]]
  show ?thesis by (rule exI [of _ s0], rule exI, rule conjI [OF s0 conjI [OF refl shown]])
qed

end
