(* ===== verification/Strconv.thy ===== *)
theory Strconv
  imports NetText
begin

text \<open>
  \<open>strconv.ParseUint(s, 0, bits)\<close> for 8 and 16 bits, where the accumulator stays below the 64-bit
  cut-off, and \<open>net.IPMask.Size\<close>; the two text parsers of \<open>netconfig.go\<close> that use them,
  \<open>subnetMaskSize\<close> and \<open>parsePort\<close>.
\<close>

section \<open>strconv.ParseUint with base 0\<close>

definition lower :: "char \<Rightarrow> nat" where
  "lower c = (let n = of_char c :: nat in if n div 32 mod 2 = 0 then n + 32 else n)"

abbreviation is_base_letter :: "char \<Rightarrow> bool" where
  "is_base_letter c \<equiv> lower c = 98 \<or> lower c = 111 \<or> lower c = 120"

definition base_of :: "string \<Rightarrow> nat \<times> string" where
  "base_of s =
     (if hd s \<noteq> CHR ''0'' then (10, s)
      else if length s \<ge> 3 \<and> lower (s ! 1) = 98 then (2, drop 2 s)
      else if length s \<ge> 3 \<and> lower (s ! 1) = 111 then (8, drop 2 s)
      else if length s \<ge> 3 \<and> lower (s ! 1) = 120 then (16, drop 2 s)
      else (8, drop 1 s))"

definition digit_of :: "char \<Rightarrow> nat option" where
  "digit_of c =
     (if is_digit c then Some (digit_val c)
      else if 97 \<le> lower c \<and> lower c \<le> 122 then Some (lower c - 97 + 10)
      else None)"

text \<open>The accumulator, and whether an underscore was seen.\<close>

fun uint_loop :: "nat \<Rightarrow> nat \<Rightarrow> nat \<Rightarrow> bool \<Rightarrow> string \<Rightarrow> (nat \<times> bool) result" where
  "uint_loop base maxVal n us [] = Inr (n, us)"
| "uint_loop base maxVal n us (c # cs) =
     (if c = CHR ''_'' then uint_loop base maxVal n True cs
      else case digit_of c of
        None \<Rightarrow> Inl (Err ''invalid syntax'')
      | Some d \<Rightarrow>
          if d \<ge> base then Inl (Err ''invalid syntax'')
          else if n * base + d > maxVal then Inl (Err ''value out of range'')
          else uint_loop base maxVal (n * base + d) us cs)"

text \<open>\<open>underscoreOK\<close>: an underscore only between digits; \<open>saw\<close> is the class of the last character.\<close>

datatype saw = SawStart | SawDigit | SawUnderscore | SawOther

fun underscore_loop :: "bool \<Rightarrow> saw \<Rightarrow> string \<Rightarrow> bool" where
  "underscore_loop hex saw [] = (saw \<noteq> SawUnderscore)"
| "underscore_loop hex saw (c # cs) =
     (if is_digit c \<or> (hex \<and> 97 \<le> lower c \<and> lower c \<le> 102) then underscore_loop hex SawDigit cs
      else if c = CHR ''_'' then (if saw \<noteq> SawDigit then False else underscore_loop hex SawUnderscore cs)
      else if saw = SawUnderscore then False
      else underscore_loop hex SawOther cs)"

definition underscoreOK :: "string \<Rightarrow> bool" where
  "underscoreOK s =
     (let s = (if s \<noteq> [] \<and> (hd s = CHR ''-'' \<or> hd s = CHR ''+'') then tl s else s) in
      if length s \<ge> 2 \<and> hd s = CHR ''0'' \<and> is_base_letter (s ! 1)
      then underscore_loop (lower (s ! 1) = 120) SawDigit (drop 2 s)
      else underscore_loop False SawStart s)"

definition ParseUint :: "string \<Rightarrow> nat \<Rightarrow> nat result" where
  "ParseUint s bits =
     (if s = [] then Inl (Err ''invalid syntax'')
      else
        let (base, digits) = base_of s in
        bindR (uint_loop base (2 ^ bits - 1) 0 False digits) (\<lambda>(n, us).
          if us \<and> \<not> underscoreOK s then Inl (Err ''invalid syntax'') else Inr n))"

section \<open>net.IPMask\<close>

fun count_ones :: "nat \<Rightarrow> byte \<Rightarrow> nat \<times> byte" where
  "count_ones 0 v = (0, v)"
| "count_ones (Suc k) v =
     (if bit v 7 then let (n, v') = count_ones k (push_bit 1 v) in (n + 1, v') else (0, v))"

fun simpleMaskLength :: "bytes \<Rightarrow> nat option" where
  "simpleMaskLength [] = Some 0"
| "simpleMaskLength (v # vs) =
     (if v = 0xff then map_option (\<lambda>n. n + 8) (simpleMaskLength vs)
      else let (n, v') = count_ones 8 v in
        if v' \<noteq> 0 then None
        else if list_all (\<lambda>b. b = 0) vs then Some n else None)"

definition Mask_Size :: "bytes \<Rightarrow> nat \<times> nat" where
  "Mask_Size m = (case simpleMaskLength m of None \<Rightarrow> (0, 0) | Some n \<Rightarrow> (n, 8 * length m))"

definition CIDRMask :: "nat \<Rightarrow> nat \<Rightarrow> bytes" where
  "CIDRMask ones len = map (\<lambda>i. of_nat (256 - 2 ^ (8 - min 8 (ones - 8 * i)))) [0..<len]"

section \<open>netconfig.go: subnetMaskSize, parsePort\<close>

fun parse_parts :: "string list \<Rightarrow> bytes result" where
  "parse_parts [] = Inr []"
| "parse_parts (part # parts) =
     bindR (ParseUint part 8) (\<lambda>i. bindR (parse_parts parts) (\<lambda>bs. Inr (of_nat i # bs)))"

definition subnetMaskSize :: "string \<Rightarrow> nat result" where
  "subnetMaskSize m =
     (let parts = split_on CHR ''.'' m in
      if length parts \<noteq> 4 then Inl (Err ''unexpected number of parts in subnet mask'')
      else bindR (parse_parts parts) (\<lambda>numeric. Inr (fst (Mask_Size numeric))))"

text \<open>The submatches of \<open>^([0-9]+)(?:-([0-9]+))?$\<close>.\<close>

definition rangeRe :: "string \<Rightarrow> (string \<times> string) option" where
  "rangeRe p =
     (let m1 = takeWhile is_digit p; rest = dropWhile is_digit p in
      if m1 = [] then None
      else if rest = [] then Some (m1, '''')
      else if hd rest = CHR ''-'' \<and> tl rest \<noteq> [] \<and> list_all is_digit (tl rest) then Some (m1, tl rest)
      else None)"

definition parsePort :: "string \<Rightarrow> (16 word \<times> 16 word) result" where
  "parsePort p =
     (case rangeRe p of
        None \<Rightarrow> Inl (Err ''malformed port'')
      | Some (m1, m2) \<Rightarrow>
          bindR (ParseUint m1 16) (\<lambda>min64.
          bindR (if m2 \<noteq> '''' then ParseUint m2 16 else Inr min64) (\<lambda>max64.
            Inr (of_nat min64, of_nat max64))))"

section \<open>Decimal text\<close>

lemma lower_digit: "is_digit c \<Longrightarrow> c \<noteq> CHR ''_''"
  by (auto simp: is_digit_def)

lemma foldl_dec_mono: "n \<le> foldl (\<lambda>n c. 10 * n + digit_val c) n s"
proof (induction s arbitrary: n)
  case (Cons c s)
  have "n \<le> 10 * n + digit_val c" by simp
  also have "\<dots> \<le> foldl (\<lambda>n c. 10 * n + digit_val c) (10 * n + digit_val c) s" by (rule Cons.IH)
  finally show ?case by simp
qed simp

lemma uint_loop_digits:
  "list_all is_digit s \<Longrightarrow> foldl (\<lambda>n c. 10 * n + digit_val c) n s \<le> m \<Longrightarrow>
   uint_loop 10 m n us s = Inr (foldl (\<lambda>n c. 10 * n + digit_val c) n s, us)"
proof (induction s arbitrary: n)
  case (Cons c s)
  have "10 * n + digit_val c \<le> m"
    using Cons.prems(2) foldl_dec_mono [of "10 * n + digit_val c" s] by simp
  moreover have "digit_val c < 10" using Cons.prems(1) by (auto simp: is_digit_def digit_val_def)
  ultimately show ?case
    using Cons lower_digit [of c] by (simp add: digit_of_def mult.commute)
qed simp

lemma ParseUint_itoa: "n < 2 ^ bits \<Longrightarrow> ParseUint (itoa n) bits = Inr n"
proof (cases "n = 0")
  case True
  then show ?thesis
    by (simp add: ParseUint_def base_of_def itoa.simps [of 0] digit_char_def char_of_eq_iff)
next
  case False
  assume n: "n < 2 ^ bits"
  have "base_of (itoa n) = (10, itoa n)" using False by (simp add: base_of_def hd_itoa_zero)
  moreover have "uint_loop 10 (2 ^ bits - 1) 0 False (itoa n) = Inr (n, False)"
    using uint_loop_digits [of "itoa n" 0 "2 ^ bits - 1"] n itoa_digits [of n] dec_val_itoa [of n]
    by (simp add: dec_val_def)
  ultimately show ?thesis by (simp add: ParseUint_def)
qed

lemma split_quad:
  "length ip = 4 \<Longrightarrow> split_on CHR ''.'' (IP4_String ip) = map (\<lambda>b. itoa (unat b)) ip"
  using digits_no_sep [OF itoa_digits, of "CHR ''.''"]
  by (auto simp: length_4_iff IP4_String_def split_on_append split_on_single)

lemma parse_parts_itoa: "parse_parts (map (\<lambda>b. itoa (unat (b :: byte))) bs) = Inr bs"
proof (induction bs)
  case (Cons b bs)
  have "unat b < 2 ^ 8" using unat_byte_less [of b] by simp
  then show ?case using Cons by (simp add: ParseUint_itoa)
qed simp

lemma subnetMaskSize_quad:
  "length m = 4 \<Longrightarrow> subnetMaskSize (IP4_String m) = Inr (fst (Mask_Size m))"
  by (simp add: subnetMaskSize_def split_quad parse_parts_itoa)

lemma CIDRMask_Size_table:
  "list_all (\<lambda>n. Mask_Size (CIDRMask n 4) = (n, 32)) [0..<33]"
  by code_simp

lemma CIDRMask_Size: "n \<le> 32 \<Longrightarrow> Mask_Size (CIDRMask n 4) = (n, 32)"
  using CIDRMask_Size_table by (simp add: list_all_iff)

lemma parsePort_decimal:
  assumes "a < 65536" "b < 65536"
  shows "parsePort (itoa a) = Inr (of_nat a, of_nat a)"
    "parsePort (itoa a @ ''-'' @ itoa b) = Inr (of_nat a, of_nat b)"
proof -
  have p: "ParseUint (itoa a) 16 = Inr a" "ParseUint (itoa b) 16 = Inr b"
    using assms by (simp_all add: ParseUint_itoa)
  have d: "\<forall>c \<in> set (itoa n). is_digit c" for n using itoa_digits [of n] by (simp add: list_all_iff)
  have "rangeRe (itoa a) = Some (itoa a, '''')"
    using d by (simp add: rangeRe_def takeWhile_eq_all_conv [THEN iffD2])
  then show "parsePort (itoa a) = Inr (of_nat a, of_nat a)" using p by (simp add: parsePort_def)
  have "rangeRe (itoa a @ ''-'' @ itoa b) = Some (itoa a, itoa b)"
    using d itoa_digits by (simp add: rangeRe_def takeWhile_append2 dropWhile_append2)
  then show "parsePort (itoa a @ ''-'' @ itoa b) = Inr (of_nat a, of_nat b)"
    using p by (simp add: parsePort_def)
qed

text \<open>A leading zero makes a number octal, or an error.\<close>

lemma parsePort_octal: "parsePort ''010'' = Inr (8, 8)" "parsePort ''08'' = Inl (Err ''invalid syntax'')"
  by (simp_all add: parsePort_def rangeRe_def ParseUint_def base_of_def lower_def digit_of_def
      digit_val_def is_digit_def)

section \<open>Properties\<close>

text \<open>
  Every IPv4 network mask survives the way through the DHCP lease file: written as a dotted
  quad and read by \<open>subnetMaskSize\<close>, the mask of length n gives back n; any other four bytes
  (a mask with a hole) give length 0, not an error.
\<close>

lemma mask_roundtrip:
  assumes "length m = 4"
  shows "subnetMaskSize (IP4_String m) = Inr (case simpleMaskLength m of None \<Rightarrow> 0 | Some n \<Rightarrow> n) \<and>
    (\<forall>n \<le> 32. m = CIDRMask n 4 \<longrightarrow> subnetMaskSize (IP4_String m) = Inr n)"
proof -
  have "simpleMaskLength (CIDRMask n 4) = Some n" if "n \<le> 32" for n
    using CIDRMask_Size [OF that] by (auto simp: Mask_Size_def split: option.splits)
  then show ?thesis using assms by (auto simp: subnetMaskSize_quad Mask_Size_def split: option.splits)
qed

lemma mask_roundtrip_witness:
  "subnetMaskSize (IP4_String [255, 255, 254, 0]) = Inr 23 \<and> subnetMaskSize (IP4_String [255, 0, 255, 0]) = Inr 0"
proof -
  have "simpleMaskLength [255, 255, 254, 0] = Some 23" "simpleMaskLength [255, 0, 255, 0] = None"
    by code_simp+
  then show ?thesis
    using mask_roundtrip [of "[255, 255, 254, 0]"] mask_roundtrip [of "[255, 0, 255, 0]"] by simp
qed

text \<open>
  Ports and port ranges in decimal, up to 65535, are read as written, and a range is not
  checked to be ascending; a leading zero, however, makes a port octal.
\<close>

lemma port_roundtrip:
  assumes "a < 65536" "b < 65536"
  shows "parsePort (itoa a) = Inr (of_nat a, of_nat a) \<and>
    parsePort (itoa a @ ''-'' @ itoa b) = Inr (of_nat a, of_nat b) \<and>
    parsePort ''010'' = Inr (8, 8) \<and> parsePort ''08'' = Inl (Err ''invalid syntax'')"
  using parsePort_decimal [OF assms] parsePort_octal by simp

lemma port_roundtrip_witness: "parsePort (itoa 8080 @ ''-'' @ itoa 8090) = Inr (8080, 8090)"
  using port_roundtrip [of 8080 8090] by simp

end
