(* ===== verification/Diag.thy ===== *)
theory Diag
  imports Networking Strconv
begin

text \<open>
  The package \<open>diag\<close>: the tree of diagnostics and its evaluation (\<open>diag.go\<close>), and what each kind of
  node checks (\<open>link.go\<close>, \<open>dhcp.go\<close>, \<open>ping.go\<close>, \<open>ra6.go\<close>, \<open>tcp.go\<close>, \<open>ipv6.go\<close>). A Go interface value
  with its dynamic type is a constructor of \<open>kind\<close>. What the network answers is a parameter.
\<close>

unbundle bit_operations_syntax

section \<open>Nodes\<close>

datatype kind =
  Link string
| DHCPv4node
| DHCPv6node
| Ping4Gateway
| Ping4 string
| Ping6Gateway
| Ping6 string string
| RouterAdvertisments string
| TCP4 string
| TCP6 string

datatype node = Node (node_kind: kind) (Children: "node list")

definition leaf :: "kind \<Rightarrow> node" where
  "leaf k = Node k []"

definition Then :: "node \<Rightarrow> node \<Rightarrow> node" where
  "Then n t = Node (node_kind n) (Children n @ [t])"

text \<open>The UTF-8 encoding of the arrow in the name of a \<open>ping6\<close> node.\<close>

definition arrow :: string where
  "arrow = map char_of [226 :: nat, 134, 146]"

text \<open>The methods \<open>String\<close> of the types of node, and the functions that make them.\<close>

named_theorems node_defs

definition link_String :: "string \<Rightarrow> string" where
  [node_defs]: "link_String ifname = ''link/'' @ ifname"

definition dhcpv4_String :: string where
  [node_defs]: "dhcpv4_String = ''dhcp4''"

definition dhcpv6_String :: string where
  [node_defs]: "dhcpv6_String = ''dhcp6''"

definition ping4gw_String :: string where
  [node_defs]: "ping4gw_String = ''ping4: $default-gateway''"

definition ping4_String :: "string \<Rightarrow> string" where
  [node_defs]: "ping4_String addr = ''ping4: '' @ addr"

definition ping6gw_String :: string where
  [node_defs]: "ping6gw_String = ''ping6gw: $default-gateway''"

definition ping6_String :: "string \<Rightarrow> string \<Rightarrow> string" where
  [node_defs]: "ping6_String ifname addr =
     (if ifname = '''' then ''ping6: '' @ addr else ''ping6: '' @ ifname @ '' '' @ arrow @ '' '' @ addr)"

definition ra6_String :: "string \<Rightarrow> string" where
  [node_defs]: "ra6_String ifname = ''ra6/'' @ ifname"

definition tcp4_String :: "string \<Rightarrow> string" where
  [node_defs]: "tcp4_String addr = ''tcp4: '' @ addr"

definition tcp6_String :: "string \<Rightarrow> string" where
  [node_defs]: "tcp6_String addr = ''tcp6: '' @ addr"

fun node_String :: "kind \<Rightarrow> string" where
  "node_String (Link ifname) = link_String ifname"
| "node_String DHCPv4node = dhcpv4_String"
| "node_String DHCPv6node = dhcpv6_String"
| "node_String Ping4Gateway = ping4gw_String"
| "node_String (Ping4 addr) = ping4_String addr"
| "node_String Ping6Gateway = ping6gw_String"
| "node_String (Ping6 ifname addr) = ping6_String ifname addr"
| "node_String (RouterAdvertisments ifname) = ra6_String ifname"
| "node_String (TCP4 addr) = tcp4_String addr"
| "node_String (TCP6 addr) = tcp6_String addr"

definition new_Link :: "string \<Rightarrow> node" where
  [node_defs]: "new_Link ifname = leaf (Link ifname)"

definition new_DHCPv4 :: node where
  [node_defs]: "new_DHCPv4 = leaf DHCPv4node"

definition new_DHCPv6 :: node where
  [node_defs]: "new_DHCPv6 = leaf DHCPv6node"

definition new_Ping4Gateway :: node where
  [node_defs]: "new_Ping4Gateway = leaf Ping4Gateway"

definition new_Ping4 :: "string \<Rightarrow> node" where
  [node_defs]: "new_Ping4 addr = leaf (Ping4 addr)"

definition new_Ping6Gateway :: node where
  [node_defs]: "new_Ping6Gateway = leaf Ping6Gateway"

definition new_Ping6 :: "string \<Rightarrow> string \<Rightarrow> node" where
  [node_defs]: "new_Ping6 ifname addr = leaf (Ping6 ifname addr)"

definition new_RouterAdvertisments :: "string \<Rightarrow> node" where
  [node_defs]: "new_RouterAdvertisments ifname = leaf (RouterAdvertisments ifname)"

definition new_TCP4 :: "string \<Rightarrow> node" where
  [node_defs]: "new_TCP4 addr = leaf (TCP4 addr)"

definition new_TCP6 :: "string \<Rightarrow> node" where
  [node_defs]: "new_TCP6 addr = leaf (TCP6 addr)"

section \<open>Evaluation\<close>

datatype EvalResult =
  EvalResult (r_Name: string) (r_Error: bool) (r_Status: string) (r_Children: "EvalResult list")

text \<open>\<open>probe k\<close> is what \<open>Evaluate\<close> of a node of kind \<open>k\<close> returns, an error as its text.\<close>

primrec evaluate :: "(kind \<Rightarrow> string + string) \<Rightarrow> node \<Rightarrow> string \<Rightarrow> EvalResult" where
  "evaluate probe (Node k children) = (\<lambda>err.
     let (status, error) =
           (if err = '''' then (case probe k of Inl e \<Rightarrow> (e, True) | Inr s \<Rightarrow> (s, False)) else (err, True));
         childErr = (if error then ''dependency '' @ node_String k @ '' failed'' else '''')
     in EvalResult (node_String k) error status (map (\<lambda>f. f childErr) (map (evaluate probe) children)))"

definition Monitor_Evaluate :: "(kind \<Rightarrow> string + string) \<Rightarrow> node \<Rightarrow> EvalResult" where
  "Monitor_Evaluate probe root = evaluate probe root ''''"

section \<open>The checks\<close>

text \<open>
  An address is an \<open>*net.IPNet\<close> (IP and mask) or another implementation of \<open>net.Addr\<close>. \<open>fmt_ms\<close> is
  \<open>Sprintf("%.2fms", ...)\<close> of a floating-point number, \<open>fmt_time\<close> and \<open>fmt_mask\<close> the text forms of a
  time and of an \<open>IPNet\<close>'s mask.
\<close>

datatype netaddr = IPNetAddr bytes bytes | OtherAddr

record network =
  LinkByName :: "string \<Rightarrow> string + (bool \<times> nat \<times> nat)"
  lease_valid_until :: "string \<Rightarrow> string + time"
  time_now :: time
  RouteGet :: "bytes \<Rightarrow> string + (bytes \<times> nat) list"
  InterfaceByIndex :: "nat \<Rightarrow> string + string"
  iface_Addrs :: "string \<Rightarrow> string + netaddr list"
  InterfaceAddrs :: "string + netaddr list"
  ResolveIPAddr :: "string \<Rightarrow> string \<Rightarrow> string + string"
  ping_New :: "string \<Rightarrow> string \<Rightarrow> string + unit"
  ping_Ping :: "string \<Rightarrow> string + duration"
  PingMulticast :: "string \<Rightarrow> string + (duration \<times> string) list"
  Dial :: "string \<Rightarrow> string \<Rightarrow> string + unit"
  fmt_ms :: "duration \<Rightarrow> string"
  fmt_time :: "time \<Rightarrow> string"
  fmt_mask :: "bytes \<Rightarrow> string"

definition bindE :: "string + 'a \<Rightarrow> ('a \<Rightarrow> string + 'b) \<Rightarrow> string + 'b" where
  "bindE m f = (case m of Inl e \<Rightarrow> Inl e | Inr x \<Rightarrow> f x)"

lemma bindE_simps [simp]: "bindE (Inl e) f = Inl e" "bindE (Inr x) f = f x"
  by (simp_all add: bindE_def)

lemma bindE_eq_Inr: "bindE m f = Inr y \<longleftrightarrow> (\<exists>x. m = Inr x \<and> f x = Inr y)"
  by (cases m) auto

text \<open>\<open>formatRTT\<close>\<close>

definition formatRTT :: "network \<Rightarrow> duration \<Rightarrow> string" where
  "formatRTT net rtt = fmt_ms net rtt"

definition link_Evaluate :: "network \<Rightarrow> string \<Rightarrow> string + string" where
  "link_Evaluate net ifname =
     bindE (LinkByName net ifname) (\<lambda>(up, rx, tx).
       if \<not> up then Inl (''link '' @ ifname @ '' not UP'')
       else Inr (itoa rx @ '' rx, '' @ itoa tx @ '' tx''))"

definition leaseValid :: "network \<Rightarrow> string \<Rightarrow> string + string" where
  "leaseValid net fn =
     bindE (lease_valid_until net fn) (\<lambda>validUntil.
       if After (time_now net) validUntil then Inl (''lease expired at '' @ fmt_time net validUntil)
       else Inr (''lease valid until '' @ fmt_time net validUntil))"

definition route_count_err :: "nat \<Rightarrow> string" where
  "route_count_err n = ''unexpected number of default routes: got '' @ itoa n @ '', want 1''"

definition defaultIPv4Gateway :: "network \<Rightarrow> string + string" where
  "defaultIPv4Gateway net =
     bindE (RouteGet net (ParseIP ''9.9.9.9'')) (\<lambda>rl.
       case rl of [(gw, idx)] \<Rightarrow> Inr (IP_String gw) | _ \<Rightarrow> Inl (route_count_err (length rl)))"

definition ping_once :: "network \<Rightarrow> string \<Rightarrow> string \<Rightarrow> string \<Rightarrow> string + duration" where
  "ping_once net bind4 bind6 addr = bindE (ping_New net bind4 bind6) (\<lambda>_. ping_Ping net addr)"

definition ping4gw_Evaluate :: "network \<Rightarrow> string + string" where
  "ping4gw_Evaluate net =
     (case defaultIPv4Gateway net of
        Inl err \<Rightarrow> Inr ''''
      | Inr gw \<Rightarrow>
          bindE (ResolveIPAddr net ''ip4'' gw) (\<lambda>addr.
          bindE (ping_once net ''0.0.0.0'' '''' addr) (\<lambda>rtt.
            Inr (formatRTT net rtt @ '' from '' @ gw))))"

definition ping4_Evaluate :: "network \<Rightarrow> string \<Rightarrow> string + string" where
  "ping4_Evaluate net a =
     bindE (ResolveIPAddr net ''ip4'' a) (\<lambda>addr.
     bindE (ping_once net ''0.0.0.0'' '''' addr) (\<lambda>rtt. Inr (formatRTT net rtt)))"

definition defaultIPv6Gateway :: "network \<Rightarrow> string + string" where
  "defaultIPv6Gateway net =
     bindE (RouteGet net (replicate 16 0)) (\<lambda>rl.
       case rl of
         [(gw, idx)] \<Rightarrow> bindE (InterfaceByIndex net idx) (\<lambda>name. Inr (IP_String gw @ ''%'' @ name))
       | _ \<Rightarrow> Inl (route_count_err (length rl)))"

definition wrapE :: "(string \<Rightarrow> string) \<Rightarrow> string + 'a \<Rightarrow> string + 'a" where
  "wrapE f m = (case m of Inl e \<Rightarrow> Inl (f e) | Inr x \<Rightarrow> Inr x)"

definition ping6gw_Evaluate :: "network \<Rightarrow> string + string" where
  "ping6gw_Evaluate net =
     bindE (defaultIPv6Gateway net) (\<lambda>gw.
     bindE (wrapE (\<lambda>e. ''net.ResolveIPAddr('' @ gw @ ''): '' @ e) (ResolveIPAddr net ''ip6'' gw)) (\<lambda>addr.
     bindE (wrapE (\<lambda>e. ''ping.New(::): '' @ e) (ping_New net '''' ''::'')) (\<lambda>_.
     bindE (wrapE (\<lambda>e. ''ping6('' @ addr @ '', 1s): '' @ e) (ping_Ping net addr)) (\<lambda>rtt.
       Inr (formatRTT net rtt @ '' from '' @ gw)))))"

text \<open>\<open>global.Contains(ip)\<close> for \<open>2000::/3\<close>\<close>

definition global_Contains :: "bytes \<Rightarrow> bool" where
  "global_Contains ip =
     (let ip = (if To4 ip \<noteq> [] then To4 ip else ip) in length ip = 16 \<and> ip ! 0 AND 0xe0 = 0x20)"

definition isEUI64 :: "bytes \<Rightarrow> bool" where
  "isEUI64 ip = (To16 ip \<noteq> [] \<and> To16 ip ! 11 = 0xff \<and> To16 ip ! 12 = 0xfe)"

definition IPNet_text :: "network \<Rightarrow> bytes \<Rightarrow> bytes \<Rightarrow> string" where
  "IPNet_text net ip m = IP_String ip @ ''/'' @ fmt_mask net m"

fun ra6_loop :: "network \<Rightarrow> netaddr list \<Rightarrow> string \<Rightarrow> string" where
  "ra6_loop net [] first = first"
| "ra6_loop net (a # as) first =
     (case a of
        OtherAddr \<Rightarrow> ra6_loop net as first
      | IPNetAddr ip m \<Rightarrow>
          if fst (Mask_Size m) \<noteq> 64 then ra6_loop net as first
          else if \<not> global_Contains ip then ra6_loop net as first
          else if \<not> isEUI64 ip then ra6_loop net as first
          else ra6_loop net as (IPNet_text net ip m))"

definition ra6_Evaluate :: "network \<Rightarrow> string \<Rightarrow> string + string" where
  "ra6_Evaluate net ifname =
     bindE (iface_Addrs net ifname) (\<lambda>addrs.
       let first = ra6_loop net addrs '''' in
       if first = '''' then Inl ''no SLAAC address found'' else Inr first)"

text \<open>The source address for a ping from an interface: its first global IPv6 address.\<close>

fun bind6_loop :: "netaddr list \<Rightarrow> string" where
  "bind6_loop [] = ''::''"
| "bind6_loop (a # as) =
     (case a of
        OtherAddr \<Rightarrow> bind6_loop as
      | IPNetAddr ip m \<Rightarrow>
          if To4 ip \<noteq> [] then bind6_loop as
          else if \<not> global_Contains ip then bind6_loop as
          else IP_String ip)"

fun local_addrs :: "netaddr list \<Rightarrow> string list" where
  "local_addrs [] = []"
| "local_addrs (a # as) = (case a of OtherAddr \<Rightarrow> local_addrs as | IPNetAddr ip m \<Rightarrow> IP_String ip # local_addrs as)"

fun replies_loop :: "network \<Rightarrow> string list \<Rightarrow> (duration \<times> string) list \<Rightarrow> string option" where
  "replies_loop net locals [] = None"
| "replies_loop net locals ((rtt, from_addr) # rs) =
     (if from_addr \<in> set locals then replies_loop net locals rs
      else Some (formatRTT net rtt @ '' from '' @ from_addr))"

definition ping6_Evaluate :: "network \<Rightarrow> string \<Rightarrow> string \<Rightarrow> string + string" where
  "ping6_Evaluate net ifname a =
     bindE (ResolveIPAddr net ''ip6'' a) (\<lambda>addr.
     bindE (if ifname \<noteq> '''' then bindE (iface_Addrs net ifname) (\<lambda>as. Inr (bind6_loop as)) else Inr ''::'') (\<lambda>bind6.
     bindE (ping_New net '''' bind6) (\<lambda>_.
       if has_prefix addr ''ff02::'' then
         bindE (PingMulticast net addr) (\<lambda>replies.
         bindE (InterfaceAddrs net) (\<lambda>addrs.
           case replies_loop net (local_addrs addrs) replies of
             Some s \<Rightarrow> Inr s
           | None \<Rightarrow> Inl (''no responses to '' @ addr @ '' within 1s'')))
       else bindE (ping_Ping net addr) (\<lambda>rtt. Inr (formatRTT net rtt)))))"

definition tcp4_Evaluate :: "network \<Rightarrow> string \<Rightarrow> string + string" where
  "tcp4_Evaluate net addr = bindE (Dial net ''tcp4'' addr) (\<lambda>_. Inr ''connection established'')"

definition tcp6_Evaluate :: "network \<Rightarrow> string \<Rightarrow> string + string" where
  "tcp6_Evaluate net addr = bindE (Dial net ''tcp6'' addr) (\<lambda>_. Inr ''connection established'')"

definition dhcpv4_Evaluate :: "network \<Rightarrow> string + string" where
  [node_defs]: "dhcpv4_Evaluate net = leaseValid net ''/perm/dhcp4/wire/lease.json''"

definition dhcpv6_Evaluate :: "network \<Rightarrow> string + string" where
  [node_defs]: "dhcpv6_Evaluate net = leaseValid net ''/perm/dhcp6/wire/lease.json''"

fun Evaluate :: "network \<Rightarrow> kind \<Rightarrow> string + string" where
  "Evaluate net (Link ifname) = link_Evaluate net ifname"
| "Evaluate net DHCPv4node = dhcpv4_Evaluate net"
| "Evaluate net DHCPv6node = dhcpv6_Evaluate net"
| "Evaluate net Ping4Gateway = ping4gw_Evaluate net"
| "Evaluate net (Ping4 addr) = ping4_Evaluate net addr"
| "Evaluate net Ping6Gateway = ping6gw_Evaluate net"
| "Evaluate net (Ping6 ifname addr) = ping6_Evaluate net ifname addr"
| "Evaluate net (RouterAdvertisments ifname) = ra6_Evaluate net ifname"
| "Evaluate net (TCP4 addr) = tcp4_Evaluate net addr"
| "Evaluate net (TCP6 addr) = tcp6_Evaluate net addr"

end
