(* ===== verification/Backoff.thy ===== *)
theory Backoff
  imports GoLib
begin

text \<open>
  The back-off of the client daemons (package \<open>jpillora/backoff\<close>): what the program sets and the number
  of the attempt, from which the package computes the next wait. The law that both daemons share is
  that the attempt counts the failures since the last success.
\<close>

record Backoff =
  bo_Factor :: nat
  bo_Jitter :: bool
  bo_Min :: duration
  bo_Max :: duration
  bo_attempt :: nat

text \<open>\<open>Duration\<close> returns the wait for the attempt and counts it, \<open>Reset\<close> starts over.\<close>

definition count_attempt :: "Backoff \<Rightarrow> Backoff" where
  "count_attempt b = b\<lparr>bo_attempt := bo_attempt b + 1\<rparr>"

definition Reset :: "Backoff \<Rightarrow> Backoff" where
  "Reset b = b\<lparr>bo_attempt := 0\<rparr>"

text \<open>The number of waits among the outputs since the last success.\<close>

definition failures :: "('o \<Rightarrow> Backoff option) \<Rightarrow> ('o \<Rightarrow> bool) \<Rightarrow> 'o list \<Rightarrow> nat" where
  "failures wait success os = length (filter (\<lambda>x. wait x \<noteq> None) (takeWhile (\<lambda>x. \<not> success x) (rev os)))"

definition quiet :: "('o \<Rightarrow> Backoff option) \<Rightarrow> ('o \<Rightarrow> bool) \<Rightarrow> 'o list \<Rightarrow> bool" where
  "quiet wait success os \<longleftrightarrow> (\<forall>x \<in> set os. wait x = None \<and> \<not> success x)"

text \<open>Every wait in the outputs is the one for the number of failures before it.\<close>

definition counted :: "('o \<Rightarrow> Backoff option) \<Rightarrow> ('o \<Rightarrow> bool) \<Rightarrow> Backoff \<Rightarrow> 'o list \<Rightarrow> bool" where
  "counted wait success b0 os \<longleftrightarrow>
     (\<forall>pre x post b. os = pre @ x # post \<longrightarrow> wait x = Some b \<longrightarrow> b = b0\<lparr>bo_attempt := failures wait success pre\<rparr>)"

lemma failures_Nil [simp]: "failures wait success [] = 0"
  by (simp add: failures_def)

lemma failures_quiet: "quiet wait success ys \<Longrightarrow> failures wait success (xs @ ys) = failures wait success xs"
proof -
  assume q: "quiet wait success ys"
  then have "takeWhile (\<lambda>x. \<not> success x) (rev ys @ rev xs) = rev ys @ takeWhile (\<lambda>x. \<not> success x) (rev xs)"
    by (intro takeWhile_append2) (simp add: quiet_def)
  moreover have "filter (\<lambda>x. wait x \<noteq> None) (rev ys) = []" using q by (simp add: quiet_def filter_empty_conv)
  ultimately show ?thesis by (simp add: failures_def)
qed

lemma failures_wait:
  "wait x \<noteq> None \<Longrightarrow> \<not> success x \<Longrightarrow> failures wait success (xs @ [x]) = failures wait success xs + 1"
  by (simp add: failures_def)

lemma failures_success: "success x \<Longrightarrow> failures wait success (xs @ [x]) = 0"
  by (simp add: failures_def)

lemma counted_snoc:
  "counted wait success b0 (xs @ [x]) \<longleftrightarrow>
     counted wait success b0 xs \<and> (\<forall>b. wait x = Some b \<longrightarrow> b = b0\<lparr>bo_attempt := failures wait success xs\<rparr>)"
proof
  assume c: "counted wait success b0 (xs @ [x])"
  have "b = b0\<lparr>bo_attempt := failures wait success pre\<rparr>" if "xs = pre @ y # post" "wait y = Some b" for pre y post b
    using c that unfolding counted_def by (metis append_Cons append_assoc)
  moreover have "b = b0\<lparr>bo_attempt := failures wait success xs\<rparr>" if "wait x = Some b" for b
    using c that unfolding counted_def by blast
  ultimately show "counted wait success b0 xs \<and> (\<forall>b. wait x = Some b \<longrightarrow> b = b0\<lparr>bo_attempt := failures wait success xs\<rparr>)"
    unfolding counted_def by blast
next
  assume c: "counted wait success b0 xs \<and> (\<forall>b. wait x = Some b \<longrightarrow> b = b0\<lparr>bo_attempt := failures wait success xs\<rparr>)"
  show "counted wait success b0 (xs @ [x])"
    unfolding counted_def
  proof (intro allI impI)
    fix pre y post b
    assume eq: "xs @ [x] = pre @ y # post" and w: "wait y = Some b"
    show "b = b0\<lparr>bo_attempt := failures wait success pre\<rparr>"
    proof (cases post rule: rev_cases)
      case Nil
      then show ?thesis using eq w c by simp
    next
      case (snoc post' z)
      then have "xs = pre @ y # post'" using eq by simp
      then show ?thesis using w c unfolding counted_def by blast
    qed
  qed
qed

lemma counted_quiet: "quiet wait success ys \<Longrightarrow> counted wait success b0 xs \<Longrightarrow> counted wait success b0 (xs @ ys)"
proof (induction ys rule: rev_induct)
  case (snoc y ys)
  then have "counted wait success b0 (xs @ ys)" "wait y = None" by (simp_all add: quiet_def)
  then show ?case using counted_snoc [of wait success b0 "xs @ ys" y] by simp
qed simp

text \<open>
  A machine that backs off: a step without success or failure leaves the attempt alone, a failure waits
  for it and counts, a success starts over. A machine that has ended does nothing any more.
\<close>

locale backoff_machine =
  fixes step :: "'s \<Rightarrow> 'e \<Rightarrow> 's \<times> 'o list"
    and boff :: "'s \<Rightarrow> Backoff"
    and wait :: "'o \<Rightarrow> Backoff option"
    and success :: "'o \<Rightarrow> bool"
    and ended :: "'s \<Rightarrow> bool"
  assumes step_ended: "ended s \<Longrightarrow> step s e = (s, [])"
    and step_counts: "step s e = (s', os) \<Longrightarrow>
      (ended s' \<or> boff s' = boff s) \<and> quiet wait success os \<or>
      (\<exists>pre x. os = pre @ [x] \<and> quiet wait success pre \<and> wait x = Some (boff s) \<and> \<not> success x \<and>
         boff s' = count_attempt (boff s)) \<or>
      (\<exists>pre x post. os = pre @ [x] @ post \<and> quiet wait success pre \<and> wait x = None \<and> success x \<and>
         (\<forall>y \<in> set post. wait y = None \<and> success y) \<and> boff s' = Reset (boff s))"
begin

definition tied :: "Backoff \<Rightarrow> 's \<Rightarrow> 'o list \<Rightarrow> bool" where
  "tied b0 s os \<longleftrightarrow>
     counted wait success b0 os \<and> (ended s \<or> boff s = b0\<lparr>bo_attempt := failures wait success os\<rparr>)"

lemma tied_success:
  assumes "counted wait success b0 os" "\<forall>y \<in> set ys. wait y = None \<and> success y" "ys \<noteq> []"
  shows "counted wait success b0 (os @ ys) \<and> failures wait success (os @ ys) = 0"
  using assms(2,3)
proof (induction ys rule: rev_induct)
  case (snoc y ys)
  have "counted wait success b0 (os @ ys)" using snoc assms(1) by (cases "ys = []") auto
  then show ?case
    using snoc.prems counted_snoc [of wait success b0 "os @ ys" y] failures_success [of success y wait "os @ ys"] by simp
qed simp

lemma step_tied:
  assumes "tied b0 s os" "step s e = (s', os')"
  shows "tied b0 s' (os @ os')"
proof (cases "ended s")
  case True
  then show ?thesis using assms step_ended [OF True, of e] by simp
next
  case False
  then have s: "counted wait success b0 os" "boff s = b0\<lparr>bo_attempt := failures wait success os\<rparr>"
    using assms(1) by (auto simp: tied_def)
  from step_counts [OF assms(2)] show ?thesis
  proof (elim disjE conjE exE)
    assume "quiet wait success os'" "ended s'"
    then show ?thesis using s counted_quiet unfolding tied_def by blast
  next
    assume "quiet wait success os'" "boff s' = boff s"
    then show ?thesis using s failures_quiet counted_quiet unfolding tied_def by metis
  next
    fix pre x assume x: "os' = pre @ [x]" "quiet wait success pre" "wait x = Some (boff s)" "\<not> success x"
      "boff s' = count_attempt (boff s)"
    have "counted wait success b0 (os @ pre)" "failures wait success (os @ pre) = failures wait success os"
      using s(1) x(2) counted_quiet failures_quiet by blast+
    then show ?thesis
      using x s counted_snoc [of wait success b0 "os @ pre" x] failures_wait [of wait x success "os @ pre"]
      by (simp add: tied_def count_attempt_def)
  next
    fix pre x post assume x: "os' = pre @ [x] @ post" "quiet wait success pre" "wait x = None" "success x"
      "\<forall>y \<in> set post. wait y = None \<and> success y" "boff s' = Reset (boff s)"
    have "counted wait success b0 (os @ pre)" using s(1) x(2) counted_quiet by blast
    then have "counted wait success b0 ((os @ pre) @ x # post) \<and> failures wait success ((os @ pre) @ x # post) = 0"
      using x by (intro tied_success) auto
    then show ?thesis using x s by (simp add: tied_def Reset_def)
  qed
qed

lemma run_tied: "tied b0 s os \<Longrightarrow> tied b0 (fst (run step s es)) (os @ snd (run step s es))"
proof (induction es arbitrary: s os)
  case (Cons e es)
  obtain s' os' where e: "step s e = (s', os')" by (cases "step s e")
  show ?case using Cons.IH [OF step_tied [OF Cons.prems e]] e by simp
qed simp

lemma waits: "boff s = b0 \<Longrightarrow> bo_attempt b0 = 0 \<Longrightarrow> counted wait success b0 (snd (run step s es))"
  using run_tied [of b0 s "[]" es] by (simp add: tied_def counted_def)

end

end
