(* ===== verification/Firewall.thy ===== *)
theory Firewall
  imports Strconv
begin

text \<open>
  The firewall part of \<open>netconfig/netconfig.go\<close>: the nftables rules of the port forwardings and
  the ruleset that \<open>applyFirewall\<close> queues on a netlink connection and commits with \<open>Flush\<close>. The
  library's structures are data; what the kernel does with an expression is a parameter.
\<close>

section \<open>nftables data\<close>

datatype CmpOp = CmpOpEq | CmpOpNeq | CmpOpGte | CmpOpLte

datatype MetaKey = MetaKeyIIFNAME | MetaKeyOIFNAME | MetaKeyL4PROTO

datatype nf_expr =
  Meta MetaKey nat
| Cmp CmpOp nat bytes
| Payload nat nat nat
| Immediate nat bytes
| NAT nat nat nat
| Masq
| Bitwise nat nat nat bytes bytes
| RtTCPMSS nat
| ByteorderHton nat nat nat nat
| ExthdrTcpopt nat nat nat nat
| Objref nat string

datatype family = IPv4Family | IPv6Family

datatype chain_type = ChainTypeNAT | ChainTypeFilter

datatype hook = HookPrerouting | HookPostrouting | HookForward

record CounterObj =
  co_table :: "family \<times> string"
  co_name :: string
  Bytes :: nat
  Packets :: nat

datatype nf_msg =
  FlushRuleset
| AddTable family string
| AddChain family string string hook chain_type
| AddRule family string string "nf_expr list"
| AddObj CounterObj

text \<open>Protocol numbers.\<close>

definition IPPROTO_TCP :: byte where "IPPROTO_TCP = 6"
definition IPPROTO_UDP :: byte where "IPPROTO_UDP = 17"

section \<open>Port forwardings\<close>

definition nfifname :: "string \<Rightarrow> bytes" where
  "nfifname n = go_copy (replicate 16 0) (go_bytes n @ [0])"

text \<open>
  \<open>portForwardExpr\<close>; \<open>put16\<close> is \<open>binaryutil.BigEndian.PutUint16\<close>. The arguments of \<open>NAT\<close> are the
  registers of the address and of the lowest and highest port (0 if unset).
\<close>

definition portForwardExpr ::
    "(16 word \<Rightarrow> bytes) \<Rightarrow> string \<Rightarrow> byte \<Rightarrow> 16 word \<Rightarrow> 16 word \<Rightarrow> bytes \<Rightarrow> 16 word \<Rightarrow> 16 word \<Rightarrow> nf_expr list" where
  "portForwardExpr put16 ifname proto portMin portMax dest dportMin dportMax =
     (let cmp =
            (if portMin = portMax then [Cmp CmpOpEq 1 (put16 portMin)]
             else [Cmp CmpOpGte 1 (put16 portMin), Cmp CmpOpLte 1 (put16 portMax)]);
          ex =
            [Meta MetaKeyIIFNAME 1,
             Cmp CmpOpEq 1 (nfifname ifname),
             Meta MetaKeyL4PROTO 1,
             Cmp CmpOpEq 1 [proto],
             Payload 1 2 2];
          ex = ex @ cmp;
          ex = ex @ [Immediate 1 (To4 dest)]
      in if dportMin = dportMax
         then ex @ [Immediate 2 (put16 dportMin), NAT 1 2 0]
         else ex @ [Immediate 2 (put16 dportMin), Immediate 3 (put16 dportMax), NAT 1 2 3])"

record portForwarding =
  Proto :: string
  Port :: string
  DestAddr :: string
  DestPort :: string

datatype 'a json_file = NotExist | Unreadable fault | Decoded 'a

definition proto_number :: "string \<Rightarrow> byte result" where
  "proto_number proto =
     (if proto = '''' \<or> proto = ''tcp'' then Inr IPPROTO_TCP
      else if proto = ''udp'' then Inr IPPROTO_UDP
      else Inl (Err ''unknown proto, expected tcp or udp''))"

fun proto_loop ::
    "(16 word \<Rightarrow> bytes) \<Rightarrow> string \<Rightarrow> portForwarding \<Rightarrow> string list \<Rightarrow> nf_msg list \<Rightarrow> nf_msg list result" where
  "proto_loop put16 ifname fw [] c = Inr c"
| "proto_loop put16 ifname fw (proto # protos) c =
     bindR (proto_number proto) (\<lambda>p.
     bindR (parsePort (Port fw)) (\<lambda>(min, max).
     bindR (parsePort (DestPort fw)) (\<lambda>(dmin, dmax).
       proto_loop put16 ifname fw protos
         (c @ [AddRule IPv4Family ''nat'' ''prerouting''
                 (portForwardExpr put16 ifname p min max (ParseIP (DestAddr fw)) dmin dmax)]))))"

fun forwardings_loop ::
    "(16 word \<Rightarrow> bytes) \<Rightarrow> string \<Rightarrow> portForwarding list \<Rightarrow> nf_msg list \<Rightarrow> nf_msg list result" where
  "forwardings_loop put16 ifname [] c = Inr c"
| "forwardings_loop put16 ifname (fw # fws) c =
     bindR (proto_loop put16 ifname fw (split_on CHR '','' (Proto fw)) c) (\<lambda>c.
       forwardings_loop put16 ifname fws c)"

definition applyPortForwardings ::
    "(16 word \<Rightarrow> bytes) \<Rightarrow> portForwarding list json_file \<Rightarrow> string \<Rightarrow> nf_msg list \<Rightarrow> nf_msg list result" where
  "applyPortForwardings put16 cfg ifname c =
     (case cfg of
        NotExist \<Rightarrow> Inr c
      | Unreadable e \<Rightarrow> Inl e
      | Decoded fws \<Rightarrow> forwardings_loop put16 ifname fws c)"

section \<open>The ruleset\<close>

datatype nf_obj = ObjCounter CounterObj | ObjOther

definition getCounterObj :: "CounterObj \<Rightarrow> nf_obj list result \<Rightarrow> CounterObj \<Rightarrow> CounterObj" where
  "getCounterObj dflt getObj o' =
     (let reset = o'\<lparr>Bytes := Bytes dflt, Packets := Packets dflt\<rparr> in
      case getObj of
        Inl _ \<Rightarrow> reset
      | Inr objs \<Rightarrow>
          (let filtered = filter (\<lambda>obj. case obj of ObjCounter co \<Rightarrow> snd (co_table co) = snd (co_table o')
                                          | ObjOther \<Rightarrow> False) objs in
           if length filtered \<noteq> 1 then reset
           else case filtered ! 0 of ObjCounter co \<Rightarrow> co | ObjOther \<Rightarrow> reset))"

definition masquerade :: "string \<Rightarrow> nf_expr list" where
  "masquerade ifname = [Meta MetaKeyOIFNAME 1, Cmp CmpOpEq 1 (nfifname ifname), Masq]"

definition clamp_mss :: "string \<Rightarrow> nf_expr list" where
  "clamp_mss ifname =
     [Meta MetaKeyOIFNAME 1, Cmp CmpOpEq 1 (nfifname ifname),
      Meta MetaKeyL4PROTO 1, Cmp CmpOpEq 1 [IPPROTO_TCP],
      Payload 1 13 1, Bitwise 1 1 1 [0x02] [0x00], Cmp CmpOpNeq 1 [0x00],
      RtTCPMSS 1, ByteorderHton 1 1 2 2, ExthdrTcpopt 1 2 2 2]"

definition add_filter :: "CounterObj \<Rightarrow> (family \<Rightarrow> nf_obj list result) \<Rightarrow> string \<Rightarrow> nf_msg list \<Rightarrow> family \<Rightarrow> nf_msg list" where
  "add_filter dflt getObj ifname c fam =
     (let counter = getCounterObj dflt (getObj fam)
                      \<lparr>co_table = (fam, ''filter''), co_name = ''fwded'', Bytes = 0, Packets = 0\<rparr> in
      c @ [AddChain fam ''filter'' ''forward'' HookForward ChainTypeFilter,
           AddRule fam ''filter'' ''forward'' (clamp_mss ifname),
           AddObj counter,
           AddRule fam ''filter'' ''forward'' [Objref 1 (co_name counter)]])"

text \<open>
  \<open>applyFirewall\<close> returns what it hands to \<open>Flush\<close>, or the error that keeps it from getting there;
  \<open>Flush\<close> itself is the kernel's answer.
\<close>

definition firewall_msgs ::
    "(16 word \<Rightarrow> bytes) \<Rightarrow> CounterObj \<Rightarrow> (family \<Rightarrow> nf_obj list result) \<Rightarrow> portForwarding list json_file \<Rightarrow> string \<Rightarrow> nf_msg list result" where
  "firewall_msgs put16 dflt getObj cfg ifname =
     (let c = [FlushRuleset,
               AddTable IPv4Family ''nat'',
               AddChain IPv4Family ''nat'' ''prerouting'' HookPrerouting ChainTypeNAT,
               AddChain IPv4Family ''nat'' ''postrouting'' HookPostrouting ChainTypeNAT,
               AddRule IPv4Family ''nat'' ''postrouting'' (masquerade ifname)] in
      bindR (applyPortForwardings put16 cfg ifname c) (\<lambda>c.
        let c = c @ [AddTable IPv4Family ''filter'', AddTable IPv6Family ''filter''] in
        Inr (foldl (add_filter dflt getObj ifname) c [IPv4Family, IPv6Family])))"

definition applyFirewall ::
    "(16 word \<Rightarrow> bytes) \<Rightarrow> CounterObj \<Rightarrow> (family \<Rightarrow> nf_obj list result) \<Rightarrow> (nf_msg list \<Rightarrow> unit result) \<Rightarrow>
     portForwarding list json_file \<Rightarrow> string \<Rightarrow> nf_msg list \<Rightarrow> nf_msg list \<times> unit result" where
  "applyFirewall put16 dflt getObj Flush cfg ifname ruleset =
     (case firewall_msgs put16 dflt getObj cfg ifname of
        Inl e \<Rightarrow> (ruleset, Inl e)
      | Inr msgs \<Rightarrow> (case Flush msgs of Inl e \<Rightarrow> (ruleset, Inl e) | Inr _ \<Rightarrow> (msgs, Inr ())))"

section \<open>What the kernel does with a rule\<close>

text \<open>
  A packet, as far as the rules look at it, and the state of one rule's evaluation: the registers
  and the destination that a NAT expression has chosen. An expression maps the state to the next
  one, or to None when the rule does not apply to the packet.
\<close>

record nf_packet =
  iif :: bytes
  oif :: bytes
  l4proto :: byte
  transport :: bytes

record nf_state =
  regs :: "nat \<Rightarrow> bytes"
  dnat :: "(bytes \<times> bytes \<times> bytes) option"

type_synonym nf_kernel = "nf_packet \<Rightarrow> nf_expr \<Rightarrow> nf_state \<Rightarrow> nf_state option"

text \<open>
  Documented behaviour of the expressions of a port forwarding: loads fill a register, comparisons
  compare a register with constant bytes in network order, a destination NAT takes address and
  port range from registers.
\<close>

definition nf_ok :: "(16 word \<Rightarrow> bytes) \<Rightarrow> nf_kernel \<Rightarrow> bool" where
  "nf_ok put16 exec \<longleftrightarrow>
     (\<forall>w. length (put16 w) = 2 \<and> be_val (put16 w) = unat w) \<and>
     (\<forall>p r s. exec p (Meta MetaKeyIIFNAME r) s = Some (s\<lparr>regs := (regs s)(r := iif p)\<rparr>) \<and>
        exec p (Meta MetaKeyOIFNAME r) s = Some (s\<lparr>regs := (regs s)(r := oif p)\<rparr>) \<and>
        exec p (Meta MetaKeyL4PROTO r) s = Some (s\<lparr>regs := (regs s)(r := [l4proto p])\<rparr>)) \<and>
     (\<forall>p r d s. exec p (Cmp CmpOpEq r d) s = (if regs s r = d then Some s else None) \<and>
        exec p (Cmp CmpOpGte r d) s = (if be_val d \<le> be_val (regs s r) then Some s else None) \<and>
        exec p (Cmp CmpOpLte r d) s = (if be_val (regs s r) \<le> be_val d then Some s else None)) \<and>
     (\<forall>p r off len s. exec p (Payload r off len) s =
        (if off + len \<le> length (transport p)
         then Some (s\<lparr>regs := (regs s)(r := take len (drop off (transport p)))\<rparr>) else None)) \<and>
     (\<forall>p r d s. exec p (Immediate r d) s = Some (s\<lparr>regs := (regs s)(r := d)\<rparr>)) \<and>
     (\<forall>p a lo hi s. exec p (NAT a lo hi) s =
        Some (s\<lparr>dnat := Some (regs s a, regs s lo, regs s (if hi = 0 then lo else hi))\<rparr>))"

fun run_rule :: "nf_kernel \<Rightarrow> nf_packet \<Rightarrow> nf_expr list \<Rightarrow> nf_state \<Rightarrow> nf_state option" where
  "run_rule exec p [] s = Some s"
| "run_rule exec p (e # es) s = (case exec p e s of None \<Rightarrow> None | Some s' \<Rightarrow> run_rule exec p es s')"

definition nf_start :: nf_state where
  "nf_start = \<lparr>regs = (\<lambda>_. []), dnat = None\<rparr>"

text \<open>The first rule of a chain that chooses a destination ends the chain.\<close>

fun run_chain :: "nf_kernel \<Rightarrow> nf_packet \<Rightarrow> nf_expr list list \<Rightarrow> (bytes \<times> bytes \<times> bytes) option" where
  "run_chain exec p [] = None"
| "run_chain exec p (r # rs) =
     (case run_rule exec p r nf_start of
        None \<Rightarrow> run_chain exec p rs
      | Some s \<Rightarrow> (case dnat s of None \<Rightarrow> run_chain exec p rs | Some d \<Rightarrow> Some d))"

definition rules_of :: "family \<Rightarrow> string \<Rightarrow> string \<Rightarrow> nf_msg list \<Rightarrow> nf_expr list list" where
  "rules_of fam tbl ch msgs =
     concat (map (\<lambda>m. case m of AddRule f t c es \<Rightarrow> if f = fam \<and> t = tbl \<and> c = ch then [es] else [] | _ \<Rightarrow> []) msgs)"

text \<open>A concrete kernel of this kind.\<close>

definition plain_put16 :: "16 word \<Rightarrow> bytes" where
  "plain_put16 w = [of_nat (unat w div 256), of_nat (unat w)]"

fun plain_exec :: nf_kernel where
  "plain_exec p (Meta MetaKeyIIFNAME r) s = Some (s\<lparr>regs := (regs s)(r := iif p)\<rparr>)"
| "plain_exec p (Meta MetaKeyOIFNAME r) s = Some (s\<lparr>regs := (regs s)(r := oif p)\<rparr>)"
| "plain_exec p (Meta MetaKeyL4PROTO r) s = Some (s\<lparr>regs := (regs s)(r := [l4proto p])\<rparr>)"
| "plain_exec p (Cmp op r d) s =
     (if (case op of CmpOpEq \<Rightarrow> regs s r = d | CmpOpNeq \<Rightarrow> regs s r \<noteq> d
          | CmpOpGte \<Rightarrow> be_val d \<le> be_val (regs s r) | CmpOpLte \<Rightarrow> be_val (regs s r) \<le> be_val d)
      then Some s else None)"
| "plain_exec p (Payload r off len) s =
     (if off + len \<le> length (transport p)
      then Some (s\<lparr>regs := (regs s)(r := take len (drop off (transport p)))\<rparr>) else None)"
| "plain_exec p (Immediate r d) s = Some (s\<lparr>regs := (regs s)(r := d)\<rparr>)"
| "plain_exec p (NAT a lo hi) s =
     Some (s\<lparr>dnat := Some (regs s a, regs s lo, regs s (if hi = 0 then lo else hi))\<rparr>)"
| "plain_exec p e s = Some s"

lemma nf_ok_plain: "nf_ok plain_put16 plain_exec"
proof -
  have "be_val (plain_put16 w) = unat w" for w
  proof -
    have "unat w < 65536" using unsigned_less [of w] by simp
    then show ?thesis
      by (simp add: plain_put16_def be_val_def unat_of_nat_byte unsigned_ucast_eq take_bit_eq_mod)
  qed
  then show ?thesis by (simp add: nf_ok_def plain_put16_def)
qed

section \<open>One rule\<close>

lemma be_val_inj2:
  assumes "length xs = 2" "length ys = 2" "be_val xs = be_val ys"
  shows "xs = ys"
proof -
  have "be_val ([0, 0] @ xs) = be_val ([0, 0] @ ys)" using assms(3) by (simp add: be_val_def)
  with be_val_inj4 [of "[0, 0] @ xs" "[0, 0] @ ys"] assms(1,2) show ?thesis by simp
qed

definition dport :: "nf_packet \<Rightarrow> nat" where
  "dport p = be_val (take 2 (drop 2 (transport p)))"

definition port_match :: "string \<Rightarrow> byte \<Rightarrow> 16 word \<Rightarrow> 16 word \<Rightarrow> nf_packet \<Rightarrow> bool" where
  "port_match ifname proto mn mx p \<longleftrightarrow>
     iif p = nfifname ifname \<and> l4proto p = proto \<and> 4 \<le> length (transport p) \<and>
     unat mn \<le> dport p \<and> dport p \<le> unat mx"

lemma nf_okD:
  assumes "nf_ok put16 exec"
  shows "length (put16 w) = 2" "be_val (put16 w) = unat w"
    "exec p (Meta MetaKeyIIFNAME r) s = Some (s\<lparr>regs := (regs s)(r := iif p)\<rparr>)"
    "exec p (Meta MetaKeyOIFNAME r) s = Some (s\<lparr>regs := (regs s)(r := oif p)\<rparr>)"
    "exec p (Meta MetaKeyL4PROTO r) s = Some (s\<lparr>regs := (regs s)(r := [l4proto p])\<rparr>)"
    "exec p (Cmp CmpOpEq r d) s = (if regs s r = d then Some s else None)"
    "exec p (Cmp CmpOpGte r d) s = (if be_val d \<le> be_val (regs s r) then Some s else None)"
    "exec p (Cmp CmpOpLte r d) s = (if be_val (regs s r) \<le> be_val d then Some s else None)"
    "exec p (Payload r off len) s =
        (if off + len \<le> length (transport p)
         then Some (s\<lparr>regs := (regs s)(r := take len (drop off (transport p)))\<rparr>) else None)"
    "exec p (Immediate r d) s = Some (s\<lparr>regs := (regs s)(r := d)\<rparr>)"
    "exec p (NAT a lo hi) s =
        Some (s\<lparr>dnat := Some (regs s a, regs s lo, regs s (if hi = 0 then lo else hi))\<rparr>)"
  using assms by (simp_all add: nf_ok_def)

lemma run_rule_forward:
  assumes "nf_ok put16 exec"
  shows "map_option dnat (run_rule exec p (portForwardExpr put16 ifname proto mn mx dest dmn dmx) nf_start) =
    (if port_match ifname proto mn mx p then Some (Some (To4 dest, put16 dmn, put16 dmx)) else None)"
proof -
  note ok = nf_okD [OF assms]
  have eq: "take 2 (drop 2 (transport p)) = put16 w \<longleftrightarrow> dport p = unat w" if "4 \<le> length (transport p)" for w
    using be_val_inj2 [of "take 2 (drop 2 (transport p))" "put16 w"] that ok(1,2) by (auto simp: dport_def)
  show ?thesis
    by (auto simp: portForwardExpr_def Let_def nf_start_def ok eq port_match_def dport_def [symmetric]
        split: if_splits)
qed

lemma run_chain_Cons:
  "run_chain exec p (r # rs) =
     (case map_option dnat (run_rule exec p r nf_start) of Some (Some d) \<Rightarrow> Some d | _ \<Rightarrow> run_chain exec p rs)"
  by (simp split: option.split)

declare run_chain.simps(2) [simp del]

section \<open>All forwardings\<close>

text \<open>The entries of the configuration, one per protocol, and what each asks for.\<close>

definition entries :: "portForwarding list \<Rightarrow> (portForwarding \<times> string) list" where
  "entries fws = concat (map (\<lambda>fw. map (Pair fw) (split_on CHR '','' (Proto fw))) fws)"

definition entry_spec ::
    "portForwarding \<times> string \<Rightarrow> (byte \<times> 16 word \<times> 16 word \<times> 16 word \<times> 16 word) result" where
  "entry_spec e =
     bindR (proto_number (snd e)) (\<lambda>p.
     bindR (parsePort (Port (fst e))) (\<lambda>(mn, mx).
     bindR (parsePort (DestPort (fst e))) (\<lambda>(dmn, dmx). Inr (p, mn, mx, dmn, dmx))))"

definition entry_rule :: "(16 word \<Rightarrow> bytes) \<Rightarrow> string \<Rightarrow> portForwarding \<times> string \<Rightarrow> nf_msg" where
  "entry_rule put16 ifname e =
     (case projr (entry_spec e) of (p, mn, mx, dmn, dmx) \<Rightarrow>
        AddRule IPv4Family ''nat'' ''prerouting''
          (portForwardExpr put16 ifname p mn mx (ParseIP (DestAddr (fst e))) dmn dmx))"

fun first_error :: "(portForwarding \<times> string) list \<Rightarrow> fault option" where
  "first_error [] = None"
| "first_error (e # es) = (case entry_spec e of Inl f \<Rightarrow> Some f | Inr _ \<Rightarrow> first_error es)"

lemma first_error_append:
  "first_error (xs @ ys) = (case first_error xs of None \<Rightarrow> first_error ys | Some f \<Rightarrow> Some f)"
  by (induction xs) (auto split: sum.split)

lemma proto_loop_eq:
  "proto_loop put16 ifname fw protos c =
     (case first_error (map (Pair fw) protos) of
        Some f \<Rightarrow> Inl f | None \<Rightarrow> Inr (c @ map (entry_rule put16 ifname) (map (Pair fw) protos)))"
proof (induction protos arbitrary: c)
  case (Cons proto protos)
  show ?case
  proof (cases "entry_spec (fw, proto)")
    case (Inl f)
    then show ?thesis
      by (auto simp: entry_spec_def bindR_eq_Inl bindR_def split: sum.splits prod.splits)
  next
    case (Inr r)
    obtain p mn mx dmn dmx where r: "r = (p, mn, mx, dmn, dmx)" by (cases r)
    then have parts: "proto_number proto = Inr p" "parsePort (Port fw) = Inr (mn, mx)"
      "parsePort (DestPort fw) = Inr (dmn, dmx)"
      using Inr by (auto simp: entry_spec_def bindR_eq_Inr)
    then show ?thesis
      using Inr r by (simp add: Cons.IH entry_rule_def split: option.split)
  qed
qed simp

lemma forwardings_loop_eq:
  "forwardings_loop put16 ifname fws c =
     (case first_error (entries fws) of
        Some f \<Rightarrow> Inl f | None \<Rightarrow> Inr (c @ map (entry_rule put16 ifname) (entries fws)))"
proof (induction fws arbitrary: c)
  case (Cons fw fws)
  have "entries (fw # fws) = map (Pair fw) (split_on CHR '','' (Proto fw)) @ entries fws"
    by (simp add: entries_def)
  then show ?case
    by (simp add: proto_loop_eq first_error_append Cons.IH split: option.split)
qed (simp add: entries_def)

definition entry_match :: "string \<Rightarrow> nf_packet \<Rightarrow> portForwarding \<times> string \<Rightarrow> bool" where
  "entry_match ifname p e =
     (case entry_spec e of Inl _ \<Rightarrow> False | Inr (pr, mn, mx, dmn, dmx) \<Rightarrow> port_match ifname pr mn mx p)"

definition entry_target :: "(16 word \<Rightarrow> bytes) \<Rightarrow> portForwarding \<times> string \<Rightarrow> bytes \<times> bytes \<times> bytes" where
  "entry_target put16 e =
     (case projr (entry_spec e) of (p, mn, mx, dmn, dmx) \<Rightarrow>
        (To4 (ParseIP (DestAddr (fst e))), put16 dmn, put16 dmx))"

lemma rules_of_append [simp]: "rules_of f t c (xs @ ys) = rules_of f t c xs @ rules_of f t c ys"
  by (simp add: rules_of_def)

lemma run_chain_entries:
  assumes "nf_ok put16 exec" "first_error es = None"
  shows "run_chain exec p (rules_of IPv4Family ''nat'' ''prerouting'' (map (entry_rule put16 ifname) es)) =
    map_option (entry_target put16) (find (entry_match ifname p) es)"
  using assms(2)
proof (induction es)
  case (Cons e es)
  then obtain pr mn mx dmn dmx where e: "entry_spec e = Inr (pr, mn, mx, dmn, dmx)"
    by (auto split: sum.splits)
  then have "rules_of IPv4Family ''nat'' ''prerouting'' (map (entry_rule put16 ifname) (e # es)) =
      portForwardExpr put16 ifname pr mn mx (ParseIP (DestAddr (fst e))) dmn dmx #
      rules_of IPv4Family ''nat'' ''prerouting'' (map (entry_rule put16 ifname) es)"
    by (simp add: rules_of_def entry_rule_def)
  then show ?case
    using Cons e by (simp add: run_chain_Cons run_rule_forward [OF assms(1)] entry_match_def entry_target_def)
qed (simp add: rules_of_def)

lemma firewall_msgs_eq:
  "firewall_msgs put16 dflt getObj (Decoded fws) ifname =
     (case first_error (entries fws) of
        Some f \<Rightarrow> Inl f
      | None \<Rightarrow> Inr
          ([FlushRuleset, AddTable IPv4Family ''nat'',
            AddChain IPv4Family ''nat'' ''prerouting'' HookPrerouting ChainTypeNAT,
            AddChain IPv4Family ''nat'' ''postrouting'' HookPostrouting ChainTypeNAT,
            AddRule IPv4Family ''nat'' ''postrouting'' (masquerade ifname)] @
           map (entry_rule put16 ifname) (entries fws) @
           foldl (add_filter dflt getObj ifname) [AddTable IPv4Family ''filter'', AddTable IPv6Family ''filter'']
             [IPv4Family, IPv6Family]))"
  by (simp add: firewall_msgs_def applyPortForwardings_def forwardings_loop_eq add_filter_def Let_def
      split: option.split)

section \<open>Properties\<close>

text \<open>
  C3. Once the ruleset is committed, a packet that arrives on the uplink is redirected as its first
  matching forwarding says (protocol and port range of the entry, in the order of the file, one
  entry per protocol), to the address and port range of that entry; any other packet is left alone.
\<close>

theorem forwarding_correct:
  assumes "nf_ok put16 exec"
    and "applyFirewall put16 dflt getObj Flush (Decoded fws) ifname ruleset = (msgs, Inr ())"
  shows "run_chain exec p (rules_of IPv4Family ''nat'' ''prerouting'' msgs) =
    map_option (entry_target put16) (find (entry_match ifname p) (entries fws))"
proof -
  have ok: "first_error (entries fws) = None" and msgs: "msgs =
      [FlushRuleset, AddTable IPv4Family ''nat'',
        AddChain IPv4Family ''nat'' ''prerouting'' HookPrerouting ChainTypeNAT,
        AddChain IPv4Family ''nat'' ''postrouting'' HookPostrouting ChainTypeNAT,
        AddRule IPv4Family ''nat'' ''postrouting'' (masquerade ifname)] @
       map (entry_rule put16 ifname) (entries fws) @
       foldl (add_filter dflt getObj ifname) [AddTable IPv4Family ''filter'', AddTable IPv6Family ''filter'']
         [IPv4Family, IPv6Family]"
    using assms(2) by (auto simp: applyFirewall_def firewall_msgs_eq split: option.splits sum.splits)
  have "rules_of IPv4Family ''nat'' ''prerouting'' msgs =
      rules_of IPv4Family ''nat'' ''prerouting'' (map (entry_rule put16 ifname) (entries fws))"
    by (simp add: msgs) (simp add: rules_of_def add_filter_def Let_def)
  then show ?thesis using run_chain_entries [OF assms(1) ok] by simp
qed

definition demo_fws :: "portForwarding list" where
  "demo_fws = [\<lparr>Proto = ''tcp,udp'', Port = itoa 8080 @ ''-'' @ itoa 8090,
     DestAddr = IP4_String [192, 168, 42, 2], DestPort = itoa 80\<rparr>]"

lemma demo_entry: "pr = ''tcp'' \<or> pr = ''udp'' \<Longrightarrow>
    entry_spec (demo_fws ! 0, pr) = Inr (if pr = ''tcp'' then 6 else 17, 8080, 8090, 80, 80)"
  using parsePort_decimal [of 8080 8090] parsePort_decimal(1) [of 80 80]
  by (auto simp: entry_spec_def demo_fws_def proto_number_def IPPROTO_TCP_def IPPROTO_UDP_def)

lemma demo_entries: "entries demo_fws = [(demo_fws ! 0, ''tcp''), (demo_fws ! 0, ''udp'')]"
  by (simp add: entries_def demo_fws_def)

lemma demo_commit:
  "\<exists>msgs. applyFirewall plain_put16 dflt getObj (\<lambda>_. Inr ()) (Decoded demo_fws) ifname ruleset = (msgs, Inr ())"
  using demo_entry by (simp add: applyFirewall_def firewall_msgs_eq demo_entries)

lemma forwarding_correct_witness:
  "\<exists>msgs. run_chain plain_exec \<lparr>iif = nfifname ''uplink0'', oif = [], l4proto = 17, transport = [0, 53, 0x1f, 0x92, 0]\<rparr>
     (rules_of IPv4Family ''nat'' ''prerouting'' msgs) = Some ([192, 168, 42, 2], [0, 80], [0, 80])"
proof -
  obtain msgs where msgs: "applyFirewall plain_put16 (\<lparr>co_table = (IPv4Family, []), co_name = [], Bytes = 0, Packets = 0\<rparr>)
      (\<lambda>_. Inr []) (\<lambda>_. Inr ()) (Decoded demo_fws) ''uplink0'' [] = (msgs, Inr ())"
    using demo_commit by blast
  have dest: "To4 (ParseIP (DestAddr (demo_fws ! 0))) = [192, 168, 42, 2]"
    using ParseIP_String [of "[192, 168, 42, 2]"] by (simp add: demo_fws_def To4_def)
  show ?thesis
    using forwarding_correct [OF nf_ok_plain msgs, of "\<lparr>iif = nfifname ''uplink0'', oif = [], l4proto = 17, transport = [0, 53, 0x1f, 0x92, 0]\<rparr>"]
      demo_entry dest
    by (intro exI [of _ msgs])
      (simp add: demo_entries entry_match_def entry_target_def port_match_def dport_def be_val_def plain_put16_def)
qed



end
