(* ===== verification/Dhcp4Client.thy ===== *)
theory Dhcp4Client
  imports NetText
begin

text \<open>
  \<open>dhcp/dhcp4/dhcp4.go\<close>: the DHCPv4 client. The packages \<open>rtr7/dhcp4\<close> (options, decoding of an
  ACK) and the socket are parameters: a read delivers a packet, something that is not DHCPv4, or
  an error, and once the packets that arrive before the read deadline are used up it fails with
  EAGAIN. An operation returns the new client and the packets it
  handed to the socket.
\<close>

section \<open>Data\<close>

record DHCPOption =
  o_Type :: byte
  o_Data :: bytes

text \<open>\<open>layers.DHCPv4\<close>, without the two strings that the client never sets.\<close>

record DHCPv4 =
  Operation :: nat
  HardwareType :: nat
  HardwareLen :: byte
  HardwareOpts :: byte
  Xid :: "32 word"
  Secs :: "16 word"
  Flags :: "16 word"
  ClientIP :: bytes
  YourClientIP :: bytes
  ClientHWAddr :: bytes
  Options4 :: "DHCPOption list"

text \<open>The lease as it is stored in \<open>lease.json\<close>.\<close>

record Dhcp4Config =
  c4_RenewAfter :: time
  c4_ClientIP :: string
  c4_SubnetMask :: string
  c4_Router :: string
  c4_DNS :: "string list"

record Lease4 =
  l4_Netmask :: bytes
  l4_Router :: bytes
  l4_DNS :: "bytes list"
  l4_RenewalTime :: duration

datatype MsgType = MsgDiscover | MsgOffer | MsgRequest | MsgAck | MsgNak | MsgRelease

record dhcp4_pkg =
  MessageTypeOpt :: "MsgType \<Rightarrow> DHCPOption"
  HostnameOpt :: "string \<Rightarrow> DHCPOption"
  ClientIDOpt :: "nat \<Rightarrow> bytes \<Rightarrow> DHCPOption"
  ParamsRequestOpt :: DHCPOption
  RequestIPOpt :: "bytes \<Rightarrow> DHCPOption"
  HasMessageType :: "DHCPOption list \<Rightarrow> MsgType \<Rightarrow> bool"
  LeaseFromACK :: "DHCPv4 \<Rightarrow> Lease4"
  XIDGenerator :: "bytes \<Rightarrow> nat \<Rightarrow> 32 word"

text \<open>The errors of \<open>dhcpRequest\<close>: the errno EAGAIN, the value \<open>errNAK\<close>, any other.\<close>

datatype dhcp_err = EAGAIN | errNAK | OtherErr string

datatype read4 = Packet DHCPv4 | NotDhcp | Failed dhcp_err

text \<open>
  \<open>Interface4\<close> is the hardware address of the interface, if there is one; \<open>generateXID\<close> a
  generator with the number of identifiers drawn from it.
\<close>

record Client4 =
  Interface4 :: "bytes option"
  HWAddr :: "bytes option"
  err4 :: "string option"
  once4 :: bool
  onceErr :: "string option"
  connection :: bool
  hardwareAddr :: "bytes option"
  hostname :: string
  cfg4 :: Dhcp4Config
  generateXID :: "(nat \<Rightarrow> 32 word) option"
  xids :: nat
  Ack :: "DHCPv4 option"

text \<open>What the environment answers during one call.\<close>

record env4 =
  listen4 :: "string option"
  uname :: "string + bytes"
  now4 :: time
  write_discover :: "dhcp_err option"
  in_offer :: "read4 list"
  write_request :: "dhcp_err option"
  in_ack :: "read4 list"
  write_release :: "dhcp_err option"

section \<open>Packets\<close>

definition OptServerID :: byte where "OptServerID = 54"

definition serverID :: "DHCPv4 \<Rightarrow> DHCPOption list" where
  "serverID pkt = (case find (\<lambda>x. o_Type x = OptServerID) (Options4 pkt) of None \<Rightarrow> [] | Some x \<Rightarrow> [x])"

definition hw_of :: "Client4 \<Rightarrow> bytes" where
  "hw_of c = (case hardwareAddr c of None \<Rightarrow> [] | Some a \<Rightarrow> a)"

definition packet4 :: "Client4 \<Rightarrow> 32 word \<Rightarrow> DHCPOption list \<Rightarrow> DHCPv4" where
  "packet4 c xid opts =
     \<lparr>Operation = 1, HardwareType = 1, HardwareLen = 6, HardwareOpts = 0, Xid = xid, Secs = 0, Flags = 0,
      ClientIP = [], YourClientIP = [],
      ClientHWAddr = hw_of c, Options4 = opts\<rparr>"

section \<open>One exchange\<close>

fun await_offer :: "dhcp4_pkg \<Rightarrow> 32 word \<Rightarrow> read4 list \<Rightarrow> dhcp_err + DHCPv4" where
  "await_offer lib xid [] = Inl EAGAIN"
| "await_offer lib xid (r # rs) =
     (case r of
        Failed e \<Rightarrow> Inl e
      | NotDhcp \<Rightarrow> await_offer lib xid rs
      | Packet offer \<Rightarrow>
          if Xid offer \<noteq> xid then await_offer lib xid rs
          else if \<not> HasMessageType lib (Options4 offer) MsgOffer then await_offer lib xid rs
          else Inr offer)"

fun await_ack :: "dhcp4_pkg \<Rightarrow> 32 word \<Rightarrow> read4 list \<Rightarrow> dhcp_err + DHCPv4" where
  "await_ack lib xid [] = Inl EAGAIN"
| "await_ack lib xid (r # rs) =
     (case r of
        Failed e \<Rightarrow> Inl e
      | NotDhcp \<Rightarrow> await_ack lib xid rs
      | Packet ack \<Rightarrow>
          if Xid ack \<noteq> xid then await_ack lib xid rs
          else if \<not> HasMessageType lib (Options4 ack) MsgAck then
            if HasMessageType lib (Options4 ack) MsgNak then Inl errNAK else await_ack lib xid rs
          else Inr ack)"

text \<open>\<open>c.generateXID()\<close>: calling a nil function panics.\<close>

definition draw_xid :: "Client4 \<Rightarrow> (32 word \<times> Client4) result" where
  "draw_xid c =
     (case generateXID c of
        None \<Rightarrow> Inl (Panic ''nil pointer dereference'')
      | Some g \<Rightarrow> Inr (g (xids c), c\<lparr>xids := xids c + 1\<rparr>))"

definition discover_packet :: "dhcp4_pkg \<Rightarrow> Client4 \<Rightarrow> 32 word \<Rightarrow> DHCPv4" where
  "discover_packet lib c xid =
     packet4 c xid
       [MessageTypeOpt lib MsgDiscover, HostnameOpt lib (hostname c), ClientIDOpt lib 1 (hw_of c), ParamsRequestOpt lib]"

definition request_packet :: "dhcp4_pkg \<Rightarrow> Client4 \<Rightarrow> DHCPv4 \<Rightarrow> DHCPv4" where
  "request_packet lib c l =
     packet4 c (Xid l)
       ([MessageTypeOpt lib MsgRequest, RequestIPOpt lib (YourClientIP l), HostnameOpt lib (hostname c),
         ClientIDOpt lib 1 (hw_of c), ParamsRequestOpt lib] @ serverID l)"

text \<open>The part of \<open>dhcpRequest\<close> that finds the packet to build the DHCPREQUEST from.\<close>

definition find_offer ::
    "dhcp4_pkg \<Rightarrow> env4 \<Rightarrow> Client4 \<Rightarrow> (Client4 \<times> DHCPv4 list \<times> (dhcp_err + DHCPv4)) result" where
  "find_offer lib env c =
     (case Ack c of
        Some a \<Rightarrow> Inr (c, [], Inr a)
      | None \<Rightarrow>
          bindR (draw_xid c) (\<lambda>(xid, c).
            let discover = discover_packet lib c xid in
            Inr (c, [discover],
                 case write_discover env of
                   Some e \<Rightarrow> Inl e
                 | None \<Rightarrow> await_offer lib (Xid discover) (in_offer env))))"

definition dhcpRequest ::
    "dhcp4_pkg \<Rightarrow> env4 \<Rightarrow> Client4 \<Rightarrow> (Client4 \<times> DHCPv4 list \<times> (dhcp_err + DHCPv4)) result" where
  "dhcpRequest lib env c =
     bindR (find_offer lib env c) (\<lambda>(c, sent, found).
       case found of
         Inl e \<Rightarrow> Inr (c, sent, Inl e)
       | Inr l \<Rightarrow>
           let request = request_packet lib c l in
           Inr (c, sent @ [request],
                case write_request env of
                  Some e \<Rightarrow> Inl e
                | None \<Rightarrow> await_ack lib (Xid request) (in_ack env)))"

section \<open>ObtainOrRenew\<close>

text \<open>The body of \<open>c.once.Do\<close>, with its steps for the hardware address and the hostname.\<close>

definition find_hw :: "Client4 \<Rightarrow> Client4 result" where
  "find_hw c =
     (let c = (if hardwareAddr c = None \<and> HWAddr c \<noteq> None then c\<lparr>hardwareAddr := HWAddr c\<rparr> else c) in
      if hardwareAddr c = None then
        (case Interface4 c of
           None \<Rightarrow> Inl (Panic ''nil pointer dereference'')
         | Some mac \<Rightarrow> Inr (c\<lparr>hardwareAddr := Some mac\<rparr>))
      else Inr c)"

definition find_hostname :: "env4 \<Rightarrow> Client4 \<Rightarrow> Client4 result" where
  "find_hostname env c =
     (if hostname c \<noteq> '''' then Inr c
      else case uname env of
          Inl e \<Rightarrow> Inr (c\<lparr>onceErr := Some e\<rparr>)
        | Inr node \<Rightarrow>
            if 0 \<notin> set node then Inl (Panic ''slice bounds out of range'')
            else Inr (c\<lparr>hostname := map (\<lambda>b. char_of (unat b)) (takeWhile (\<lambda>b. b \<noteq> 0) node)\<rparr>))"

definition once_body :: "dhcp4_pkg \<Rightarrow> env4 \<Rightarrow> Client4 \<Rightarrow> Client4 result" where
  "once_body lib env c =
     (if \<not> connection c \<and> Interface4 c \<noteq> None \<and> listen4 env \<noteq> None then Inr (c\<lparr>onceErr := listen4 env\<rparr>)
      else if \<not> connection c \<and> Interface4 c = None then Inr (c\<lparr>onceErr := Some ''c.Interface is nil''\<rparr>)
      else
        bindR (find_hw (c\<lparr>connection := True\<rparr>)) (\<lambda>c.
          find_hostname env
            (if generateXID c = None then c\<lparr>generateXID := Some (XIDGenerator lib (hw_of c))\<rparr> else c)))"

definition run_once :: "dhcp4_pkg \<Rightarrow> env4 \<Rightarrow> Client4 \<Rightarrow> Client4 result" where
  "run_once lib env c = (if once4 c then Inr c else once_body lib env (c\<lparr>once4 := True\<rparr>))"

fun err_text :: "dhcp_err \<Rightarrow> string" where
  "err_text EAGAIN = ''resource temporarily unavailable''"
| "err_text errNAK = ''received DHCPNAK''"
| "err_text (OtherErr s) = s"

text \<open>\<open>Sprintf("%d.%d.%d.%d", mask[0], mask[1], mask[2], mask[3])\<close>\<close>

definition mask_String :: "bytes \<Rightarrow> string result" where
  "mask_String m = (if length m < 4 then Inl (Panic ''index out of range'') else Inr (IP4_String (take 4 m)))"

definition take_lease :: "Lease4 \<Rightarrow> time \<Rightarrow> DHCPv4 \<Rightarrow> Dhcp4Config \<Rightarrow> Dhcp4Config result" where
  "take_lease lease now ack cfg =
     (let cfg = cfg\<lparr>c4_ClientIP := IP_String (YourClientIP ack)\<rparr> in
      bindR (if l4_Netmask lease \<noteq> [] then bindR (mask_String (l4_Netmask lease)) (\<lambda>s. Inr (cfg\<lparr>c4_SubnetMask := s\<rparr>))
             else Inr cfg) (\<lambda>cfg.
      let cfg = (if l4_Router lease \<noteq> [] then cfg\<lparr>c4_Router := IP_String (l4_Router lease)\<rparr> else cfg);
          cfg = (if l4_DNS lease \<noteq> [] then cfg\<lparr>c4_DNS := map IP_String (l4_DNS lease)\<rparr> else cfg)
      in Inr (cfg\<lparr>c4_RenewAfter := now + l4_RenewalTime lease\<rparr>)))"

definition ObtainOrRenew ::
    "dhcp4_pkg \<Rightarrow> env4 \<Rightarrow> Client4 \<Rightarrow> (Client4 \<times> DHCPv4 list \<times> bool) result" where
  "ObtainOrRenew lib env c =
     bindR (run_once lib env c) (\<lambda>c.
     if onceErr c \<noteq> None then Inr (c\<lparr>err4 := onceErr c\<rparr>, [], False)
     else
       bindR (dhcpRequest lib env (c\<lparr>err4 := None\<rparr>)) (\<lambda>(c, sent, res).
       case res of
         Inl EAGAIN \<Rightarrow> Inr (c\<lparr>err4 := Some ''DHCP: timeout (server(s) unreachable)''\<rparr>, sent, True)
       | Inl e \<Rightarrow>
           let c = (if e = errNAK then c\<lparr>Ack := None\<rparr> else c) in
           Inr (c\<lparr>err4 := Some (''DHCP: '' @ err_text e)\<rparr>, sent, True)
       | Inr ack \<Rightarrow>
           bindR (take_lease (LeaseFromACK lib ack) (now4 env) ack (cfg4 c)) (\<lambda>cfg.
             Inr (c\<lparr>Ack := Some ack, cfg4 := cfg\<rparr>, sent, True))))"

text \<open>The accessors \<open>Err\<close> and \<open>Config\<close>.\<close>

definition Err4 :: "Client4 \<Rightarrow> string option" where
  [simp]: "Err4 c = err4 c"

definition Config4 :: "Client4 \<Rightarrow> Dhcp4Config" where
  [simp]: "Config4 c = cfg4 c"

definition Release4 :: "dhcp4_pkg \<Rightarrow> env4 \<Rightarrow> Client4 \<Rightarrow> (Client4 \<times> DHCPv4 list \<times> dhcp_err option) result" where
  "Release4 lib env c =
     bindR (draw_xid c) (\<lambda>(xid, c).
       case Ack c of
         None \<Rightarrow> Inl (Panic ''nil pointer dereference'')
       | Some a \<Rightarrow>
           let release = (packet4 c xid (MessageTypeOpt lib MsgRelease # serverID a))\<lparr>ClientIP := YourClientIP a\<rparr> in
           case write_release env of
             Some e \<Rightarrow> Inr (c, [release], Some e)
           | None \<Rightarrow> Inr (c\<lparr>Ack := None\<rparr>, [release], None))"

end
