(* ===== verification/Dhcp6Client.thy ===== *)
theory Dhcp6Client
  imports NetText
begin

text \<open>
  \<open>dhcp/dhcp6/dhcp6.go\<close>: the DHCPv6 client for prefix delegation. The package
  \<open>insomniacslk/dhcp\<close> (construction and decoding of messages) and the socket are parameters; a
  message is its type, its transaction identifier and what the accessors of the package return.
  As in the DHCPv4 client, a read beyond the messages that arrive in time fails.
\<close>

section \<open>Data\<close>

datatype MessageType6 =
  MsgNone | Solicit | Advertise | Request6 | Reply | Release6Msg
| RelayForward | RelayReply | LeaseQuery | LeaseQueryReply | OtherMsg byte

record iapd =
  IaId :: bytes
  T1 :: duration
  Status :: "(nat \<times> string) option"
  Prefixes :: "(bytes \<times> nat) list"

record Message6 =
  msg_type :: MessageType6
  TransactionID :: bytes
  msg_IAPD :: "iapd list"
  msg_DNS :: "bytes list"
  msg_ClientID :: "bytes option"
  msg_ServerID :: "bytes option"

record Dhcp6Config =
  c6_RenewAfter :: time
  c6_Prefixes :: "(bytes \<times> nat) list"
  c6_DNS :: "string list"

datatype Duid = DuidBytes bytes | DuidLLT time bytes

record UDPAddr =
  udp_IP :: bytes
  udp_Port :: nat
  udp_Zone :: string

record ClientConfig6 =
  InterfaceName :: string
  LocalAddr :: "UDPAddr option"
  RemoteAddr :: "UDPAddr option"
  DUID :: "bytes option"
  Conn_given :: bool
  TransactionIDs :: "bytes list"
  HardwareAddr6 :: "bytes option"

record Client6 =
  interfaceName :: string
  hardwareAddr6 :: bytes
  raddr :: UDPAddr
  bound_to :: "UDPAddr option"
  duid :: Duid
  advertise :: "Message6 option"
  cfg6 :: Dhcp6Config
  err6 :: "fault option"
  transactionIDs :: "bytes list"

record dhcp6_pkg =
  DuidFromBytes :: "bytes \<Rightarrow> Duid result"
  NewSolicit :: "bytes \<Rightarrow> Duid \<Rightarrow> bytes \<Rightarrow> Message6 result"
  NewRequestFromAdvertise :: "Message6 option \<Rightarrow> Duid \<Rightarrow> bytes \<Rightarrow> Message6 result"
  AddOption :: "iapd \<Rightarrow> Message6 \<Rightarrow> Message6"
  OneIAPD :: "Message6 \<Rightarrow> iapd option"
  AllDHCPRelayAgentsAndServers :: bytes

text \<open>The accessors \<open>Err\<close> and \<open>Config\<close>.\<close>

definition Err6 :: "Client6 \<Rightarrow> fault option" where
  [simp]: "Err6 c = err6 c"

definition Config6 :: "Client6 \<Rightarrow> Dhcp6Config" where
  [simp]: "Config6 c = cfg6 c"

datatype read6 = Message Message6 | NotDhcp6 | ReadErr string

text \<open>What the environment answers: identifiers drawn by the package, results of writes, messages received.\<close>

record env6 =
  xid_solicit :: bytes
  xid_request :: bytes
  write_solicit :: "string option"
  in_solicit :: "read6 list"
  write_req6 :: "string option"
  in_req6 :: "read6 list"
  now6 :: time

record net6 =
  iface_by_name :: "string \<Rightarrow> (nat \<times> bytes) result"
  link_local :: "string \<Rightarrow> bytes result"
  listen_udp :: "UDPAddr \<Rightarrow> unit result"
  get_time :: time

section \<open>NewClient\<close>

definition local_addr :: "net6 \<Rightarrow> ClientConfig6 \<Rightarrow> nat \<Rightarrow> UDPAddr result" where
  "local_addr net cfg idx =
     (case LocalAddr cfg of
        Some a \<Rightarrow> Inr a
      | None \<Rightarrow>
          bindR (link_local net (InterfaceName cfg)) (\<lambda>llAddr.
            Inr \<lparr>udp_IP = llAddr, udp_Port = 546, udp_Zone = itoa idx\<rparr>))"

definition NewClient6 :: "dhcp6_pkg \<Rightarrow> net6 \<Rightarrow> ClientConfig6 \<Rightarrow> Client6 result" where
  "NewClient6 lib net cfg =
     bindR (iface_by_name net (InterfaceName cfg)) (\<lambda>(idx, mac).
     bindR (local_addr net cfg idx) (\<lambda>laddr.
     let raddr = (case RemoteAddr cfg of
                    Some a \<Rightarrow> a
                  | None \<Rightarrow> \<lparr>udp_IP = AllDHCPRelayAgentsAndServers lib, udp_Port = 547, udp_Zone = ''''\<rparr>);
         hw = (case HardwareAddr6 cfg of Some a \<Rightarrow> a | None \<Rightarrow> mac) in
     bindR (case DUID cfg of Some b \<Rightarrow> DuidFromBytes lib b | None \<Rightarrow> Inr (DuidLLT (get_time net) hw)) (\<lambda>d.
     bindR (if Conn_given cfg then Inr None else bindR (listen_udp net laddr) (\<lambda>_. Inr (Some laddr))) (\<lambda>bound.
       Inr \<lparr>interfaceName = InterfaceName cfg, hardwareAddr6 = hw, raddr = raddr, bound_to = bound, duid = d,
            advertise = None, cfg6 = \<lparr>c6_RenewAfter = 0, c6_Prefixes = [], c6_DNS = []\<rparr>, err6 = None,
            transactionIDs = TransactionIDs cfg\<rparr>))))"

section \<open>sendReceive\<close>

definition expected :: "MessageType6 \<Rightarrow> MessageType6 \<Rightarrow> MessageType6" where
  "expected t sent =
     (if t = MsgNone then
        if sent = Solicit then Advertise
        else if sent = Request6 then Reply
        else if sent = RelayForward then RelayReply
        else if sent = LeaseQuery then LeaseQueryReply
        else t
      else t)"

fun receive :: "MessageType6 \<Rightarrow> bytes \<Rightarrow> read6 list \<Rightarrow> Message6 result" where
  "receive t xid [] = Inl (Err ''i/o timeout'')"
| "receive t xid (r # rs) =
     (case r of
        ReadErr e \<Rightarrow> Inl (Err e)
      | NotDhcp6 \<Rightarrow> receive t xid rs
      | Message adv \<Rightarrow>
          if xid \<noteq> TransactionID adv then receive t xid rs
          else if t = MsgNone then Inr adv
          else if msg_type adv = t then Inr adv
          else receive t xid rs)"

definition sendReceive ::
    "Message6 option \<Rightarrow> MessageType6 \<Rightarrow> string option \<Rightarrow> read6 list \<Rightarrow> Message6 result" where
  "sendReceive packet t write arriving =
     (case packet of
        None \<Rightarrow> Inl (Err ''packet to send cannot be nil'')
      | Some p \<Rightarrow>
          (case write of
             Some e \<Rightarrow> Inl (Err e)
           | None \<Rightarrow> receive (expected t (msg_type p)) (TransactionID p) arriving))"

section \<open>The operations\<close>

definition use_xid :: "Client6 \<Rightarrow> Message6 \<Rightarrow> Client6 \<times> Message6" where
  "use_xid c m =
     (case transactionIDs c of [] \<Rightarrow> (c, m) | t # ts \<Rightarrow> (c\<lparr>transactionIDs := ts\<rparr>, m\<lparr>TransactionID := t\<rparr>))"

definition solicit :: "dhcp6_pkg \<Rightarrow> env6 \<Rightarrow> Message6 option \<Rightarrow> Client6 \<Rightarrow> Client6 \<times> Message6 list \<times> Message6 result" where
  "solicit lib env given c =
     (case (case given of Some m \<Rightarrow> Inr m | None \<Rightarrow> NewSolicit lib (hardwareAddr6 c) (duid c) (xid_solicit env)) of
        Inl e \<Rightarrow> (c, [], Inl e)
      | Inr m \<Rightarrow>
          let (c, m) = use_xid c m;
              m = AddOption lib \<lparr>IaId = [0, 0, 0, 1], T1 = 0, Status = None, Prefixes = []\<rparr> m
          in (c, [m], sendReceive (Some m) MsgNone (write_solicit env) (in_solicit env)))"

definition request6 :: "dhcp6_pkg \<Rightarrow> env6 \<Rightarrow> Message6 \<Rightarrow> Client6 \<Rightarrow> Client6 \<times> Message6 list \<times> Message6 result" where
  "request6 lib env adv c =
     (case NewRequestFromAdvertise lib (Some adv) (duid c) (xid_request env) of
        Inl e \<Rightarrow> (c, [], Inl e)
      | Inr m \<Rightarrow>
          let m = (case OneIAPD lib adv of None \<Rightarrow> m | Some ia \<Rightarrow> AddOption lib ia m);
              (c, m) = use_xid c m
          in (c, [m], sendReceive (Some m) MsgNone (write_req6 env) (in_req6 env)))"

definition earliest :: "time \<Rightarrow> time \<Rightarrow> time" where
  "earliest t1 renew = (if Before t1 renew \<or> IsZero renew then t1 else renew)"

fun iapd_loop :: "time \<Rightarrow> iapd list \<Rightarrow> Dhcp6Config \<Rightarrow> Dhcp6Config" where
  "iapd_loop now [] cfg = cfg"
| "iapd_loop now (ia # ias) cfg =
     iapd_loop now ias
       (cfg\<lparr>c6_RenewAfter := earliest (now + T1 ia) (c6_RenewAfter cfg),
            c6_Prefixes := c6_Prefixes cfg @ Prefixes ia\<rparr>)"

definition config_of_reply :: "time \<Rightarrow> Message6 \<Rightarrow> Dhcp6Config" where
  "config_of_reply now reply =
     (let cfg = iapd_loop now (msg_IAPD reply) \<lparr>c6_RenewAfter = 0, c6_Prefixes = [], c6_DNS = []\<rparr> in
      cfg\<lparr>c6_DNS := map IP_String (msg_DNS reply)\<rparr>)"

definition iapd_refused :: "dhcp6_pkg \<Rightarrow> Message6 \<Rightarrow> (nat \<times> string) option" where
  "iapd_refused lib m =
     (case OneIAPD lib m of
        None \<Rightarrow> None
      | Some ia \<Rightarrow> (case Status ia of None \<Rightarrow> None | Some (code, msg) \<Rightarrow> if code \<noteq> 0 then Some (code, msg) else None))"

definition ObtainOrRenew6 :: "dhcp6_pkg \<Rightarrow> env6 \<Rightarrow> Client6 \<Rightarrow> Client6 \<times> Message6 list \<times> bool" where
  "ObtainOrRenew6 lib env c =
     (case solicit lib env None (c\<lparr>err6 := None\<rparr>) of
        (c, sent, Inl e) \<Rightarrow> (c\<lparr>err6 := Some e\<rparr>, sent, True)
      | (c, sent, Inr adv) \<Rightarrow>
          let c = c\<lparr>advertise := Some adv\<rparr> in
          (case iapd_refused lib adv of
             Some (code, msg) \<Rightarrow>
               (c\<lparr>err6 := Some (Err (''IAPD error: '' @ itoa code @ '' ('' @ msg @ '')''))\<rparr>, sent, False)
           | None \<Rightarrow>
               (case request6 lib env adv c of
                  (c, sent', Inl e) \<Rightarrow> (c\<lparr>err6 := Some e\<rparr>, sent @ sent', True)
                | (c, sent', Inr reply) \<Rightarrow> (c\<lparr>cfg6 := config_of_reply (now6 env) reply\<rparr>, sent @ sent', True))))"

definition Release6 :: "dhcp6_pkg \<Rightarrow> env6 \<Rightarrow> Client6 \<Rightarrow> Client6 \<times> Message6 list \<times> Message6 result" where
  "Release6 lib env c =
     (case NewRequestFromAdvertise lib (advertise c) (duid c) (xid_request env) of
        Inl e \<Rightarrow> (c, [], Inl e)
      | Inr m \<Rightarrow>
          let m = m\<lparr>msg_type := Release6Msg\<rparr>;
              (c, m) = use_xid c m
          in (c, [m], sendReceive (Some m) MsgNone (write_req6 env) (in_req6 env)))"

end
