(* ===== verification/Netconfig.thy ===== *)
theory Netconfig
  imports Firewall Dhcp4Client Dhcp6Client
begin

text \<open>
  \<open>netconfig/netconfig.go\<close> and \<open>netconfig/wireguard.go\<close>: how the router's configuration files are
  applied to the kernel. The state is what the kernel and the file system hold (\<open>World\<close>); a
  configuration step is a function on it that may stop with an error part of the way. The netlink
  library is a parameter: \<open>nl_call\<close> performs a change or fails, the other components answer queries.
\<close>

unbundle bit_operations_syntax

section \<open>Steps with errors\<close>

type_synonym ('w, 'a) io = "'w \<Rightarrow> 'w \<times> 'a result"

definition bindIO :: "('w, 'a) io \<Rightarrow> ('a \<Rightarrow> ('w, 'b) io) \<Rightarrow> ('w, 'b) io" where
  "bindIO m f = (\<lambda>w. case m w of (w', Inl e) \<Rightarrow> (w', Inl e) | (w', Inr x) \<Rightarrow> f x w')"

definition retIO :: "'a \<Rightarrow> ('w, 'a) io" where "retIO x = (\<lambda>w. (w, Inr x))"

definition liftIO :: "'a result \<Rightarrow> ('w, 'a) io" where "liftIO r = (\<lambda>w. (w, r))"

definition whenIO :: "bool \<Rightarrow> ('w, unit) io \<Rightarrow> ('w, unit) io" where
  "whenIO b m = (if b then m else retIO ())"

fun eachIO :: "('a \<Rightarrow> ('w, unit) io) \<Rightarrow> 'a list \<Rightarrow> ('w, unit) io" where
  "eachIO f [] = retIO ()"
| "eachIO f (x # xs) = bindIO (f x) (\<lambda>_. eachIO f xs)"

section \<open>The world\<close>

text \<open>
  \<open>l_up\<close> is the administrative flag, \<open>l_oper\<close> whether the operational state is up; \<open>files\<close> are the
  files that a configuration step writes.
\<close>

record Link =
  l_index :: nat
  l_name :: string
  l_hw :: bytes
  l_up :: bool
  l_oper :: bool
  l_master :: "nat option"

type_synonym address = "bytes \<times> nat"

record Route =
  rt_link :: nat
  rt_dst :: address
  rt_gw :: bytes
  rt_src :: bytes

record World =
  links :: "Link list"
  addrs :: "nat \<Rightarrow> address list"
  routes :: "Route list"
  ruleset :: "nf_msg list"
  files :: "(string, string) gomap"
  signalled :: "string list"
  wg_devices :: "(string \<times> bytes \<times> int \<times> (bytes \<times> bytes option \<times> address list) list) list"

datatype netcall =
  LinkAdd string string
| LinkSetMaster nat nat
| LinkSetUp nat
| LinkSetName nat string
| LinkSetHardwareAddr nat bytes
| AddrReplace nat address
| AddrDel nat address
| RouteReplace Route

record netlink =
  nl_call :: "netcall \<Rightarrow> World \<Rightarrow> World result"
  nl_LinkByName :: "World \<Rightarrow> string \<Rightarrow> Link result"
  nl_LinkList :: "World \<Rightarrow> Link list result"
  nl_AddrList :: "World \<Rightarrow> nat \<Rightarrow> address list result"
  nl_ParseAddr :: "string \<Rightarrow> address result"
  os_WriteFile :: "string \<Rightarrow> string \<Rightarrow> unit result"
  os_Remove :: "string \<Rightarrow> unit result"
  nl_Flush :: "nf_msg list \<Rightarrow> unit result"

definition perform :: "netlink \<Rightarrow> netcall \<Rightarrow> (World, unit) io" where
  "perform nl c = (\<lambda>w. case nl_call nl c w of Inl e \<Rightarrow> (w, Inl e) | Inr w' \<Rightarrow> (w', Inr ()))"

definition write_file :: "netlink \<Rightarrow> string \<Rightarrow> string \<Rightarrow> (World, unit) io" where
  "write_file nl fn content =
     (\<lambda>w. case os_WriteFile nl fn content of
        Inl e \<Rightarrow> (w, Inl e) | Inr _ \<Rightarrow> (w\<lparr>files := AList.update fn content (files w)\<rparr>, Inr ()))"

text \<open>\<open>os.Remove\<close>, where the file's absence is no error.\<close>

definition remove_file :: "netlink \<Rightarrow> string \<Rightarrow> (World, unit) io" where
  "remove_file nl fn =
     (\<lambda>w. case os_Remove nl fn of
        Inl e \<Rightarrow> (w, Inl e) | Inr _ \<Rightarrow> (w\<lparr>files := AList.delete fn (files w)\<rparr>, Inr ()))"

definition query :: "('w \<Rightarrow> 'a result) \<Rightarrow> ('w, 'a) io" where
  "query q = (\<lambda>w. (w, q w))"

section \<open>interfaces.json\<close>

record InterfaceDetails =
  cfg_HardwareAddr :: string
  cfg_SpoofHardwareAddr :: string
  cfg_Name :: string
  cfg_Addr :: string

record BridgeDetails =
  br_Name :: string
  br_InterfaceHardwareAddrs :: "string list"

record InterfaceConfig =
  Interfaces :: "InterfaceDetails list"
  Bridges :: "BridgeDetails list"

definition read_json :: "'a json_file \<Rightarrow> 'a result" where
  "read_json f = (case f of NotExist \<Rightarrow> Inl (Err ''no such file'') | Unreadable e \<Rightarrow> Inl e | Decoded x \<Rightarrow> Inr x)"

definition Interface :: "InterfaceConfig json_file \<Rightarrow> string \<Rightarrow> InterfaceDetails result" where
  "Interface file ifname =
     bindR (read_json file) (\<lambda>cfg.
       case find (\<lambda>d. cfg_Name d = ifname) (Interfaces cfg) of
         None \<Rightarrow> Inl (Err ''does not configure interface'')
       | Some d \<Rightarrow> Inr d)"

definition LinkAddress :: "InterfaceConfig json_file \<Rightarrow> string \<Rightarrow> bytes result" where
  "LinkAddress file ifname =
     bindR (Interface file ifname) (\<lambda>iface. bindR (ParseCIDR (cfg_Addr iface)) (\<lambda>(ip, _). Inr ip))"

definition bridge_member :: "netlink \<Rightarrow> BridgeDetails \<Rightarrow> Link \<Rightarrow> Link \<Rightarrow> (World, unit) io" where
  "bridge_member nl bridge bridgeLink l =
     (let addr = mac_string (l_hw l) in
      if addr = '''' \<or> addr \<notin> set (br_InterfaceHardwareAddrs bridge) \<or> l_name l = br_Name bridge then retIO ()
      else bindIO (perform nl (LinkSetMaster (l_index l) (l_index bridgeLink))) (\<lambda>_.
             whenIO (\<not> l_oper l) (perform nl (LinkSetUp (l_index l)))))"

definition apply_bridge :: "netlink \<Rightarrow> BridgeDetails \<Rightarrow> (World, unit) io" where
  "apply_bridge nl bridge =
     bindIO (\<lambda>w. case nl_LinkByName nl w (br_Name bridge) of
               Inl _ \<Rightarrow> perform nl (LinkAdd ''bridge'' (br_Name bridge)) w
             | Inr _ \<Rightarrow> (w, Inr ())) (\<lambda>_.
     bindIO (query (\<lambda>w. nl_LinkByName nl w (br_Name bridge))) (\<lambda>bridgeLink.
     bindIO (query (nl_LinkList nl)) (\<lambda>ls.
     bindIO (eachIO (bridge_member nl bridge bridgeLink) ls) (\<lambda>_.
       whenIO (\<not> l_oper bridgeLink) (perform nl (LinkSetUp (l_index bridgeLink)))))))"

definition applyBridges :: "netlink \<Rightarrow> InterfaceConfig \<Rightarrow> (World, unit) io" where
  "applyBridges nl cfg = eachIO (apply_bridge nl) (Bridges cfg)"

text \<open>The two maps of \<open>applyInterfaces\<close> and the lookup for a link.\<close>

definition by_name :: "InterfaceConfig \<Rightarrow> (string, InterfaceDetails) gomap" where
  "by_name cfg = foldl (\<lambda>m d. AList.update (cfg_Name d) d m) [] (Interfaces cfg)"

definition by_hardware_addr :: "InterfaceConfig \<Rightarrow> (string, InterfaceDetails) gomap" where
  "by_hardware_addr cfg =
     foldl (\<lambda>m d. let m = AList.update (cfg_HardwareAddr d) d m in
              if cfg_SpoofHardwareAddr d \<noteq> '''' then AList.update (cfg_SpoofHardwareAddr d) d m else m)
       [] (Interfaces cfg)"

definition details_for :: "InterfaceConfig \<Rightarrow> Link \<Rightarrow> InterfaceDetails option" where
  "details_for cfg l =
     (let addr = mac_string (l_hw l) in
      if addr = '''' then map_of (by_name cfg) (l_name l)
      else case map_of (by_hardware_addr cfg) addr of
             Some d \<Rightarrow> Some d
           | None \<Rightarrow> map_of (by_name cfg) (l_name l))"

definition resolv_conf :: "bytes \<Rightarrow> string" where
  "resolv_conf ip = ''nameserver '' @ IP_String ip @ [char_of (10 :: nat)]"

definition apply_details :: "netlink \<Rightarrow> (string \<Rightarrow> bytes result) \<Rightarrow> string \<Rightarrow> InterfaceDetails \<Rightarrow> Link \<Rightarrow> (World, unit) io" where
  "apply_details nl parseMAC root d l =
     bindIO (whenIO (l_name l \<noteq> cfg_Name d) (perform nl (LinkSetName (l_index l) (cfg_Name d)))) (\<lambda>_.
     bindIO (whenIO (cfg_SpoofHardwareAddr d \<noteq> '''')
               (bindIO (liftIO (parseMAC (cfg_SpoofHardwareAddr d))) (\<lambda>hw.
                  perform nl (LinkSetHardwareAddr (l_index l) hw)))) (\<lambda>_.
     bindIO (whenIO (\<not> l_oper l) (perform nl (LinkSetUp (l_index l)))) (\<lambda>_.
       whenIO (cfg_Addr d \<noteq> '''')
         (bindIO (liftIO (nl_ParseAddr nl (cfg_Addr d))) (\<lambda>addr.
          bindIO (perform nl (AddrReplace (l_index l) addr)) (\<lambda>_.
            whenIO (cfg_Name d = ''lan0'')
              (bindIO (remove_file nl (root @ ''/tmp/resolv.conf'')) (\<lambda>_.
                 write_file nl (root @ ''/tmp/resolv.conf'') (resolv_conf (fst addr))))))))))"

definition apply_link :: "netlink \<Rightarrow> (string \<Rightarrow> bytes result) \<Rightarrow> string \<Rightarrow> InterfaceConfig \<Rightarrow> Link \<Rightarrow> (World, unit) io" where
  "apply_link nl parseMAC root cfg l =
     (case details_for cfg l of None \<Rightarrow> retIO () | Some d \<Rightarrow> apply_details nl parseMAC root d l)"

definition applyInterfaces ::
    "netlink \<Rightarrow> (string \<Rightarrow> bytes result) \<Rightarrow> string \<Rightarrow> InterfaceConfig json_file \<Rightarrow> (World, unit) io" where
  "applyInterfaces nl parseMAC root file =
     (case file of
        NotExist \<Rightarrow> retIO ()
      | Unreadable e \<Rightarrow> liftIO (Inl e)
      | Decoded cfg \<Rightarrow>
          (\<lambda>w. bindIO (query (nl_LinkList nl)) (\<lambda>ls. eachIO (apply_link nl parseMAC root cfg) ls)
                 (fst (applyBridges nl cfg w))))"

section \<open>DHCP leases\<close>

text \<open>\<open>addr.IPNet.String()\<close>\<close>

definition IPNet_String :: "address \<Rightarrow> string" where
  "IPNet_String a = IP_String (fst a) @ ''/'' @ itoa (snd a)"

definition applyDhcp4 :: "netlink \<Rightarrow> unit result \<Rightarrow> Dhcp4Config json_file \<Rightarrow> (World, unit) io" where
  "applyDhcp4 nl newHandle file =
     (case file of
        NotExist \<Rightarrow> retIO ()
      | Unreadable e \<Rightarrow> liftIO (Inl e)
      | Decoded got \<Rightarrow>
          bindIO (query (\<lambda>w. nl_LinkByName nl w ''uplink0'')) (\<lambda>link.
          if c4_SubnetMask got = '''' then liftIO (Inl (Err ''invalid DHCP lease: no subnet mask present''))
          else
          bindIO (liftIO (subnetMaskSize (c4_SubnetMask got))) (\<lambda>subnetSize.
          let gotAddr = c4_ClientIP got @ ''/'' @ itoa subnetSize in
          bindIO (liftIO (nl_ParseAddr nl gotAddr)) (\<lambda>addr.
          bindIO (liftIO newHandle) (\<lambda>_.
          bindIO (perform nl (AddrReplace (l_index link) addr)) (\<lambda>_.
          bindIO (query (\<lambda>w. nl_AddrList nl w (l_index link))) (\<lambda>as.
          bindIO (eachIO (\<lambda>a. if IPNet_String a = gotAddr then retIO ()
                           else perform nl (AddrDel (l_index link) a)) as) (\<lambda>_.
          bindIO (perform nl (RouteReplace
                    \<lparr>rt_link = l_index link, rt_dst = (ParseIP (c4_Router got), 32), rt_gw = [],
                     rt_src = ParseIP (c4_ClientIP got)\<rparr>)) (\<lambda>_.
            perform nl (RouteReplace
              \<lparr>rt_link = l_index link, rt_dst = (ParseIP ''0.0.0.0'', 0), rt_gw = ParseIP (c4_Router got),
               rt_src = ParseIP (c4_ClientIP got)\<rparr>))))))))))"

text \<open>A prefix is an address and the length of its mask; the family decides the number of bits.\<close>

definition lan_prefix :: "address \<Rightarrow> address result" where
  "lan_prefix p =
     (let (ip, ones) = p in
      if ip = [] then Inl (Panic ''index out of range'')
      else Inr (ip[length ip - 1 := 1], if ones < 64 then 64 else ones))"

definition applyDhcp6 :: "netlink \<Rightarrow> Dhcp6Config json_file \<Rightarrow> (World, unit) io" where
  "applyDhcp6 nl file =
     (case file of
        NotExist \<Rightarrow> retIO ()
      | Unreadable e \<Rightarrow> liftIO (Inl e)
      | Decoded got \<Rightarrow>
          bindIO (query (\<lambda>w. nl_LinkByName nl w ''lan0'')) (\<lambda>link.
            eachIO (\<lambda>prefix.
              bindIO (liftIO (lan_prefix prefix)) (\<lambda>p.
              bindIO (liftIO (nl_ParseAddr nl (IPNet_String p))) (\<lambda>addr.
                perform nl (AddrReplace (l_index link) addr)))) (c6_Prefixes got)))"

section \<open>WireGuard\<close>

record wireguardPeer =
  PublicKey :: string
  Endpoint :: string
  AllowedIPs :: "string list"

record wireguardInterface =
  wg_Name :: string
  PrivateKey :: string
  wg_Port :: int
  Peers :: "wireguardPeer list"

text \<open>
  Key decoding (base64 and \<open>wgtypes.NewKey\<close>), endpoint resolution and the two clients' constructors
  are parameters; \<open>wg_exists\<close> says whether a failed LinkAdd failed with EEXIST.
\<close>

record wgctrl =
  wg_handles :: "unit result"
  wg_exists :: "string \<Rightarrow> bool"
  wg_key :: "string \<Rightarrow> bytes result"
  wg_resolve :: "string \<Rightarrow> bytes result"
  wg_configure :: "string \<Rightarrow> bytes \<Rightarrow> int \<Rightarrow> (bytes \<times> bytes option \<times> address list) list \<Rightarrow> unit result"

definition network_of :: "address \<Rightarrow> address" where
  "network_of a =
     (case a of (ip, n) \<Rightarrow>
        let ip' = (if To4 ip \<noteq> [] then To4 ip else ip) in
        (map2 (AND) ip' (CIDRMask n (length ip')), n))"

fun wg_ips :: "string list \<Rightarrow> address list result" where
  "wg_ips [] = Inr []"
| "wg_ips (ip # ips) = bindR (ParseCIDR ip) (\<lambda>net. bindR (wg_ips ips) (\<lambda>r. Inr (network_of net # r)))"

fun wg_peers :: "wgctrl \<Rightarrow> wireguardPeer list \<Rightarrow> (bytes \<times> bytes option \<times> address list) list result" where
  "wg_peers cl [] = Inr []"
| "wg_peers cl (p # ps) =
     bindR (wg_ips (AllowedIPs p)) (\<lambda>ips.
     bindR (wg_key cl (PublicKey p)) (\<lambda>publicKey.
     bindR (if Endpoint p \<noteq> '''' then bindR (wg_resolve cl (Endpoint p)) (\<lambda>a. Inr (Some a)) else Inr None) (\<lambda>addr.
     bindR (wg_peers cl ps) (\<lambda>r. Inr ((publicKey, addr, ips) # r)))))"

text \<open>The link that \<open>LinkAdd\<close> is given: its type and the name in its attributes.\<close>

record wgLink =
  wl_name :: string

definition wgLink_Type :: "wgLink \<Rightarrow> string" where
  [simp]: "wgLink_Type l = ''wireguard''"

definition wgLink_Attrs_Name :: "wgLink \<Rightarrow> string" where
  [simp]: "wgLink_Attrs_Name l = wl_name l"

text \<open>A link that is there already is no error.\<close>

definition add_wg_link :: "netlink \<Rightarrow> wgctrl \<Rightarrow> string \<Rightarrow> (World, unit) io" where
  "add_wg_link nl cl name =
     (\<lambda>w. let l = \<lparr>wl_name = name\<rparr> in
      case perform nl (LinkAdd (wgLink_Type l) (wgLink_Attrs_Name l)) w of
        (w', Inl e) \<Rightarrow>
          (w', if wg_exists cl name then Inr () else Inl (prefixed (''LinkAdd(&{'' @ name @ ''})'') e))
      | (w', Inr _) \<Rightarrow> (w', Inr ()))"

definition apply_wg :: "netlink \<Rightarrow> wgctrl \<Rightarrow> wireguardInterface \<Rightarrow> (World, unit) io" where
  "apply_wg nl cl iface =
     bindIO (add_wg_link nl cl (wg_Name iface)) (\<lambda>_.
     bindIO (liftIO (wg_peers cl (Peers iface))) (\<lambda>peers.
     bindIO (liftIO (wg_key cl (PrivateKey iface))) (\<lambda>privateKey.
     bindIO (liftIO (wg_configure cl (wg_Name iface) privateKey (wg_Port iface) peers)) (\<lambda>_ w.
       (w\<lparr>wg_devices := wg_devices w @ [(wg_Name iface, privateKey, wg_Port iface, peers)]\<rparr>, Inr ())))))"

definition applyWireGuard :: "netlink \<Rightarrow> wgctrl \<Rightarrow> wireguardInterface list json_file \<Rightarrow> (World, unit) io" where
  "applyWireGuard nl cl file =
     (case file of
        NotExist \<Rightarrow> retIO ()
      | Unreadable e \<Rightarrow> liftIO (Inl e)
      | Decoded ifaces \<Rightarrow> bindIO (liftIO (wg_handles cl)) (\<lambda>_. eachIO (apply_wg nl cl) ifaces))"

section \<open>Apply\<close>

fun uplinkInterface_loop :: "(string \<Rightarrow> bool) \<Rightarrow> string list \<Rightarrow> string result" where
  "uplinkInterface_loop has [] = Inl (Err ''no uplink ethernet interface found'')"
| "uplinkInterface_loop has (ifname # names) =
     (if has ifname then Inr ifname else uplinkInterface_loop has names)"

definition uplinkInterface :: "World \<Rightarrow> string result" where
  "uplinkInterface w = uplinkInterface_loop (\<lambda>n. \<exists>l \<in> set (links w). l_name l = n) [''uplink0'', ''eth0'', ''ens3'']"

definition dots_to_slashes :: "string \<Rightarrow> string" where
  "dots_to_slashes s = map (\<lambda>c. if c = CHR ''.'' then CHR ''/'' else c) s"

definition sysctls :: "string \<Rightarrow> string list" where
  "sysctls ifname =
     [''net.ipv4.ip_forward=1'', ''net.ipv6.conf.all.forwarding=1''] @
     (if ifname \<noteq> '''' then [''net.ipv6.conf.'' @ ifname @ ''.accept_ra=2''] else [])"

definition write_sysctl :: "netlink \<Rightarrow> string \<Rightarrow> (World, unit) io" where
  "write_sysctl nl ctl =
     (let key = takeWhile (\<lambda>c. c \<noteq> CHR ''='') ctl; val = drop (length key + 1) ctl in
      write_file nl (''/proc/sys/'' @ dots_to_slashes key) val)"

definition applySysctl :: "netlink \<Rightarrow> string \<Rightarrow> (World, unit) io" where
  "applySysctl nl ifname = eachIO (write_sysctl nl) (sysctls ifname)"

record Dir =
  f_interfaces :: "InterfaceConfig json_file"
  f_dhcp4 :: "Dhcp4Config json_file"
  f_dhcp6 :: "Dhcp6Config json_file"
  f_forwardings :: "portForwarding list json_file"
  f_wireguard :: "wireguardInterface list json_file"

record platform =
  pf_nl :: netlink
  parse_mac :: "string \<Rightarrow> bytes result"
  new_handle :: "unit result"
  pf_wg :: wgctrl
  pf_put16 :: "16 word \<Rightarrow> bytes"
  get_obj :: "family \<Rightarrow> nf_obj list result"
  default_counter :: CounterObj

definition firewall_step :: "platform \<Rightarrow> portForwarding list json_file \<Rightarrow> string \<Rightarrow> (World, unit) io" where
  "firewall_step pf file ifname =
     (\<lambda>w. case applyFirewall (pf_put16 pf) (default_counter pf) (get_obj pf) (nl_Flush (pf_nl pf)) file ifname (ruleset w) of
        (r, res) \<Rightarrow> (w\<lparr>ruleset := r\<rparr>, res))"

text \<open>A stage whose error is collected and does not stop the rest; a panic does, it ends the process.\<close>

definition crashed :: "fault list \<Rightarrow> bool" where
  "crashed es = list_ex (\<lambda>e. case e of Panic _ \<Rightarrow> True | Err _ \<Rightarrow> False) es"

definition stage :: "string \<Rightarrow> (World, unit) io \<Rightarrow> World \<times> fault list \<Rightarrow> World \<times> fault list" where
  "stage name m s =
     (if crashed (snd s) then s
      else case m (fst s) of (w', Inl e) \<Rightarrow> (w', snd s @ [prefixed name e]) | (w', Inr _) \<Rightarrow> (w', snd s))"

definition Apply :: "platform \<Rightarrow> Dir \<Rightarrow> string \<Rightarrow> World \<Rightarrow> World \<times> fault list" where
  "Apply pf dir root w =
     (case applyInterfaces (pf_nl pf) (parse_mac pf) root (f_interfaces dir) w of
        (w1, Inl e) \<Rightarrow> (w1, [prefixed ''interfaces'' e])
      | (w1, Inr _) \<Rightarrow>
          let s = (w1, []);
              s = stage ''dhcp4'' (applyDhcp4 (pf_nl pf) (new_handle pf) (f_dhcp4 dir)) s;
              s = stage ''dhcp6'' (applyDhcp6 (pf_nl pf) (f_dhcp6 dir)) s;
              s = (if crashed (snd s) then s else (fst s\<lparr>signalled := signalled (fst s) @
                     map (\<lambda>p. ''/user/'' @ p) [''dyndns'', ''dnsd'', ''diagd'', ''backupd'', ''captured'']\<rparr>, snd s));
              ifname = (case uplinkInterface (fst s) of Inl _ \<Rightarrow> '''' | Inr n \<Rightarrow> n);
              s = stage ''sysctl'' (applySysctl (pf_nl pf) ifname) s;
              s = stage ''firewall'' (firewall_step pf (f_forwardings dir) ifname) s
          in stage ''wireguard'' (applyWireGuard (pf_nl pf) (pf_wg pf) (f_wireguard dir)) s)"

end
