(* ===== verification/NetconfigProps.thy ===== *)
theory NetconfigProps
  imports Netconfig
begin

text \<open>
  What applying the configuration achieves: the laws of the netlink calls, the effect of a loop of
  calls, and the properties of the DHCP lease, of the interfaces and of \<open>Apply\<close> as a whole.
\<close>

section \<open>The netlink calls\<close>

definition on_link :: "nat \<Rightarrow> (Link \<Rightarrow> Link) \<Rightarrow> World \<Rightarrow> World" where
  "on_link i f w = w\<lparr>links := map (\<lambda>l. if l_index l = i then f l else l) (links w)\<rparr>"

text \<open>
  Documented behaviour of the library: a call that returns no error has its effect and no other;
  the queries answer from the state; \<open>ParseAddr\<close> reads what \<open>net.ParseCIDR\<close> reads.
\<close>

definition netlink_ok :: "netlink \<Rightarrow> bool" where
  "netlink_ok nl \<longleftrightarrow>
     (\<forall>w w' i a. nl_call nl (AddrReplace i a) w = Inr w' \<longrightarrow>
        (\<exists>as. w' = w\<lparr>addrs := (addrs w)(i := as)\<rparr> \<and> set as = insert a (set (addrs w i)))) \<and>
     (\<forall>w w' i a. nl_call nl (AddrDel i a) w = Inr w' \<longrightarrow>
        (\<exists>as. w' = w\<lparr>addrs := (addrs w)(i := as)\<rparr> \<and> set as = set (addrs w i) - {a})) \<and>
     (\<forall>w w' r. nl_call nl (RouteReplace r) w = Inr w' \<longrightarrow>
        (\<exists>rs. w' = w\<lparr>routes := rs\<rparr> \<and> set rs = insert r {r' \<in> set (routes w). rt_dst r' \<noteq> rt_dst r})) \<and>
     (\<forall>w w' i n. nl_call nl (LinkSetName i n) w = Inr w' \<longrightarrow> w' = on_link i (\<lambda>l. l\<lparr>l_name := n\<rparr>) w) \<and>
     (\<forall>w w' i hw. nl_call nl (LinkSetHardwareAddr i hw) w = Inr w' \<longrightarrow> w' = on_link i (\<lambda>l. l\<lparr>l_hw := hw\<rparr>) w) \<and>
     (\<forall>w w' i. nl_call nl (LinkSetUp i) w = Inr w' \<longrightarrow> (\<exists>b. w' = on_link i (\<lambda>l. l\<lparr>l_up := True, l_oper := b\<rparr>) w)) \<and>
     (\<forall>w ls. nl_LinkList nl w = Inr ls \<longrightarrow> ls = links w) \<and>
     (\<forall>w n l. nl_LinkByName nl w n = Inr l \<longrightarrow> l \<in> set (links w) \<and> l_name l = n) \<and>
     (\<forall>w i as. nl_AddrList nl w i = Inr as \<longrightarrow> set as = {a \<in> set (addrs w i). To4 (fst a) \<noteq> []}) \<and>
     (\<forall>s a. nl_ParseAddr nl s = Inr a \<longrightarrow> ParseCIDR s = Inr a)"

lemma netlink_okD:
  assumes "netlink_ok nl"
  shows "nl_call nl (AddrReplace i a) w = Inr w' \<Longrightarrow>
      \<exists>as. w' = w\<lparr>addrs := (addrs w)(i := as)\<rparr> \<and> set as = insert a (set (addrs w i))"
    "nl_call nl (AddrDel i a) w = Inr w' \<Longrightarrow>
      \<exists>as. w' = w\<lparr>addrs := (addrs w)(i := as)\<rparr> \<and> set as = set (addrs w i) - {a}"
    "nl_call nl (RouteReplace r) w = Inr w' \<Longrightarrow>
      \<exists>rs. w' = w\<lparr>routes := rs\<rparr> \<and> set rs = insert r {r' \<in> set (routes w). rt_dst r' \<noteq> rt_dst r}"
    "nl_call nl (LinkSetName i n) w = Inr w' \<Longrightarrow> w' = on_link i (\<lambda>l. l\<lparr>l_name := n\<rparr>) w"
    "nl_call nl (LinkSetHardwareAddr i hw) w = Inr w' \<Longrightarrow> w' = on_link i (\<lambda>l. l\<lparr>l_hw := hw\<rparr>) w"
    "nl_call nl (LinkSetUp i) w = Inr w' \<Longrightarrow> \<exists>b. w' = on_link i (\<lambda>l. l\<lparr>l_up := True, l_oper := b\<rparr>) w"
    "nl_LinkList nl w = Inr ls \<Longrightarrow> ls = links w"
    "nl_LinkByName nl w nm = Inr l \<Longrightarrow> l \<in> set (links w) \<and> l_name l = nm"
    "nl_AddrList nl w i = Inr as \<Longrightarrow> set as = {a \<in> set (addrs w i). To4 (fst a) \<noteq> []}"
    "nl_ParseAddr nl s = Inr b \<Longrightarrow> ParseCIDR s = Inr b"
  using assms by (simp_all add: netlink_ok_def del: split_paired_All split_paired_Ex)

text \<open>A concrete netlink that never fails.\<close>

definition plain_netlink :: netlink where
  "plain_netlink =
     \<lparr>nl_call = (\<lambda>c w. Inr (case c of
         LinkAdd k n \<Rightarrow> w\<lparr>links := links w @ [\<lparr>l_index = length (links w), l_name = n, l_hw = [], l_up = False, l_oper = False, l_master = None\<rparr>]\<rparr>
       | LinkSetMaster i j \<Rightarrow> on_link i (\<lambda>l. l\<lparr>l_master := Some j\<rparr>) w
       | LinkSetUp i \<Rightarrow> on_link i (\<lambda>l. l\<lparr>l_up := True, l_oper := True\<rparr>) w
       | LinkSetName i n \<Rightarrow> on_link i (\<lambda>l. l\<lparr>l_name := n\<rparr>) w
       | LinkSetHardwareAddr i hw \<Rightarrow> on_link i (\<lambda>l. l\<lparr>l_hw := hw\<rparr>) w
       | AddrReplace i a \<Rightarrow> w\<lparr>addrs := (addrs w)(i := a # addrs w i)\<rparr>
       | AddrDel i a \<Rightarrow> w\<lparr>addrs := (addrs w)(i := removeAll a (addrs w i))\<rparr>
       | RouteReplace r \<Rightarrow> w\<lparr>routes := r # filter (\<lambda>r'. rt_dst r' \<noteq> rt_dst r) (routes w)\<rparr>)),
      nl_LinkByName = (\<lambda>w n. case find (\<lambda>l. l_name l = n) (links w) of
         None \<Rightarrow> Inl (Err ''Link not found'') | Some l \<Rightarrow> Inr l),
      nl_LinkList = (\<lambda>w. Inr (links w)),
      nl_AddrList = (\<lambda>w i. Inr (filter (\<lambda>a. To4 (fst a) \<noteq> []) (addrs w i))),
      nl_ParseAddr = ParseCIDR, os_WriteFile = (\<lambda>_ _. Inr ()), os_Remove = (\<lambda>_. Inr ()), nl_Flush = (\<lambda>_. Inr ())\<rparr>"

lemma netlink_ok_plain: "netlink_ok plain_netlink"
  by (auto simp: netlink_ok_def plain_netlink_def find_Some_iff split: option.splits)

section \<open>Sequencing\<close>

lemma bindIO_Inr: "bindIO m f w = (w', Inr y) \<longleftrightarrow> (\<exists>w1 x. m w = (w1, Inr x) \<and> f x w1 = (w', Inr y))"
  by (auto simp: bindIO_def split: prod.splits sum.splits)

lemma retIO_Inr: "retIO x w = (w', Inr y) \<longleftrightarrow> w' = w \<and> y = x"
  by (auto simp: retIO_def)

lemma liftIO_Inr: "liftIO r w = (w', Inr y) \<longleftrightarrow> w' = w \<and> r = Inr y"
  by (auto simp: liftIO_def)

lemma query_Inr: "query q w = (w', Inr y) \<longleftrightarrow> w' = w \<and> q w = Inr y"
  by (auto simp: query_def)

lemma perform_Inr: "perform nl c w = (w', Inr y) \<longleftrightarrow> nl_call nl c w = Inr w'"
  by (auto simp: perform_def split: sum.splits)

lemma whenIO_Inr: "whenIO b m w = (w', Inr y) \<longleftrightarrow> (if b then m w = (w', Inr y) else w' = w)"
  by (auto simp: whenIO_def retIO_def)

lemma write_file_Inr: "write_file nl fn c w = (w', Inr y) \<longleftrightarrow>
    os_WriteFile nl fn c = Inr () \<and> w' = w\<lparr>files := AList.update fn c (files w)\<rparr>"
  by (auto simp: write_file_def split: sum.splits)

lemma remove_file_Inr: "remove_file nl fn w = (w', Inr y) \<longleftrightarrow>
    os_Remove nl fn = Inr () \<and> w' = w\<lparr>files := AList.delete fn (files w)\<rparr>"
  by (auto simp: remove_file_def split: sum.splits)

lemmas io_Inr = bindIO_Inr retIO_Inr liftIO_Inr query_Inr perform_Inr whenIO_Inr write_file_Inr remove_file_Inr

text \<open>A loop that succeeds takes a transitive relation from its steps.\<close>

lemma eachIO_rel:
  assumes "eachIO f xs w = (w', Inr ())" "\<And>w. R w w" "\<And>a b c. R a b \<Longrightarrow> R b c \<Longrightarrow> R a c"
    and "\<And>x u v. x \<in> set xs \<Longrightarrow> f x u = (v, Inr ()) \<Longrightarrow> R u v"
  shows "R w w'"
  using assms(1,4)
proof (induction xs arbitrary: w)
  case Nil
  then show ?case using assms(2) by (simp add: io_Inr)
next
  case (Cons x xs)
  then obtain w1 where "f x w = (w1, Inr ())" "eachIO f xs w1 = (w', Inr ())"
    by (auto simp: io_Inr)
  then show ?case using Cons.IH [of w1] Cons.prems(2) assms(3) by (metis list.set_intros)
qed

section \<open>The DHCP lease\<close>

lemma IPNet_String_inj:
  assumes "To4 (fst a) \<noteq> []" "length ip = 4" "IPNet_String a = IP4_String ip @ CHR ''/'' # itoa n"
  shows "To4 (fst a) = ip \<and> snd a = n"
proof -
  have len: "length (To4 (fst a)) = 4" using length_To4 assms(1) by blast
  have ns: "\<forall>x \<in> set (IP4_String q). x \<noteq> CHR ''/''" if "length q = 4" for q
    using IP4_String_chars [OF that, of "CHR ''/''"] by auto
  have "fst a \<noteq> []" using assms(1) by (auto simp: To4_def)
  then have eq: "IP4_String (To4 (fst a)) @ CHR ''/'' # itoa (snd a) = IP4_String ip @ CHR ''/'' # itoa n"
    using assms(1,3) by (simp add: IPNet_String_def IP_String_def)
  have "takeWhile (\<lambda>c. c \<noteq> CHR ''/'') (IP4_String (To4 (fst a)) @ CHR ''/'' # itoa (snd a)) = IP4_String (To4 (fst a))"
    "takeWhile (\<lambda>c. c \<noteq> CHR ''/'') (IP4_String ip @ CHR ''/'' # itoa n) = IP4_String ip"
    using ns [OF len] ns [OF assms(2)] by (simp_all add: takeWhile_append2)
  with eq have "IP4_String (To4 (fst a)) = IP4_String ip" by simp
  then show ?thesis using IP4_String_inj [OF len assms(2)] eq by simp
qed

lemma remove_old_addrs:
  assumes "netlink_ok nl"
    and "eachIO (\<lambda>a. if IPNet_String a = g then retIO () else perform nl (AddrDel i a)) as w = (w', Inr ())"
  shows "\<exists>bs. w' = w\<lparr>addrs := (addrs w)(i := bs)\<rparr> \<and>
    set bs = set (addrs w i) - {a \<in> set as. IPNet_String a \<noteq> g}"
  using assms(2)
proof (induction as arbitrary: w)
  case Nil
  then have "w' = w\<lparr>addrs := (addrs w)(i := addrs w i)\<rparr>" by (simp add: io_Inr)
  then show ?case by (intro exI [of _ "addrs w i"]) simp
next
  case (Cons a as)
  obtain w1 where w1: "(if IPNet_String a = g then retIO () else perform nl (AddrDel i a)) w = (w1, Inr ())"
    "eachIO (\<lambda>a. if IPNet_String a = g then retIO () else perform nl (AddrDel i a)) as w1 = (w', Inr ())"
    using Cons.prems by (auto simp: io_Inr)
  have "\<exists>cs. w1 = w\<lparr>addrs := (addrs w)(i := cs)\<rparr> \<and> set cs = set (addrs w i) - {b. b = a \<and> IPNet_String a \<noteq> g}"
  proof (cases "IPNet_String a = g")
    case True
    then have "w1 = w\<lparr>addrs := (addrs w)(i := addrs w i)\<rparr>" using w1(1) by (simp add: io_Inr)
    then show ?thesis using True by (intro exI [of _ "addrs w i"]) simp
  next
    case False
    then have "nl_call nl (AddrDel i a) w = Inr w1" using w1(1) by (simp add: io_Inr)
    then show ?thesis using netlink_okD(2) [OF assms(1)] False by fastforce
  qed
  then obtain cs where cs: "w1 = w\<lparr>addrs := (addrs w)(i := cs)\<rparr>"
    "set cs = set (addrs w i) - {b. b = a \<and> IPNet_String a \<noteq> g}" by blast
  obtain bs where bs: "w' = w1\<lparr>addrs := (addrs w1)(i := bs)\<rparr>"
    "set bs = set (addrs w1 i) - {a \<in> set as. IPNet_String a \<noteq> g}"
    using Cons.IH [OF w1(2)] by blast
  have "w' = w\<lparr>addrs := (addrs w)(i := bs)\<rparr>" using bs(1) cs(1) by simp
  moreover have "set bs = set (addrs w i) - {b \<in> set (a # as). IPNet_String b \<noteq> g}"
    using bs(2) cs by auto
  ultimately show ?case by blast
qed

text \<open>The addresses that are left: the leased one, and those of other families.\<close>

lemma leased_address_only:
  assumes "length ip = 4" "addr = (v4InV6Prefix @ ip, n)" "addr \<in> as1"
    and "bs = as1 - {a \<in> as1. To4 (fst a) \<noteq> [] \<and> IPNet_String a \<noteq> IP4_String ip @ CHR ''/'' # itoa n}"
  shows "{(To4 (fst a), snd a) |a. a \<in> bs \<and> To4 (fst a) \<noteq> []} = {(ip, n)}"
proof -
  have To4: "To4 (v4InV6Prefix @ ip) = ip" "ip \<noteq> []" using assms(1) by (auto simp: To4_def)
  have str: "IPNet_String addr = IP4_String ip @ CHR ''/'' # itoa n"
    by (simp add: IPNet_String_def IP_String_def assms(2) To4)
  have "(To4 (fst a), snd a) = (ip, n)" if "a \<in> bs" "To4 (fst a) \<noteq> []" for a
    using that IPNet_String_inj [OF that(2) assms(1), of n] by (auto simp: assms(4))
  moreover have "addr \<in> bs" "To4 (fst addr) = ip" "snd addr = n"
    using assms(3) str To4 by (auto simp: assms(2,4))
  ultimately show ?thesis using To4(2) by force
qed

text \<open>The calls of a successful run.\<close>

lemma applyDhcp4_calls:
  assumes "n \<le> 32" "c4_ClientIP got = IP4_String ip" "c4_SubnetMask got = IP4_String (CIDRMask n 4)"
      "c4_Router got = IP4_String gw" "applyDhcp4 nl nh (Decoded got) w = (w', Inr ())"
  obtains l addr w1 as w2 w3 where "nl_LinkByName nl w ''uplink0'' = Inr l"
    "nl_ParseAddr nl (IP4_String ip @ CHR ''/'' # itoa n) = Inr addr"
    "nl_call nl (AddrReplace (l_index l) addr) w = Inr w1" "nl_AddrList nl w1 (l_index l) = Inr as"
    "eachIO (\<lambda>a. if IPNet_String a = IP4_String ip @ CHR ''/'' # itoa n then retIO ()
       else perform nl (AddrDel (l_index l) a)) as w1 = (w2, Inr ())"
    "nl_call nl (RouteReplace \<lparr>rt_link = l_index l, rt_dst = (ParseIP (IP4_String gw), 32), rt_gw = [],
       rt_src = ParseIP (IP4_String ip)\<rparr>) w2 = Inr w3"
    "nl_call nl (RouteReplace \<lparr>rt_link = l_index l, rt_dst = (ParseIP ''0.0.0.0'', 0), rt_gw = ParseIP (IP4_String gw),
       rt_src = ParseIP (IP4_String ip)\<rparr>) w3 = Inr w'"
proof -
  have size: "subnetMaskSize (IP4_String (CIDRMask n 4)) = Inr n"
    using CIDRMask_Size [OF assms(1)] subnetMaskSize_quad [of "CIDRMask n 4"] by (simp add: CIDRMask_def)
  have mask: "IP4_String (CIDRMask n 4) \<noteq> []" by (simp add: IP4_String_def)
  show ?thesis
    using assms(5) unfolding applyDhcp4_def
    by (simp add: assms(2-4) size mask io_Inr Let_def) (elim exE conjE, rule that, assumption+)
qed

lemma applyDhcp4_effect:
  assumes "netlink_ok nl" "length ip = 4" "length gw = 4" "n \<le> 32"
    and "c4_ClientIP got = IP4_String ip" "c4_SubnetMask got = IP4_String (CIDRMask n 4)"
      "c4_Router got = IP4_String gw"
    and "applyDhcp4 nl nh (Decoded got) w = (w', Inr ())"
  shows "\<exists>l \<in> set (links w). l_name l = ''uplink0'' \<and>
    {(To4 (fst a), snd a) |a. a \<in> set (addrs w' (l_index l)) \<and> To4 (fst a) \<noteq> []} = {(ip, n)} \<and>
    (\<exists>r \<in> set (routes w'). rt_dst r = (ParseIP ''0.0.0.0'', 0) \<and> To4 (rt_gw r) = gw \<and> rt_link r = l_index l) \<and>
    links w' = links w \<and> (\<forall>j. j \<noteq> l_index l \<longrightarrow> addrs w' j = addrs w j)"
proof -
  note ok = netlink_okD [OF assms(1)]
  from applyDhcp4_calls [OF assms(4-8)] obtain l addr w1 as w2 w3 where l: "nl_LinkByName nl w ''uplink0'' = Inr l"
    and addr: "nl_ParseAddr nl (IP4_String ip @ CHR ''/'' # itoa n) = Inr addr"
    and w1: "nl_call nl (AddrReplace (l_index l) addr) w = Inr w1"
    and as: "nl_AddrList nl w1 (l_index l) = Inr as"
    and w2: "eachIO (\<lambda>a. if IPNet_String a = IP4_String ip @ CHR ''/'' # itoa n then retIO ()
       else perform nl (AddrDel (l_index l) a)) as w1 = (w2, Inr ())"
    and w3: "nl_call nl (RouteReplace \<lparr>rt_link = l_index l, rt_dst = (ParseIP (IP4_String gw), 32), rt_gw = [],
        rt_src = ParseIP (IP4_String ip)\<rparr>) w2 = Inr w3"
    and w': "nl_call nl (RouteReplace \<lparr>rt_link = l_index l, rt_dst = (ParseIP ''0.0.0.0'', 0), rt_gw = ParseIP (IP4_String gw),
        rt_src = ParseIP (IP4_String ip)\<rparr>) w3 = Inr w'" by blast
  obtain as1 where as1: "w1 = w\<lparr>addrs := (addrs w)(l_index l := as1)\<rparr>" "set as1 = insert addr (set (addrs w (l_index l)))"
    using ok(1) [OF w1] by blast
  have at1: "addrs w1 (l_index l) = as1" "links w1 = links w" "j \<noteq> l_index l \<Longrightarrow> addrs w1 j = addrs w j" for j
    by (simp_all add: as1(1))
  obtain bs where bs: "w2 = w1\<lparr>addrs := (addrs w1)(l_index l := bs)\<rparr>"
    "set bs = set as1 - {a \<in> set as. IPNet_String a \<noteq> IP4_String ip @ CHR ''/'' # itoa n}"
    using remove_old_addrs [OF assms(1) w2] unfolding at1(1) by blast
  have at2: "addrs w2 (l_index l) = bs" "links w2 = links w1" "j \<noteq> l_index l \<Longrightarrow> addrs w2 j = addrs w1 j" for j
    by (simp_all add: bs(1))
  obtain rs3 rs4 where rs: "w3 = w2\<lparr>routes := rs3\<rparr>" "w' = w3\<lparr>routes := rs4\<rparr>"
    "\<lparr>rt_link = l_index l, rt_dst = (ParseIP ''0.0.0.0'', 0), rt_gw = ParseIP (IP4_String gw),
        rt_src = ParseIP (IP4_String ip)\<rparr> \<in> set rs4"
    using ok(3) [OF w3] ok(3) [OF w'] by blast
  then have "addrs w' = addrs w2" "links w' = links w2" "routes w' = rs4" by simp_all
  then have fin: "addrs w' (l_index l) = bs" "links w' = links w" "\<forall>j. j \<noteq> l_index l \<longrightarrow> addrs w' j = addrs w j" "routes w' = rs4"
    using at1 at2 by simp_all
  have "addr = (v4InV6Prefix @ ip, n)" using ok(10) [OF addr] ParseCIDR_String [OF assms(2,4)] by simp
  moreover have "set as = {a \<in> set as1. To4 (fst a) \<noteq> []}" using ok(9) [OF as] at1(1) by simp
  ultimately have "{(To4 (fst a), snd a) |a. a \<in> set bs \<and> To4 (fst a) \<noteq> []} = {(ip, n)}"
    using as1(2) bs(2) by (intro leased_address_only [OF assms(2), of addr n "set as1"]) auto
  moreover have "\<exists>r \<in> set (routes w'). rt_dst r = (ParseIP ''0.0.0.0'', 0) \<and> To4 (rt_gw r) = gw \<and> rt_link r = l_index l"
    using rs(3) ParseIP_String [OF assms(3)] assms(3) by (force simp: fin(4) To4_def)
  ultimately show ?thesis using ok(8) [OF l] fin by auto
qed


definition demo_world :: World where
  "demo_world =
     \<lparr>links = [\<lparr>l_index = 0, l_name = ''uplink0'', l_hw = [], l_up = True, l_oper = True, l_master = None\<rparr>,
               \<lparr>l_index = 1, l_name = ''eth1'', l_hw = [2, 0x73, 0x53, 0, 0xb0, 0x0c], l_up = False, l_oper = False, l_master = None\<rparr>],
      addrs = (\<lambda>i. if i = 0 then [([10, 1, 1, 1], 8)] else []), routes = [], ruleset = [], files = [],
      signalled = [], wg_devices = []\<rparr>"

lemma plain_perform: "\<exists>w'. perform plain_netlink c w = (w', Inr ())"
  by (simp add: perform_def plain_netlink_def)

text \<open>Steps that succeed from every state.\<close>

definition succeeds :: "('w, 'a) io \<Rightarrow> bool" where
  "succeeds m \<longleftrightarrow> (\<forall>w. \<exists>w' x. m w = (w', Inr x))"

lemma succeeds_rules:
  "succeeds (retIO x)" "succeeds m \<Longrightarrow> (\<And>x. succeeds (f x)) \<Longrightarrow> succeeds (bindIO m f)" "succeeds m' \<Longrightarrow> succeeds (whenIO b m')"
  "succeeds (liftIO (Inr y))" "(\<And>w. \<exists>z. q w = Inr z) \<Longrightarrow> succeeds (query q)"
  "succeeds (perform plain_netlink c)" "succeeds (write_file plain_netlink fn s)"
  "succeeds (remove_file plain_netlink fn)"
proof -
  show "succeeds m \<Longrightarrow> (\<And>x. succeeds (f x)) \<Longrightarrow> succeeds (bindIO m f)"
    unfolding succeeds_def
  proof
    fix w
    assume m: "\<forall>w. \<exists>w' x. m w = (w', Inr x)" and f: "\<And>x. \<forall>w. \<exists>w' y. f x w = (w', Inr y)"
    obtain w1 x where 1: "m w = (w1, Inr x)" using m by blast
    obtain w2 y where "f x w1 = (w2, Inr y)" using f by blast
    with 1 show "\<exists>w' y. bindIO m f w = (w', Inr y)" by (simp add: bindIO_def)
  qed
  show "succeeds m' \<Longrightarrow> succeeds (whenIO b m')" by (simp add: succeeds_def whenIO_def retIO_def)
  show "succeeds (perform plain_netlink c)" unfolding succeeds_def using plain_perform by blast
qed (auto simp: succeeds_def retIO_def liftIO_def query_def write_file_def remove_file_def plain_netlink_def)

lemma succeeds_each: "(\<And>x. succeeds (f x)) \<Longrightarrow> succeeds (eachIO f xs)"
  by (induction xs) (auto intro!: succeeds_rules)

lemma succeeds_if: "succeeds m \<Longrightarrow> succeeds m' \<Longrightarrow> succeeds (if b then m else m')"
  by simp

lemmas succeeds_intros = succeeds_rules succeeds_each succeeds_if

lemma whenIO_False [simp]: "whenIO False m = retIO ()"
  by (simp add: whenIO_def)

lemma succeedsD: "succeeds m \<Longrightarrow> \<exists>w'. m w = (w', Inr ())"
  unfolding succeeds_def by (metis old.unit.exhaust)

lemma bindIO_query: "q w = Inr x \<Longrightarrow> bindIO (query q) f w = f x w"
  by (simp add: bindIO_def query_def)

lemma bindIO_lift [simp]: "bindIO (liftIO (Inr x)) f = f x"
  by (simp add: bindIO_def liftIO_def)

lemma plain_AddrList: "\<exists>as. nl_AddrList plain_netlink w i = Inr as"
  by (simp add: plain_netlink_def)

lemma demo_lease:
  assumes "c4_ClientIP got = IP4_String [85, 195, 207, 62]" "c4_SubnetMask got = IP4_String (CIDRMask 25 4)"
    "c4_Router got = IP4_String [85, 195, 207, 1]"
  shows "\<exists>w'. applyDhcp4 plain_netlink (Inr ()) (Decoded got) demo_world = (w', Inr ())"
proof -
  have size: "subnetMaskSize (IP4_String (CIDRMask 25 4)) = Inr 25"
    using CIDRMask_Size [of 25] subnetMaskSize_quad [of "CIDRMask 25 4"] by (simp add: CIDRMask_def)
  have nonempty: "IP4_String m \<noteq> []" for m by (simp add: IP4_String_def)
  have "ParseCIDR (IP4_String [85, 195, 207, 62] @ CHR ''/'' # itoa 25) = Inr (v4InV6Prefix @ [85, 195, 207, 62], 25)"
    using ParseCIDR_String [of "[85, 195, 207, 62]" 25] by simp
  then have parse: "nl_ParseAddr plain_netlink (IP4_String [85, 195, 207, 62] @ ''/'' @ itoa 25) = Inr (v4InV6Prefix @ [85, 195, 207, 62], 25)"
    by (simp add: plain_netlink_def)
  obtain l where link: "nl_LinkByName plain_netlink demo_world ''uplink0'' = Inr l"
    by (simp add: plain_netlink_def demo_world_def)
  show ?thesis
    unfolding applyDhcp4_def json_file.case bindIO_query [of "\<lambda>w. nl_LinkByName plain_netlink w ''uplink0''", OF link]
    by (rule succeedsD [of _ demo_world])
      (simp add: assms size nonempty Let_def parse del: append.simps, intro succeeds_intros plain_AddrList)
qed

definition demo_got :: Dhcp4Config where
  "demo_got = \<lparr>c4_RenewAfter = 0, c4_ClientIP = IP4_String [85, 195, 207, 62], c4_SubnetMask = IP4_String (CIDRMask 25 4),
     c4_Router = IP4_String [85, 195, 207, 1], c4_DNS = []\<rparr>"


section \<open>The interfaces\<close>

definition same_at :: "nat \<Rightarrow> World \<Rightarrow> World \<Rightarrow> bool" where
  "same_at i w w' \<longleftrightarrow>
     {x \<in> set (links w). l_index x = i} = {x \<in> set (links w'). l_index x = i} \<and> addrs w i = addrs w' i"

text \<open>The hardware address that \<open>d\<close> asks for on the link \<open>l\<close>.\<close>

definition wanted_hw :: "(string \<Rightarrow> bytes result) \<Rightarrow> InterfaceDetails \<Rightarrow> Link \<Rightarrow> bytes \<Rightarrow> bool" where
  "wanted_hw pm d l hw \<longleftrightarrow> (if cfg_SpoofHardwareAddr d = '''' then hw = l_hw l else pm (cfg_SpoofHardwareAddr d) = Inr hw)"

definition configured :: "(string \<Rightarrow> bytes result) \<Rightarrow> InterfaceDetails \<Rightarrow> Link \<Rightarrow> World \<Rightarrow> bool" where
  "configured pm d l w \<longleftrightarrow>
     (\<exists>x \<in> set (links w). l_index x = l_index l \<and> l_name x = cfg_Name d \<and> l_up x \<and> wanted_hw pm d l (l_hw x)) \<and>
     (cfg_Addr d \<noteq> '''' \<longrightarrow> (\<exists>a \<in> set (addrs w (l_index l)). ParseCIDR (cfg_Addr d) = Inr a))"

lemma same_at_refl: "same_at i w w"
  by (simp add: same_at_def)

lemma same_at_trans: "same_at i u v \<Longrightarrow> same_at i v w \<Longrightarrow> same_at i u w"
  by (simp add: same_at_def)

lemma configured_same: "same_at (l_index l) w w' \<Longrightarrow> configured pm d l w \<Longrightarrow> configured pm d l w'"
  unfolding same_at_def configured_def by (metis (mono_tags, lifting) mem_Collect_eq)

lemma links_on_link: "links (on_link i f w) = map (\<lambda>l. if l_index l = i then f l else l) (links w)"
  by (simp add: on_link_def)

lemma on_link_fields [simp]: "addrs (on_link i f w) = addrs w" "files (on_link i f w) = files w"
  by (simp_all add: on_link_def)

lemma on_link_on_link:
  "(\<And>l. l_index (f l) = l_index l) \<Longrightarrow> on_link i g (on_link i f w) = on_link i (g \<circ> f) w"
  by (auto simp: on_link_def)

lemma on_link_id: "on_link i (\<lambda>l. l) w = w"
  by (simp add: on_link_def)

text \<open>The four parts of configuring a link: its name, its hardware address, its flags, its address.\<close>

lemma rename_effect:
  assumes "netlink_ok nl" "whenIO (l_name l \<noteq> n) (perform nl (LinkSetName i n)) w = (w', Inr ())"
  obtains f where "w' = on_link i f w" "\<And>x. l_index (f x) = l_index x" "l_name (f l) = n" "\<And>x. l_up (f x) = l_up x"
    "\<And>x. l_hw (f x) = l_hw x"
proof (rule that [of "\<lambda>x. if l_name l \<noteq> n then x\<lparr>l_name := n\<rparr> else x"])
  show "w' = on_link i (\<lambda>x. if l_name l \<noteq> n then x\<lparr>l_name := n\<rparr> else x) w"
    using assms(2) netlink_okD(4) [OF assms(1)] by (auto simp: io_Inr on_link_id split: if_splits)
qed auto

lemma spoof_effect:
  assumes "netlink_ok nl"
    and "whenIO b (bindIO (liftIO m) (\<lambda>hw. perform nl (LinkSetHardwareAddr i hw))) w = (w', Inr ())"
  obtains f where "w' = on_link i f w" "\<And>x. l_index (f x) = l_index x" "\<And>x. l_name (f x) = l_name x" "\<And>x. l_up (f x) = l_up x"
    "\<And>x. if b then m = Inr (l_hw (f x)) else l_hw (f x) = l_hw x"
proof (cases b)
  case True
  then obtain hw where hw: "m = Inr hw" "nl_call nl (LinkSetHardwareAddr i hw) w = Inr w'" using assms(2) by (auto simp: io_Inr)
  from netlink_okD(5) [OF assms(1) hw(2)] show ?thesis using that hw(1) True by simp
next
  case False
  then show ?thesis using assms(2) that [of "\<lambda>x. x"] by (simp add: io_Inr on_link_id)
qed

lemma up_effect:
  assumes "netlink_ok nl" "whenIO (\<not> up) (perform nl (LinkSetUp i)) w = (w', Inr ())"
  obtains f where "w' = on_link i f w" "\<And>x. l_index (f x) = l_index x" "\<And>x. l_name (f x) = l_name x"
    "\<And>x. l_up x \<or> \<not> up \<Longrightarrow> l_up (f x)" "\<And>x. l_hw (f x) = l_hw x"
proof (cases up)
  case False
  then obtain b where "w' = on_link i (\<lambda>x. x\<lparr>l_up := True, l_oper := b\<rparr>) w"
    using assms(2) netlink_okD(6) [OF assms(1), of i w w'] by (auto simp: io_Inr)
  then show ?thesis using that by simp
next
  case True
  then show ?thesis using assms(2) that [of "\<lambda>x. x"] by (simp add: io_Inr on_link_id)
qed

lemma address_effect:
  assumes "netlink_ok nl"
    and "whenIO (s \<noteq> '''') (bindIO (liftIO (nl_ParseAddr nl s)) (\<lambda>addr.
          bindIO (perform nl (AddrReplace i addr)) (\<lambda>_. whenIO b
              (bindIO (remove_file nl fn) (\<lambda>_. write_file nl fn (content addr)))))) w = (w', Inr ())"
  shows "links w' = links w \<and> (\<forall>j. j \<noteq> i \<longrightarrow> addrs w' j = addrs w j) \<and>
    (s \<noteq> '''' \<longrightarrow> (\<exists>a \<in> set (addrs w' i). ParseCIDR s = Inr a))"
proof (cases "s = ''''")
  case False
  then obtain a w1 where a: "nl_ParseAddr nl s = Inr a" "nl_call nl (AddrReplace i a) w = Inr w1"
    "whenIO b (bindIO (remove_file nl fn) (\<lambda>_. write_file nl fn (content a))) w1 = (w', Inr ())"
    using assms(2) by (simp add: io_Inr del: split_paired_Ex) blast
  then have w': "links w' = links w1 \<and> addrs w' = addrs w1" by (auto simp: io_Inr split: if_splits)
  obtain as where as: "w1 = w\<lparr>addrs := (addrs w)(i := as)\<rparr>" "set as = insert a (set (addrs w i))"
    using netlink_okD(1) [OF assms(1) a(2)] by blast
  have "addrs w1 i = as" "links w1 = links w" "j \<noteq> i \<Longrightarrow> addrs w1 j = addrs w j" for j
    by (simp_all add: as(1))
  then show ?thesis using netlink_okD(10) [OF assms(1) a(1)] w' as(2) by auto
qed (use assms(2) in \<open>simp add: io_Inr\<close>)

lemma apply_details_effect:
  assumes "netlink_ok nl" "apply_details nl pm root d l w = (w', Inr ())"
  shows "\<exists>f. links w' = links (on_link (l_index l) f w) \<and> (\<forall>x. l_index (f x) = l_index x) \<and>
      l_name (f l) = cfg_Name d \<and> (l_up l \<or> \<not> l_oper l \<longrightarrow> l_up (f l)) \<and> wanted_hw pm d l (l_hw (f l)) \<and>
      (\<forall>j. j \<noteq> l_index l \<longrightarrow> addrs w' j = addrs w j) \<and>
      (cfg_Addr d \<noteq> '''' \<longrightarrow> (\<exists>a \<in> set (addrs w' (l_index l)). ParseCIDR (cfg_Addr d) = Inr a))"
proof -
  let ?i = "l_index l"
  obtain w1 w2 w3 where
    m1: "whenIO (l_name l \<noteq> cfg_Name d) (perform nl (LinkSetName ?i (cfg_Name d))) w = (w1, Inr ())" and
    m2: "whenIO (cfg_SpoofHardwareAddr d \<noteq> '''') (bindIO (liftIO (pm (cfg_SpoofHardwareAddr d)))
          (\<lambda>hw. perform nl (LinkSetHardwareAddr ?i hw))) w1 = (w2, Inr ())" and
    m3: "whenIO (\<not> l_oper l) (perform nl (LinkSetUp ?i)) w2 = (w3, Inr ())" and
    m4: "whenIO (cfg_Addr d \<noteq> '''') (bindIO (liftIO (nl_ParseAddr nl (cfg_Addr d))) (\<lambda>addr.
          bindIO (perform nl (AddrReplace ?i addr)) (\<lambda>_. whenIO (cfg_Name d = ''lan0'')
              (bindIO (remove_file nl (root @ ''/tmp/resolv.conf'')) (\<lambda>_.
                write_file nl (root @ ''/tmp/resolv.conf'') (resolv_conf (fst addr)))))))  w3 = (w', Inr ())"
    using assms(2) unfolding apply_details_def bindIO_Inr [of "whenIO b m" for b m] by auto
  obtain f1 where f1: "w1 = on_link ?i f1 w" "\<And>x. l_index (f1 x) = l_index x" "l_name (f1 l) = cfg_Name d"
    "\<And>x. l_up (f1 x) = l_up x" "\<And>x. l_hw (f1 x) = l_hw x" using rename_effect [OF assms(1) m1] by blast
  obtain f2 where f2: "w2 = on_link ?i f2 w1" "\<And>x. l_index (f2 x) = l_index x" "\<And>x. l_name (f2 x) = l_name x"
    "\<And>x. l_up (f2 x) = l_up x"
    "\<And>x. if cfg_SpoofHardwareAddr d \<noteq> '''' then pm (cfg_SpoofHardwareAddr d) = Inr (l_hw (f2 x)) else l_hw (f2 x) = l_hw x"
    using spoof_effect [OF assms(1) m2] by blast
  obtain f3 where f3: "w3 = on_link ?i f3 w2" "\<And>x. l_index (f3 x) = l_index x" "\<And>x. l_name (f3 x) = l_name x"
    "\<And>x. l_up x \<or> \<not> l_oper l \<Longrightarrow> l_up (f3 x)" "\<And>x. l_hw (f3 x) = l_hw x" using up_effect [OF assms(1) m3] by blast
  have w3: "w3 = on_link ?i (f3 \<circ> (f2 \<circ> f1)) w"
    using f1(1,2) f2(1,2) f3(1) by (simp add: on_link_on_link)
  have "wanted_hw pm d l (l_hw ((f3 \<circ> (f2 \<circ> f1)) l))"
    using f1(5) f2(5) [of "f1 l"] f3(5) by (auto simp: wanted_hw_def split: if_splits)
  then show ?thesis
    using address_effect [OF assms(1) m4] f1(1-4) f2(1-4) f3(1-4) unfolding w3
    by (intro exI [of _ "f3 \<circ> (f2 \<circ> f1)"]) auto
qed

lemma apply_link_same:
  assumes "netlink_ok nl" "apply_link nl pm root cfg l w = (w', Inr ())" "l_index l \<noteq> i"
  shows "same_at i w w'"
proof (cases "details_for cfg l")
  case None
  then show ?thesis using assms(2) by (simp add: apply_link_def io_Inr same_at_refl)
next
  case (Some d)
  then have "apply_details nl pm root d l w = (w', Inr ())" using assms(2) by (simp add: apply_link_def)
  from apply_details_effect [OF assms(1) this]
  obtain f where "links w' = links (on_link (l_index l) f w)" "\<And>x. l_index (f x) = l_index x"
    "addrs w' i = addrs w i"
    using assms(3) by metis
  then show ?thesis using assms(3) by (auto simp: same_at_def links_on_link)
qed

lemma apply_link_configured:
  assumes "netlink_ok nl" "apply_link nl pm root cfg l w = (w', Inr ())" "details_for cfg l = Some d" "l \<in> set (links w)"
    and "l_oper l \<longrightarrow> l_up l"
  shows "configured pm d l w'"
proof -
  have "apply_details nl pm root d l w = (w', Inr ())" using assms(2,3) by (simp add: apply_link_def)
  from apply_details_effect [OF assms(1) this]
  obtain f where f: "links w' = links (on_link (l_index l) f w)" "\<And>x. l_index (f x) = l_index x"
    "l_name (f l) = cfg_Name d" "l_up l \<or> \<not> l_oper l \<longrightarrow> l_up (f l)" "wanted_hw pm d l (l_hw (f l))"
    "cfg_Addr d \<noteq> '''' \<longrightarrow> (\<exists>a \<in> set (addrs w' (l_index l)). ParseCIDR (cfg_Addr d) = Inr a)"
    by blast
  have "f l \<in> set (links w')" using assms(4) by (auto simp: f(1) links_on_link)
  then show ?thesis using f assms(5) unfolding configured_def by blast
qed

lemma apply_links_configured:
  assumes "netlink_ok nl"
  shows "eachIO (apply_link nl pm root cfg) ls w = (w', Inr ()) \<Longrightarrow> distinct (map l_index ls) \<Longrightarrow>
    set ls \<subseteq> set (links w) \<Longrightarrow> \<forall>l \<in> set ls. l_oper l \<longrightarrow> l_up l \<Longrightarrow>
    \<forall>l \<in> set ls. \<forall>d. details_for cfg l = Some d \<longrightarrow> configured pm d l w'"
proof (induction ls arbitrary: w)
  case (Cons l ls)
  then obtain w1 where w1: "apply_link nl pm root cfg l w = (w1, Inr ())"
    "eachIO (apply_link nl pm root cfg) ls w1 = (w', Inr ())" by (auto simp: io_Inr)
  have "x \<in> set (links w1)" if "x \<in> set ls" for x
  proof -
    have "l_index l \<noteq> l_index x" using Cons.prems(2) that by auto
    then have "same_at (l_index x) w w1" using apply_link_same [OF assms w1(1)] by blast
    then show ?thesis using Cons.prems(3) that unfolding same_at_def by auto
  qed
  then have rest: "\<forall>l \<in> set ls. \<forall>d. details_for cfg l = Some d \<longrightarrow> configured pm d l w'"
    using Cons.IH [OF w1(2)] Cons.prems(2,4) by auto
  have "same_at (l_index l) w1 w'"
  proof (rule eachIO_rel [OF w1(2), of "same_at (l_index l)"])
    fix x u v
    assume "x \<in> set ls" and step: "apply_link nl pm root cfg x u = (v, Inr ())"
    moreover have "l_index l \<notin> l_index ` set ls" using Cons.prems(2) by simp
    ultimately have "l_index x \<noteq> l_index l" by (metis imageI)
    then show "same_at (l_index l) u v" using apply_link_same [OF assms step] by simp
  qed (auto intro: same_at_refl same_at_trans)
  then have "configured pm d l w'" if "details_for cfg l = Some d" for d
    using apply_link_configured [OF assms w1(1) that] Cons.prems(3,4) configured_same by auto
  then show ?case using rest by simp
qed simp

section \<open>What a step leaves alone\<close>

definition keeps :: "('w \<Rightarrow> 'b) \<Rightarrow> ('w, 'a) io \<Rightarrow> bool" where
  "keeps g m \<longleftrightarrow> (\<forall>w. g (fst (m w)) = g w)"

lemma keepsD: "keeps g m \<Longrightarrow> m w = (w', r) \<Longrightarrow> g w' = g w"
  unfolding keeps_def by (metis fst_conv)

lemma keeps_ret [inv_intros]: "keeps g (retIO x)" "keeps g (liftIO r)" "keeps g (query q)"
  by (simp_all add: keeps_def retIO_def liftIO_def query_def)

lemma keeps_bind [inv_intros]: "keeps g m \<Longrightarrow> (\<And>x. keeps g (f x)) \<Longrightarrow> keeps g (bindIO m f)"
  unfolding keeps_def bindIO_def by (auto split: prod.splits sum.splits) (metis fst_conv)+

lemma keeps_when [inv_intros]: "keeps g m \<Longrightarrow> keeps g (whenIO b m)"
  by (simp add: whenIO_def keeps_ret)

lemma keeps_each [inv_intros]: "(\<And>x. keeps g (f x)) \<Longrightarrow> keeps g (eachIO f xs)"
  by (induction xs) (auto intro: inv_intros)

text \<open>The netlink calls change neither the firewall nor the files nor the signals sent.\<close>

definition netlink_frame :: "netlink \<Rightarrow> bool" where
  "netlink_frame nl \<longleftrightarrow>
     (\<forall>c w w'. nl_call nl c w = Inr w' \<longrightarrow> ruleset w' = ruleset w \<and> signalled w' = signalled w \<and> files w' = files w)"

abbreviation fw_sig :: "World \<Rightarrow> nf_msg list \<times> string list" where
  "fw_sig w \<equiv> (ruleset w, signalled w)"

lemma keeps_perform [inv_intros]: "netlink_frame nl \<Longrightarrow> keeps fw_sig (perform nl c)"
  by (auto simp: keeps_def perform_def netlink_frame_def split: sum.split)

lemma keeps_write [inv_intros]: "keeps fw_sig (write_file nl fn c)" "keeps fw_sig (remove_file nl fn)"
  by (auto simp: keeps_def write_file_def remove_file_def split: sum.split)

lemma keeps_apply_link: "netlink_frame nl \<Longrightarrow> keeps fw_sig (apply_link nl pm root cfg l)"
  by (auto simp: apply_link_def apply_details_def split: option.split intro!: inv_intros)

lemma keeps_bridges: "netlink_frame nl \<Longrightarrow> keeps fw_sig (applyBridges nl cfg)"
proof -
  assume nl: "netlink_frame nl"
  have "keeps fw_sig (\<lambda>w. case nl_LinkByName nl w n of Inl _ \<Rightarrow> perform nl c w | Inr _ \<Rightarrow> (w, Inr ()))" for n c
    using keeps_perform [OF nl] by (auto simp: keeps_def split: sum.split)
  then show ?thesis
    unfolding applyBridges_def apply_bridge_def bridge_member_def Let_def
    by (auto intro!: inv_intros nl)
qed

lemma keeps_interfaces:
  assumes nl: "netlink_frame nl"
  shows "keeps fw_sig (applyInterfaces nl pm root file)"
proof (cases "file")
  case (Decoded cfg)
  have m: "keeps fw_sig (bindIO (query (nl_LinkList nl)) (\<lambda>ls. eachIO (apply_link nl pm root cfg) ls))"
    by (intro inv_intros keeps_apply_link nl)
  show ?thesis
    using keeps_bridges [OF nl, of cfg] m unfolding keeps_def applyInterfaces_def Decoded by simp
qed (auto simp: applyInterfaces_def intro: inv_intros)

lemma keeps_dhcp4: "netlink_frame nl \<Longrightarrow> keeps fw_sig (applyDhcp4 nl nh file)"
  by (auto simp: applyDhcp4_def Let_def split: json_file.split intro!: inv_intros)

lemma keeps_dhcp6: "netlink_frame nl \<Longrightarrow> keeps fw_sig (applyDhcp6 nl file)"
  by (auto simp: applyDhcp6_def split: json_file.split intro!: inv_intros)

lemma keeps_sysctl: "keeps fw_sig (applySysctl nl ifname)"
  unfolding applySysctl_def write_sysctl_def Let_def by (intro inv_intros)

lemma keeps_add_wg_link [inv_intros]:
  assumes "netlink_frame nl"
  shows "keeps fw_sig (add_wg_link nl cl name)"
  using keepsD [OF keeps_perform [OF assms, of "LinkAdd ''wireguard'' name"]]
  unfolding keeps_def add_wg_link_def Let_def wgLink_Type_def wgLink_Attrs_Name_def
  by (force split: prod.split sum.split)

lemma keeps_wireguard: "netlink_frame nl \<Longrightarrow> keeps fw_sig (applyWireGuard nl cl file)"
proof -
  assume nl: "netlink_frame nl"
  have last: "keeps fw_sig (\<lambda>w. (w\<lparr>wg_devices := wg_devices w @ [x]\<rparr>, Inr ()))" for x
    by (simp add: keeps_def)
  show ?thesis
    unfolding applyWireGuard_def apply_wg_def
    by (cases "file") (auto intro!: inv_intros last nl)
qed

lemma stage_snd: "\<exists>es. snd (stage name m s) = snd s @ es"
  by (auto simp: stage_def split: prod.split sum.split)

lemma not_crashed_before: "\<not> crashed (snd (stage name m s)) \<Longrightarrow> \<not> crashed (snd s)"
  using stage_snd [of name m s] by (auto simp: crashed_def)

lemma stage_keeps: "keeps g m \<Longrightarrow> g (fst (stage name m s)) = g (fst s)"
  by (auto simp: stage_def dest: keepsD split: prod.split sum.split)

lemma stage_errors: "set (snd s) \<subseteq> set (snd (stage name m s))"
  using stage_snd [of name m s] by auto

text \<open>Whatever happens in \<open>Apply\<close>, the ruleset is the old one or the one that \<open>applyFirewall\<close> commits.\<close>

lemma Apply_ruleset:
  assumes "netlink_frame (pf_nl pf)" "Apply pf dir root w = (w', errs)"
  shows "ruleset w' = ruleset w \<or>
    (\<exists>ifname. firewall_msgs (pf_put16 pf) (default_counter pf) (get_obj pf) (f_forwardings dir) ifname = Inr (ruleset w'))"
proof -
  have step: "ruleset (fst (stage name m s)) = ruleset (fst s)" if "keeps fw_sig m" for name m s
    using stage_keeps [OF that, of name s] by simp
  have fw: "ruleset (fst (stage name (firewall_step pf fws ifname) s)) = ruleset (fst s) \<or>
      firewall_msgs (pf_put16 pf) (default_counter pf) (get_obj pf) fws ifname =
        Inr (ruleset (fst (stage name (firewall_step pf fws ifname) s)))" for name fws ifname s
    by (auto simp: stage_def firewall_step_def applyFirewall_def split: sum.split prod.split)
  have i: "ruleset (fst (applyInterfaces (pf_nl pf) (parse_mac pf) root (f_interfaces dir) w)) = ruleset w"
    using keeps_interfaces [OF assms(1), of "parse_mac pf" root "f_interfaces dir"] by (simp add: keeps_def)
  note keep = step [OF keeps_dhcp4 [OF assms(1)]] step [OF keeps_dhcp6 [OF assms(1)]] step [OF keeps_sysctl]
    step [OF keeps_wireguard [OF assms(1)]]
  obtain w1 r where a: "applyInterfaces (pf_nl pf) (parse_mac pf) root (f_interfaces dir) w = (w1, r)"
    by (rule prod.exhaust)
  show ?thesis
  proof (cases r)
    case (Inl e)
    then show ?thesis using a i assms(2) by (simp add: Apply_def)
  next
    case (Inr u)
    define s2 where "s2 = stage ''dhcp6'' (applyDhcp6 (pf_nl pf) (f_dhcp6 dir))
      (stage ''dhcp4'' (applyDhcp4 (pf_nl pf) (new_handle pf) (f_dhcp4 dir)) (w1, []))"
    define s3 where "s3 = (if crashed (snd s2) then s2 else (fst s2\<lparr>signalled := signalled (fst s2) @
      map (\<lambda>p. ''/user/'' @ p) [''dyndns'', ''dnsd'', ''diagd'', ''backupd'', ''captured'']\<rparr>, snd s2))"
    define ifname where "ifname = (case uplinkInterface (fst s3) of Inl _ \<Rightarrow> '''' | Inr n \<Rightarrow> n)"
    have fin: "(w', errs) = stage ''wireguard'' (applyWireGuard (pf_nl pf) (pf_wg pf) (f_wireguard dir))
        (stage ''firewall'' (firewall_step pf (f_forwardings dir) ifname)
          (stage ''sysctl'' (applySysctl (pf_nl pf) ifname) s3))"
      using assms(2) unfolding Apply_def a Inr Let_def prod.case sum.case ifname_def s3_def s2_def by (rule sym)
    have "ruleset (fst s3) = ruleset w" using a i by (simp add: s3_def s2_def keep)
    then show ?thesis
      using fw [of "''firewall''" "f_forwardings dir" ifname "stage ''sysctl'' (applySysctl (pf_nl pf) ifname) s3"]
        arg_cong [OF fin, of "\<lambda>x. ruleset (fst x)"] by (auto simp: keep)
  qed
qed

lemma applied_link:
  assumes "netlink_ok nl" "applyInterfaces nl pm root (Decoded cfg) w = (w', Inr ())"
    and "w1 = fst (applyBridges nl cfg w)" "distinct (map l_index (links w1))" "\<forall>x \<in> set (links w1). l_oper x \<longrightarrow> l_up x"
    and "l \<in> set (links w1)" "details_for cfg l = Some d"
  shows "configured pm d l w'"
proof -
  obtain ls where ls: "nl_LinkList nl w1 = Inr ls" "eachIO (apply_link nl pm root cfg) ls w1 = (w', Inr ())"
    using assms(2,3) by (auto simp: applyInterfaces_def io_Inr)
  have "ls = links w1" using netlink_okD(7) [OF assms(1) ls(1)] .
  then show ?thesis using apply_links_configured [OF assms(1) ls(2)] assms(4-7) by blast
qed

section \<open>Properties\<close>

text \<open>
  C21. If \<open>applyInterfaces\<close> succeeds, every link that the configuration describes (by its hardware or
  spoofed address, or else by its name) has the configured name, is up and has the configured
  address; and its hardware address is the spoofed one if there is one, and as before otherwise.
\<close>

theorem interfaces_configured:
  assumes "netlink_ok nl" "applyInterfaces nl pm root (Decoded cfg) w = (w', Inr ())"
    and "w1 = fst (applyBridges nl cfg w)" "distinct (map l_index (links w1))" "\<forall>x \<in> set (links w1). l_oper x \<longrightarrow> l_up x"
    and "l \<in> set (links w1)" "details_for cfg l = Some d"
  shows "(\<exists>x \<in> set (links w'). l_index x = l_index l \<and> l_name x = cfg_Name d \<and> l_up x \<and>
      (if cfg_SpoofHardwareAddr d = '''' then l_hw x = l_hw l else pm (cfg_SpoofHardwareAddr d) = Inr (l_hw x))) \<and>
    (cfg_Addr d \<noteq> '''' \<longrightarrow> (\<exists>a \<in> set (addrs w' (l_index l)). ParseCIDR (cfg_Addr d) = Inr a))"
  using applied_link [OF assms] by (simp add: configured_def wanted_hw_def)

text \<open>The last two stages of \<open>Apply\<close>.\<close>

lemma firewall_stages:
  assumes "netlink_frame (pf_nl pf)" "fw_sig (fst s4) = (rs0, sig)" "\<not> crashed (snd s6)"
    and "s5 = stage ''firewall'' (firewall_step pf fwd ifname) s4" "s6 = stage ''wireguard'' (applyWireGuard (pf_nl pf) wg cfg) s5"
  shows "\<not> crashed (snd s4)" "signalled (fst s6) = sig"
    "\<exists>res. applyFirewall (pf_put16 pf) (default_counter pf) (get_obj pf) (nl_Flush (pf_nl pf)) fwd ifname rs0 =
         (ruleset (fst s6), res) \<and>
       (case res of Inl f \<Rightarrow> prefixed ''firewall'' f \<in> set (snd s6) | Inr _ \<Rightarrow> True)"
proof -
  have "\<not> crashed (snd s5)" using assms(3) unfolding assms(5) by (rule not_crashed_before)
  then show c4: "\<not> crashed (snd s4)" unfolding assms(4) by (rule not_crashed_before)
  obtain rs res where fw: "applyFirewall (pf_put16 pf) (default_counter pf) (get_obj pf) (nl_Flush (pf_nl pf))
      fwd ifname rs0 = (rs, res)" by (rule prod.exhaust)
  then have s5: "s5 = (fst s4\<lparr>ruleset := rs\<rparr>, case res of Inl f \<Rightarrow> snd s4 @ [prefixed ''firewall'' f] | Inr _ \<Rightarrow> snd s4)"
    using c4 assms(2,4) by (simp add: stage_def firewall_step_def split: sum.split)
  have s6: "fw_sig (fst s6) = fw_sig (fst s5)" "set (snd s5) \<subseteq> set (snd s6)"
    using stage_keeps [OF keeps_wireguard [OF assms(1)], of "''wireguard''" wg cfg s5]
      stage_errors [of s5 "''wireguard''" "applyWireGuard (pf_nl pf) wg cfg"] unfolding assms(5) by simp_all
  show "signalled (fst s6) = sig" using s6(1) s5 assms(2) by simp
  show "\<exists>res. applyFirewall (pf_put16 pf) (default_counter pf) (get_obj pf) (nl_Flush (pf_nl pf)) fwd ifname rs0 =
         (ruleset (fst s6), res) \<and>
       (case res of Inl f \<Rightarrow> prefixed ''firewall'' f \<in> set (snd s6) | Inr _ \<Rightarrow> True)"
    using fw s5 s6 by (auto split: sum.splits)
qed

text \<open>
  C20. \<open>Apply\<close> stops early only when the interfaces cannot be set up. Otherwise, unless a stage
  panics, it sends its five signals and hands the forwardings to the firewall whatever happened to
  the DHCP leases and the sysctls before; the ruleset at the end is what \<open>applyFirewall\<close> made of the
  one at the beginning, and its error is among the errors that \<open>Apply\<close> reports.
\<close>

theorem apply_reaches_firewall:
  assumes "netlink_frame (pf_nl pf)" "Apply pf dir root w = (w', errs)"
  shows "case snd (applyInterfaces (pf_nl pf) (parse_mac pf) root (f_interfaces dir) w) of
      Inl e \<Rightarrow> errs = [prefixed ''interfaces'' e] \<and> ruleset w' = ruleset w \<and> signalled w' = signalled w
    | Inr _ \<Rightarrow> \<not> crashed errs \<longrightarrow>
        signalled w' = signalled w @
          map (\<lambda>p. ''/user/'' @ p) [''dyndns'', ''dnsd'', ''diagd'', ''backupd'', ''captured''] \<and>
        (\<exists>ifname res. applyFirewall (pf_put16 pf) (default_counter pf) (get_obj pf) (nl_Flush (pf_nl pf))
             (f_forwardings dir) ifname (ruleset w) = (ruleset w', res) \<and>
           (case res of Inl f \<Rightarrow> prefixed ''firewall'' f \<in> set errs | Inr _ \<Rightarrow> True))"
proof -
  obtain w1 r where i: "applyInterfaces (pf_nl pf) (parse_mac pf) root (f_interfaces dir) w = (w1, r)"
    by (rule prod.exhaust)
  have w1: "fw_sig w1 = fw_sig w" by (rule keepsD [OF keeps_interfaces [OF assms(1)] i])
  show ?thesis
  proof (cases r)
    case (Inl e)
    then show ?thesis using i w1 assms(2) by (simp add: Apply_def)
  next
    case (Inr u)
    let ?procs = "map (\<lambda>p. ''/user/'' @ p) [''dyndns'', ''dnsd'', ''diagd'', ''backupd'', ''captured'']"
    define s2 where "s2 = stage ''dhcp6'' (applyDhcp6 (pf_nl pf) (f_dhcp6 dir))
      (stage ''dhcp4'' (applyDhcp4 (pf_nl pf) (new_handle pf) (f_dhcp4 dir)) (w1, []))"
    define s3 where "s3 = (if crashed (snd s2) then s2 else (fst s2\<lparr>signalled := signalled (fst s2) @ ?procs\<rparr>, snd s2))"
    define ifname where "ifname = (case uplinkInterface (fst s3) of Inl _ \<Rightarrow> '''' | Inr n \<Rightarrow> n)"
    define s4 where "s4 = stage ''sysctl'' (applySysctl (pf_nl pf) ifname) s3"
    define s5 where "s5 = stage ''firewall'' (firewall_step pf (f_forwardings dir) ifname) s4"
    have fin: "(w', errs) = stage ''wireguard'' (applyWireGuard (pf_nl pf) (pf_wg pf) (f_wireguard dir)) s5"
      using assms(2) unfolding Apply_def i Inr Let_def prod.case sum.case s5_def s4_def ifname_def s3_def s2_def
      by (rule sym)
    have before: "fw_sig (fst s4) = (ruleset w, signalled w @ (if crashed (snd s2) then [] else ?procs))"
      using stage_keeps [OF keeps_sysctl] stage_keeps [OF keeps_dhcp6 [OF assms(1)]]
        stage_keeps [OF keeps_dhcp4 [OF assms(1)]] w1 by (simp add: s2_def s3_def s4_def)
    have "\<not> crashed errs \<Longrightarrow> \<not> crashed (snd s2)"
      using firewall_stages(1) [OF assms(1) before _ s5_def fin]
        not_crashed_before [of "''sysctl''" "applySysctl (pf_nl pf) ifname" s3] by (auto simp: s3_def s4_def split: if_splits)
    then show ?thesis
      using firewall_stages(2,3) [OF assms(1) before _ s5_def fin, unfolded fst_conv snd_conv] i Inr by auto
  qed
qed

definition demo_cfg :: InterfaceConfig where
  "demo_cfg = \<lparr>Interfaces = [\<lparr>cfg_HardwareAddr = mac_string [2, 0x73, 0x53, 0, 0xb0, 0x0c], cfg_SpoofHardwareAddr = [],
     cfg_Name = ''lan0'', cfg_Addr = IP4_String [192, 168, 42, 1] @ ''/'' @ itoa 24\<rparr>], Bridges = []\<rparr>"

lemma demo_details: "details_for demo_cfg (links demo_world ! Suc 0) = Some (Interfaces demo_cfg ! 0)"
    "details_for demo_cfg (links demo_world ! 0) = None"
  by (simp_all add: details_for_def demo_world_def demo_cfg_def by_name_def by_hardware_addr_def Let_def
      mac_string_Nil_iff del: mac_string.simps(2,3))

lemma demo_apply: "\<exists>w'. applyInterfaces plain_netlink pm root (Decoded demo_cfg) demo_world = (w', Inr ())"
proof -
  have p: "nl_ParseAddr plain_netlink (cfg_Addr (Interfaces demo_cfg ! 0)) = Inr (v4InV6Prefix @ [192, 168, 42, 1], 24)"
    using ParseCIDR_String [of "[192, 168, 42, 1]" 24] by (simp add: plain_netlink_def demo_cfg_def)
  have spoof: "cfg_SpoofHardwareAddr (Interfaces demo_cfg ! 0) = ''''" by (simp add: demo_cfg_def)
  have l: "nl_LinkList plain_netlink demo_world = Inr [links demo_world ! 0, links demo_world ! Suc 0]"
    by (simp add: plain_netlink_def demo_world_def)
  have b: "fst (applyBridges plain_netlink demo_cfg demo_world) = demo_world"
    by (simp add: applyBridges_def demo_cfg_def retIO_def)
  have "succeeds (eachIO (apply_link plain_netlink pm root demo_cfg) [links demo_world ! 0, links demo_world ! Suc 0])"
    by (simp add: apply_link_def demo_details apply_details_def p spoof del: append.simps) (intro succeeds_intros)
  from succeedsD [OF this] show ?thesis
    unfolding applyInterfaces_def json_file.case b bindIO_query [of "nl_LinkList plain_netlink", OF l] .
qed

lemma interfaces_configured_witness:
  "\<exists>w'. applyInterfaces plain_netlink (\<lambda>_. Inl (Err ''mac'')) ''/'' (Decoded demo_cfg) demo_world = (w', Inr ()) \<and>
     (\<exists>x \<in> set (links w'). l_index x = 1 \<and> l_name x = ''lan0'' \<and> l_up x)"
proof -
  obtain w' where w': "applyInterfaces plain_netlink (\<lambda>_. Inl (Err ''mac'')) ''/'' (Decoded demo_cfg) demo_world = (w', Inr ())"
    using demo_apply by blast
  have b: "fst (applyBridges plain_netlink demo_cfg demo_world) = demo_world"
    by (simp add: applyBridges_def demo_cfg_def retIO_def)
  show ?thesis
    using interfaces_configured [OF netlink_ok_plain w' refl _ _ _ demo_details(1)] w' unfolding b
    by (simp add: demo_world_def demo_cfg_def) blast
qed

definition demo_platform :: platform where
  "demo_platform =
     \<lparr>pf_nl = plain_netlink, parse_mac = (\<lambda>_. Inl (Err ''mac'')), new_handle = Inr (),
      pf_wg = \<lparr>wg_handles = Inr (), wg_exists = (\<lambda>_. False), wg_key = (\<lambda>_. Inl (Err ''key'')),
             wg_resolve = (\<lambda>_. Inl (Err ''dns'')), wg_configure = (\<lambda>_ _ _ _. Inr ())\<rparr>,
      pf_put16 = plain_put16, get_obj = (\<lambda>_. Inr []),
      default_counter = \<lparr>co_table = (IPv4Family, []), co_name = [], Bytes = 0, Packets = 0\<rparr>\<rparr>"

definition demo_dir :: Dir where
  "demo_dir = \<lparr>f_interfaces = NotExist, f_dhcp4 = Unreadable (Err ''json''), f_dhcp6 = NotExist,
     f_forwardings = NotExist, f_wireguard = NotExist\<rparr>"

lemma plain_frame: "netlink_frame plain_netlink"
  by (auto simp: netlink_frame_def plain_netlink_def on_link_def split: netcall.splits)

lemma apply_reaches_firewall_witness:
  "\<exists>w' errs. Apply demo_platform demo_dir ''/'' demo_world = (w', errs) \<and>
     errs = [Err ''dhcp4: json''] \<and> hd (ruleset w') = FlushRuleset"
proof -
  obtain w' errs where a: "Apply demo_platform demo_dir ''/'' demo_world = (w', errs)" by (rule prod.exhaust)
  have io: "succeeds (applySysctl plain_netlink n)" for n
    unfolding applySysctl_def write_sysctl_def Let_def by (intro succeeds_intros)
  have fw: "\<exists>rs. applyFirewall plain_put16 dc go (nl_Flush plain_netlink) NotExist n r = (rs, Inr ()) \<and> hd rs = FlushRuleset" for dc go n r
    by (simp add: applyFirewall_def firewall_msgs_def applyPortForwardings_def plain_netlink_def Let_def add_filter_def)
  have s: "snd (stage name m s) = snd s" if "succeeds m" for name m s
    using succeedsD [OF that, of "fst s"] by (auto simp: stage_def)
  have w: "succeeds (firewall_step demo_platform NotExist n)" for n
    unfolding succeeds_def
  proof
    fix w :: World
    obtain rs where "applyFirewall plain_put16 (default_counter demo_platform) (get_obj demo_platform)
        (nl_Flush plain_netlink) NotExist n (ruleset w) = (rs, Inr ())" using fw by blast
    then have "firewall_step demo_platform NotExist n w = (w\<lparr>ruleset := rs\<rparr>, Inr ())"
      by (simp add: firewall_step_def demo_platform_def)
    then show "\<exists>w' x. firewall_step demo_platform NotExist n w = (w', Inr x)" by blast
  qed
  have nl: "pf_nl demo_platform = plain_netlink" by (simp add: demo_platform_def)
  have r: "applyInterfaces plain_netlink pm root NotExist = retIO ()" "applyDhcp6 plain_netlink NotExist = retIO ()"
    "applyWireGuard plain_netlink cl NotExist = retIO ()" for pm root cl
    by (simp_all add: applyInterfaces_def applyDhcp6_def applyWireGuard_def)
  have d: "stage name (applyDhcp4 plain_netlink nh (Unreadable e)) (w, []) = (w, [prefixed name e])" for name nh e w
    by (simp add: stage_def applyDhcp4_def liftIO_def crashed_def)
  have "snd (Apply demo_platform demo_dir ''/'' demo_world) = [Err ''dhcp4: json'']"
    by (simp add: Apply_def demo_dir_def nl r retIO_def [of "()", THEN fun_cong] Let_def s [OF w] s [OF io] s [OF succeeds_rules(1)] d)
  then have errs: "errs = [Err ''dhcp4: json'']" using a by simp
  have "\<not> crashed errs" by (simp add: errs crashed_def)
  then obtain n res where "applyFirewall plain_put16 (default_counter demo_platform) (get_obj demo_platform)
      (nl_Flush plain_netlink) NotExist n (ruleset demo_world) = (ruleset w', res)"
    using apply_reaches_firewall [of demo_platform demo_dir "''/''" demo_world, OF _ a] plain_frame
    by (auto simp: demo_platform_def demo_dir_def applyInterfaces_def retIO_def)
  then have "hd (ruleset w') = FlushRuleset" using fw by (metis fst_conv)
  then show ?thesis using a errs by blast
qed

end
