(* ===== verification/Dhcp4ClientProps.thy ===== *)
theory Dhcp4ClientProps
  imports Dhcp4Client
begin

text \<open>
  What an exchange of the DHCPv4 client can end with: the packets it sends, the answers it accepts,
  the errors, and the lease it keeps.
\<close>

section \<open>Waiting for an answer\<close>

definition offers :: "dhcp4_pkg \<Rightarrow> 32 word \<Rightarrow> DHCPv4 \<Rightarrow> bool" where
  "offers lib xid p \<longleftrightarrow> Xid p = xid \<and> HasMessageType lib (Options4 p) MsgOffer"

definition acks :: "dhcp4_pkg \<Rightarrow> 32 word \<Rightarrow> DHCPv4 \<Rightarrow> bool" where
  "acks lib xid p \<longleftrightarrow> Xid p = xid \<and> HasMessageType lib (Options4 p) MsgAck"

definition naks :: "dhcp4_pkg \<Rightarrow> 32 word \<Rightarrow> DHCPv4 \<Rightarrow> bool" where
  "naks lib xid p \<longleftrightarrow> Xid p = xid \<and> HasMessageType lib (Options4 p) MsgNak"

text \<open>\<open>p\<close> arrives, and before it nothing but packets outside \<open>stop\<close> and non-DHCP ones.\<close>

definition first_answer :: "(DHCPv4 \<Rightarrow> bool) \<Rightarrow> DHCPv4 \<Rightarrow> read4 list \<Rightarrow> bool" where
  "first_answer stop p rs \<longleftrightarrow>
     (\<exists>pre post. rs = pre @ Packet p # post \<and>
        (\<forall>r \<in> set pre. r = NotDhcp \<or> (\<exists>q. r = Packet q \<and> \<not> stop q)))"

lemma first_answer_Nil [simp]: "\<not> first_answer stop p []"
  by (simp add: first_answer_def)

lemma first_answer_Cons:
  "first_answer stop p (r # rs) \<longleftrightarrow>
     r = Packet p \<or> (r = NotDhcp \<or> (\<exists>q. r = Packet q \<and> \<not> stop q)) \<and> first_answer stop p rs"
  (is "?l \<longleftrightarrow> ?r")
proof
  assume ?l
  then obtain pre post where pre: "r # rs = pre @ Packet p # post"
    "\<forall>r \<in> set pre. r = NotDhcp \<or> (\<exists>q. r = Packet q \<and> \<not> stop q)"
    by (auto simp: first_answer_def)
  then show ?r by (cases pre) (auto simp: first_answer_def)
next
  assume r: ?r
  show ?l
  proof (cases "r = Packet p")
    case True
    then have "r # rs = [] @ Packet p # rs" by simp
    then show ?thesis unfolding first_answer_def by (metis empty_iff list.set(1))
  next
    case False
    then obtain pre post where "rs = pre @ Packet p # post"
      "\<forall>r \<in> set pre. r = NotDhcp \<or> (\<exists>q. r = Packet q \<and> \<not> stop q)"
      and "r = NotDhcp \<or> (\<exists>q. r = Packet q \<and> \<not> stop q)"
      using r by (auto simp: first_answer_def)
    then have "r # rs = (r # pre) @ Packet p # post \<and>
        (\<forall>r \<in> set (r # pre). r = NotDhcp \<or> (\<exists>q. r = Packet q \<and> \<not> stop q))" by simp
    then show ?thesis unfolding first_answer_def by blast
  qed
qed

lemma await_offer_iff: "await_offer lib xid rs = Inr p \<longleftrightarrow> offers lib xid p \<and> first_answer (offers lib xid) p rs"
  by (induction rs) (auto simp: first_answer_Cons offers_def split: read4.split)

lemma await_ack_iff:
  "await_ack lib xid rs = Inr p \<longleftrightarrow>
     acks lib xid p \<and> first_answer (\<lambda>q. acks lib xid q \<or> naks lib xid q) p rs"
  by (induction rs) (auto simp: first_answer_Cons acks_def naks_def split: read4.split)

lemma await_ack_nak:
  "await_ack lib xid rs = Inl errNAK \<Longrightarrow>
     Failed errNAK \<in> set rs \<or> (\<exists>p. Packet p \<in> set rs \<and> naks lib xid p \<and> \<not> acks lib xid p)"
  by (induction rs) (auto simp: acks_def naks_def split: read4.splits if_splits)

section \<open>A client that is set up\<close>

definition ready :: "Client4 \<Rightarrow> bool" where
  "ready c \<longleftrightarrow> once4 c \<and> onceErr c = None \<and> generateXID c \<noteq> None"

definition next_xid :: "Client4 \<Rightarrow> 32 word" where
  "next_xid c = (case generateXID c of None \<Rightarrow> 0 | Some g \<Rightarrow> g (xids c))"

definition drawn :: "Client4 \<Rightarrow> Client4" where
  "drawn c = (if Ack c = None then c\<lparr>xids := xids c + 1\<rparr> else c)"

lemma draw_xid_ready: "ready c \<Longrightarrow> draw_xid c = Inr (next_xid c, c\<lparr>xids := xids c + 1\<rparr>)"
  by (auto simp: ready_def draw_xid_def next_xid_def)

lemma packet4_fields [simp]: "Xid (packet4 c xid os) = xid" "Options4 (packet4 c xid os) = os"
  by (simp_all add: packet4_def)

lemma discover_xid [simp]: "Xid (discover_packet lib c xid) = xid"
  by (simp add: discover_packet_def)

lemma request_xid [simp]: "Xid (request_packet lib c l) = Xid l"
  by (simp add: request_packet_def)

lemma packets_depend [simp]:
  "discover_packet lib (c\<lparr>xids := n\<rparr>) xid = discover_packet lib c xid"
  "request_packet lib (c\<lparr>xids := n\<rparr>) l = request_packet lib c l"
  "discover_packet lib (c\<lparr>err4 := e\<rparr>) xid = discover_packet lib c xid"
  "request_packet lib (c\<lparr>err4 := e\<rparr>) l = request_packet lib c l"
  by (simp_all add: discover_packet_def request_packet_def packet4_def hw_of_def)

text \<open>What the client has in hand before it sends its DHCPREQUEST.\<close>

definition offered :: "dhcp4_pkg \<Rightarrow> env4 \<Rightarrow> Client4 \<Rightarrow> dhcp_err + DHCPv4" where
  "offered lib env c =
     (case Ack c of
        Some a \<Rightarrow> Inr a
      | None \<Rightarrow> (case write_discover env of
                  Some e \<Rightarrow> Inl e
                | None \<Rightarrow> await_offer lib (next_xid c) (in_offer env)))"

definition discovers :: "dhcp4_pkg \<Rightarrow> Client4 \<Rightarrow> DHCPv4 list" where
  "discovers lib c = (if Ack c = None then [discover_packet lib c (next_xid c)] else [])"

definition answer :: "dhcp4_pkg \<Rightarrow> env4 \<Rightarrow> DHCPv4 \<Rightarrow> dhcp_err + DHCPv4" where
  "answer lib env l =
     (case write_request env of Some e \<Rightarrow> Inl e | None \<Rightarrow> await_ack lib (Xid l) (in_ack env))"

lemma find_offer_ready:
  "ready c \<Longrightarrow> find_offer lib env c = Inr (drawn c, discovers lib c, offered lib env c)"
  by (auto simp: find_offer_def draw_xid_ready drawn_def discovers_def offered_def split: option.split)

lemma dhcpRequest_ready:
  "ready c \<Longrightarrow> dhcpRequest lib env c =
     (case offered lib env c of
        Inl e \<Rightarrow> Inr (drawn c, discovers lib c, Inl e)
      | Inr l \<Rightarrow> Inr (drawn c, discovers lib c @ [request_packet lib c l], answer lib env l))"
  by (auto simp: dhcpRequest_def find_offer_ready drawn_def answer_def Let_def split: sum.split option.split)

lemma run_once_ready: "ready c \<Longrightarrow> run_once lib env c = Inr c"
  by (simp add: run_once_def ready_def)

lemma next_xid_err4 [simp]: "next_xid (c\<lparr>err4 := e\<rparr>) = next_xid c"
  by (cases "generateXID c") (simp_all add: next_xid_def)

lemma ready_upd [simp]: "ready (c\<lparr>err4 := e\<rparr>) = ready c" "drawn (c\<lparr>err4 := e\<rparr>) = drawn c\<lparr>err4 := e\<rparr>"
  "discovers lib (c\<lparr>err4 := e\<rparr>) = discovers lib c" "offered lib env (c\<lparr>err4 := e\<rparr>) = offered lib env c"
  by (simp_all add: ready_def drawn_def discovers_def offered_def split: option.split)

lemma drawn_fields [simp]: "cfg4 (drawn c) = cfg4 c" "Ack (drawn c) = Ack c" "ready (drawn c) = ready c"
  "once4 (drawn c) = once4 c" "onceErr (drawn c) = onceErr c" "generateXID (drawn c) = generateXID c"
  by (simp_all add: drawn_def ready_def)

text \<open>A call of a client that is set up, with the exchange spelt out.\<close>

definition exchange :: "dhcp4_pkg \<Rightarrow> env4 \<Rightarrow> Client4 \<Rightarrow> dhcp_err + DHCPv4" where
  "exchange lib env c = (case offered lib env c of Inl e \<Rightarrow> Inl e | Inr l \<Rightarrow> answer lib env l)"

definition exchange_sent :: "dhcp4_pkg \<Rightarrow> env4 \<Rightarrow> Client4 \<Rightarrow> DHCPv4 list" where
  "exchange_sent lib env c =
     discovers lib c @ (case offered lib env c of Inl _ \<Rightarrow> [] | Inr l \<Rightarrow> [request_packet lib c l])"

definition failure_text :: "dhcp_err \<Rightarrow> string" where
  "failure_text e =
     (if e = EAGAIN then ''DHCP: timeout (server(s) unreachable)'' else ''DHCP: '' @ err_text e)"

lemma ObtainOrRenew_ready:
  assumes "ready c"
  shows "ObtainOrRenew lib env c =
    (case exchange lib env c of
       Inl e \<Rightarrow> Inr (drawn c\<lparr>err4 := Some (failure_text e), Ack := if e = errNAK then None else Ack c\<rparr>,
                    exchange_sent lib env c, True)
     | Inr ack \<Rightarrow> bindR (take_lease (LeaseFromACK lib ack) (now4 env) ack (cfg4 c)) (\<lambda>cfg.
         Inr (drawn c\<lparr>err4 := None, Ack := Some ack, cfg4 := cfg\<rparr>, exchange_sent lib env c, True)))"
proof -
  have once: "onceErr c = None" using assms by (simp add: ready_def)
  note open_defs = ObtainOrRenew_def run_once_ready [OF assms] dhcpRequest_ready exchange_def exchange_sent_def
    failure_text_def once
  show ?thesis
  proof (cases "offered lib env c")
    case (Inl e)
    then show ?thesis using assms by (cases e) (simp_all add: open_defs)
  next
    case (Inr l)
    show ?thesis
    proof (cases "answer lib env l")
      case (Inl e)
      then show ?thesis using assms Inr by (cases e) (simp_all add: open_defs)
    next
      case (Inr ack)
      then show ?thesis using assms \<open>offered lib env c = Inr l\<close> by (simp add: open_defs)
    qed
  qed
qed

lemma offered_iff:
  "offered lib env c = Inr l \<longleftrightarrow>
     (case Ack c of
        Some a \<Rightarrow> l = a
      | None \<Rightarrow> write_discover env = None \<and> offers lib (next_xid c) l \<and>
                first_answer (offers lib (next_xid c)) l (in_offer env))"
  by (auto simp: offered_def await_offer_iff split: option.split)

lemma exchange_iff:
  "exchange lib env c = Inr ack \<longleftrightarrow>
     (\<exists>l. offered lib env c = Inr l \<and> write_request env = None \<and> acks lib (Xid l) ack \<and>
        first_answer (\<lambda>q. acks lib (Xid l) q \<or> naks lib (Xid l) q) ack (in_ack env))"
  by (auto simp: exchange_def answer_def await_ack_iff split: sum.split option.split)

section \<open>The lease of an ACK\<close>

definition mask_ok :: "bytes \<Rightarrow> bool" where
  "mask_ok m \<longleftrightarrow> m = [] \<or> 4 \<le> length m"

definition new_config :: "Lease4 \<Rightarrow> time \<Rightarrow> DHCPv4 \<Rightarrow> Dhcp4Config \<Rightarrow> Dhcp4Config" where
  "new_config lease now ack cfg =
     \<lparr>c4_RenewAfter = now + l4_RenewalTime lease, c4_ClientIP = IP_String (YourClientIP ack),
      c4_SubnetMask = (if l4_Netmask lease = [] then c4_SubnetMask cfg else IP4_String (take 4 (l4_Netmask lease))),
      c4_Router = (if l4_Router lease = [] then c4_Router cfg else IP_String (l4_Router lease)),
      c4_DNS = (if l4_DNS lease = [] then c4_DNS cfg else map IP_String (l4_DNS lease))\<rparr>"

lemma take_lease_iff:
  "take_lease lease now ack cfg = Inr cfg' \<longleftrightarrow> mask_ok (l4_Netmask lease) \<and> cfg' = new_config lease now ack cfg"
  by (auto simp: take_lease_def mask_ok_def new_config_def mask_String_def bindR_eq_Inr Let_def)

lemma take_lease_panic:
  "take_lease lease now ack cfg = Inl e \<longleftrightarrow> \<not> mask_ok (l4_Netmask lease) \<and> e = Panic ''index out of range''"
  by (auto simp: take_lease_def mask_ok_def mask_String_def bindR_eq_Inl Let_def)

section \<open>Properties\<close>

text \<open>
  C9. A client that is set up obtains or renews its lease with the packet \<open>ack\<close> exactly if: it can
  send; when it has no earlier ACK, a DHCPOFFER with its transaction identifier arrives before any
  error; and \<open>ack\<close> is the first DHCPACK or DHCPNAK of that transaction and arrives before any error.
  A subnet mask of one to three bytes makes it panic instead.
\<close>

theorem obtain_iff:
  assumes "ready c"
  shows "(\<exists>c' sent. ObtainOrRenew lib env c = Inr (c', sent, True) \<and> err4 c' = None \<and> Ack c' = Some ack) \<longleftrightarrow>
    (\<exists>l. (case Ack c of
            Some a \<Rightarrow> l = a
          | None \<Rightarrow> write_discover env = None \<and> offers lib (next_xid c) l \<and>
                    first_answer (offers lib (next_xid c)) l (in_offer env)) \<and>
         write_request env = None \<and> acks lib (Xid l) ack \<and>
         first_answer (\<lambda>q. acks lib (Xid l) q \<or> naks lib (Xid l) q) ack (in_ack env)) \<and>
    (let m = l4_Netmask (LeaseFromACK lib ack) in m = [] \<or> 4 \<le> length m)"
proof -
  have "(\<exists>c' sent. ObtainOrRenew lib env c = Inr (c', sent, True) \<and> err4 c' = None \<and> Ack c' = Some ack) \<longleftrightarrow>
      exchange lib env c = Inr ack \<and> mask_ok (l4_Netmask (LeaseFromACK lib ack))"
    by (auto simp: ObtainOrRenew_ready [OF assms] bindR_eq_Inr take_lease_iff split: sum.splits)
  then show ?thesis
    unfolding exchange_iff offered_iff mask_ok_def Let_def by blast
qed

text \<open>
  C18. Whatever happens, a call of a client that is set up returns true. It starts with a DHCPDISCOVER
  exactly if there is no earlier ACK; the DHCPREQUEST asks for the address of the packet at hand and
  names its server. An error leaves the lease alone; only a DHCPNAK makes the client forget its ACK,
  so that it starts over. An answer replaces the ACK and those parts of the lease that it has.
\<close>

theorem obtain_outcome:
  assumes "ready c" "ObtainOrRenew lib env c = Inr (c', sent, again)"
  shows "again \<and> ready c' \<and>
    sent = (if Ack c = None then [discover_packet lib c (next_xid c)] else []) @
      (case offered lib env c of Inl _ \<Rightarrow> [] | Inr l \<Rightarrow> [request_packet lib c l]) \<and>
    (case exchange lib env c of
       Inl e \<Rightarrow> err4 c' = Some (failure_text e) \<and> cfg4 c' = cfg4 c \<and>
         Ack c' = (if e = errNAK then None else Ack c)
     | Inr ack \<Rightarrow> err4 c' = None \<and> Ack c' = Some ack \<and>
         cfg4 c' = new_config (LeaseFromACK lib ack) (now4 env) ack (cfg4 c))"
proof (cases "exchange lib env c")
  case (Inl e)
  then show ?thesis
    using assms by (auto simp: ObtainOrRenew_ready exchange_sent_def discovers_def ready_def)
next
  case (Inr ack)
  then obtain cfg where "take_lease (LeaseFromACK lib ack) (now4 env) ack (cfg4 c) = Inr cfg"
    "c' = drawn c\<lparr>err4 := None, Ack := Some ack, cfg4 := cfg\<rparr>" "sent = exchange_sent lib env c" again
    using assms by (auto simp: ObtainOrRenew_ready bindR_eq_Inr)
  then show ?thesis
    using assms(1) Inr by (auto simp: take_lease_iff exchange_sent_def discovers_def ready_def)
qed

section \<open>A concrete exchange\<close>

text \<open>The options in the encoding of RFC 2132, as far as the example needs it.\<close>

fun type_code :: "MsgType \<Rightarrow> byte" where
  "type_code MsgDiscover = 1" | "type_code MsgOffer = 2" | "type_code MsgRequest = 3"
| "type_code MsgAck = 5" | "type_code MsgNak = 6" | "type_code MsgRelease = 7"

definition opt_data :: "DHCPv4 \<Rightarrow> byte \<Rightarrow> bytes" where
  "opt_data p t = (case find (\<lambda>x. o_Type x = t) (Options4 p) of None \<Rightarrow> [] | Some x \<Rightarrow> o_Data x)"

definition plain_dhcp4 :: dhcp4_pkg where
  "plain_dhcp4 =
     \<lparr>MessageTypeOpt = (\<lambda>t. \<lparr>o_Type = 53, o_Data = [type_code t]\<rparr>),
      HostnameOpt = (\<lambda>h. \<lparr>o_Type = 12, o_Data = map (\<lambda>c. of_nat (of_char c)) h\<rparr>),
      ClientIDOpt = (\<lambda>t a. \<lparr>o_Type = 61, o_Data = of_nat t # a\<rparr>),
      ParamsRequestOpt = \<lparr>o_Type = 55, o_Data = [6, 3, 1]\<rparr>,
      RequestIPOpt = (\<lambda>ip. \<lparr>o_Type = 50, o_Data = ip\<rparr>),
      HasMessageType = (\<lambda>os t. list_ex (\<lambda>x. o_Type x = 53 \<and> o_Data x = [type_code t]) os),
      LeaseFromACK = (\<lambda>p. \<lparr>l4_Netmask = opt_data p 1, l4_Router = opt_data p 3, l4_DNS = [opt_data p 6],
                        l4_RenewalTime = 804 * Second\<rparr>),
      XIDGenerator = (\<lambda>hw n. 0x7708d724 + of_nat n)\<rparr>"

definition server_packet :: "MsgType \<Rightarrow> DHCPv4" where
  "server_packet t =
     \<lparr>Operation = 2, HardwareType = 1, HardwareLen = 6, HardwareOpts = 0, Xid = 0x7708d724, Secs = 0, Flags = 0,
      ClientIP = [], YourClientIP = [85, 195, 207, 62], ClientHWAddr = [0xd8, 0x58, 0xd7, 0, 0x4e, 0xdf],
      Options4 = [\<lparr>o_Type = 53, o_Data = [type_code t]\<rparr>, \<lparr>o_Type = 54, o_Data = [10, 0, 0, 1]\<rparr>,
        \<lparr>o_Type = 1, o_Data = [255, 255, 255, 128]\<rparr>, \<lparr>o_Type = 3, o_Data = [85, 195, 207, 1]\<rparr>,
        \<lparr>o_Type = 6, o_Data = [77, 109, 128, 2]\<rparr>]\<rparr>"

definition no_config :: Dhcp4Config where
  "no_config = \<lparr>c4_RenewAfter = 0, c4_ClientIP = [], c4_SubnetMask = [], c4_Router = [], c4_DNS = []\<rparr>"

definition demo_client4 :: Client4 where
  "demo_client4 =
     \<lparr>Interface4 = None, HWAddr = None, err4 = None, once4 = True, onceErr = None, connection = True,
      hardwareAddr = Some [0xd8, 0x58, 0xd7, 0, 0x4e, 0xdf], hostname = ''router7'', cfg4 = no_config,
      generateXID = Some (\<lambda>_. 0x7708d724), xids = 0, Ack = None\<rparr>"

definition demo_env4 :: env4 where
  "demo_env4 =
     \<lparr>listen4 = None, uname = Inr [0], now4 = 0, write_discover = None,
      in_offer = [NotDhcp, Packet (server_packet MsgOffer)], write_request = None,
      in_ack = [Packet (server_packet MsgOffer), Packet (server_packet MsgAck)], write_release = None\<rparr>"

lemmas demo4_defs = demo_client4_def demo_env4_def plain_dhcp4_def server_packet_def

lemma demo_ready: "ready demo_client4"
  by (simp add: ready_def demo_client4_def)

lemma demo_exchange: "exchange plain_dhcp4 demo_env4 demo_client4 = Inr (server_packet MsgAck)"
  by (simp add: exchange_def offered_def answer_def next_xid_def demo4_defs)

lemma demo_answers:
  "next_xid demo_client4 = 0x7708d724" "Xid (server_packet t) = 0x7708d724" "Ack demo_client4 = None"
  "write_discover demo_env4 = None" "write_request demo_env4 = None"
  "offers plain_dhcp4 0x7708d724 (server_packet MsgOffer)"
  "acks plain_dhcp4 0x7708d724 (server_packet MsgAck)"
  "\<not> acks plain_dhcp4 0x7708d724 (server_packet MsgOffer)" "\<not> naks plain_dhcp4 0x7708d724 (server_packet MsgOffer)"
  "l4_Netmask (LeaseFromACK plain_dhcp4 (server_packet t)) = [255, 255, 255, 128]"
  "in_offer demo_env4 = [NotDhcp, Packet (server_packet MsgOffer)]"
  "in_ack demo_env4 = [Packet (server_packet MsgOffer), Packet (server_packet MsgAck)]"
  by (simp_all add: next_xid_def offers_def acks_def naks_def opt_data_def demo4_defs)

lemma obtain_iff_witness:
  "\<exists>c' sent. ObtainOrRenew plain_dhcp4 demo_env4 demo_client4 = Inr (c', sent, True) \<and> err4 c' = None \<and>
     Ack c' = Some (server_packet MsgAck)"
  unfolding obtain_iff [OF demo_ready]
  by (intro conjI exI [of _ "server_packet MsgOffer"]) (simp_all add: demo_answers first_answer_Cons)

lemma obtain_outcome_witness:
  "\<exists>c' sent. ObtainOrRenew plain_dhcp4 demo_env4 demo_client4 = Inr (c', sent, True) \<and>
     length sent = 2 \<and> c4_SubnetMask (cfg4 c') = IP4_String [255, 255, 255, 128]"
proof -
  let ?ack = "server_packet MsgAck"
  have "take_lease (LeaseFromACK plain_dhcp4 ?ack) (now4 demo_env4) ?ack (cfg4 demo_client4) =
      Inr (new_config (LeaseFromACK plain_dhcp4 ?ack) (now4 demo_env4) ?ack (cfg4 demo_client4))"
    by (simp add: take_lease_iff mask_ok_def demo_answers)
  then obtain c' sent where c': "ObtainOrRenew plain_dhcp4 demo_env4 demo_client4 = Inr (c', sent, True)"
    by (simp add: ObtainOrRenew_ready [OF demo_ready] demo_exchange)
  have "offered plain_dhcp4 demo_env4 demo_client4 = Inr (server_packet MsgOffer)"
    by (simp add: offered_iff first_answer_Cons demo_answers)
  then show ?thesis
    using obtain_outcome [OF demo_ready c'] c' demo_exchange
    by (auto simp: new_config_def demo_answers)
qed

end
