(* ===== verification/Dhcp4Daemon.thy ===== *)
theory Dhcp4Daemon
  imports Backoff NetconfigProps Dhcp4ClientProps
begin

text \<open>
  \<open>cmd/dhcp4/dhcp4.go\<close>: the daemon that keeps the uplink's lease, as a machine. Its events are one
  call of \<open>ObtainOrRenew\<close> with what follows it, and in the inner loop the three cases of the select
  statement: the renewal time, a minute with the result of the health check, and SIGUSR2. An event
  that the current position in the code does not wait for changes nothing.
\<close>

section \<open>The health check\<close>

datatype http_result = HttpFail fault | HttpReply nat string "string result" "string result"

text \<open>
  The reply's status code and status text, its body, and the \<open>first_error\<close> decoded from the body. A
  failure covers the request itself, whose errors are returned as they are.
\<close>

definition healthy :: "http_result \<Rightarrow> fault option" where
  "healthy r =
     (case r of
        HttpFail e \<Rightarrow> Some e
      | HttpReply status statusText body firstError \<Rightarrow>
          if status \<noteq> 200
          then Some (Err (''http://localhost:7733/health.json: got HTTP '' @ statusText @ '' ('' @
                 (case body of Inl _ \<Rightarrow> '''' | Inr b \<Rightarrow> b) @ ''), want HTTP status 200''))
          else (case body of
                  Inl e \<Rightarrow> Some e
                | Inr _ \<Rightarrow> (case firstError of
                              Inl e \<Rightarrow> Some e
                            | Inr msg \<Rightarrow> if msg \<noteq> '''' then Some (Err msg) else None)))"

section \<open>The daemon\<close>

text \<open>
  Where the code is: about to call \<open>ObtainOrRenew\<close>, in the select statement, or ended by a return, an
  exit or a panic.
\<close>

datatype position4 = Obtaining | Selecting | Returned "string option" | Exited nat | Crashed string

record Daemon4 =
  client4 :: Client4
  position4 :: position4
  unhealthyCycles :: nat
  lease_file :: "Dhcp4Config option"
  ack_file :: "DHCPv4 option"
  boff4 :: Backoff

text \<open>The paths (which the package uses without declaring them) and the errors of the file operations.\<close>

record files4 =
  leasePath :: string
  ackFn :: string
  marshal_err :: "string option"
  write_lease_err :: "string option"
  write_ack_err :: "string option"
  remove_err :: "string option"

datatype event4 =
  EvObtain env4 files4
| EvRenew
| EvMinute http_result
| EvUsr2 env4 files4

datatype output4 = Sent DHCPv4 | Notify string | Backoff string Backoff

definition start_client4 ::
    "string list \<Rightarrow> (string \<Rightarrow> bytes result) \<Rightarrow> InterfaceConfig json_file \<Rightarrow> (string \<Rightarrow> bytes result) \<Rightarrow>
     DHCPv4 option result \<Rightarrow> Client4 result" where
  "start_client4 DHCPInterfaces interfaceByName file parseMAC dhcpMessages =
     (case DHCPInterfaces of
        [] \<Rightarrow> Inl (Panic ''index out of range'')
      | netInterface # _ \<Rightarrow>
          bindR (interfaceByName netInterface) (\<lambda>mac.
          let hw = (case Interface file netInterface of
                      Inl _ \<Rightarrow> mac
                    | Inr details \<Rightarrow>
                        if cfg_SpoofHardwareAddr details \<noteq> ''''
                        then (case parseMAC (cfg_SpoofHardwareAddr details) of Inl _ \<Rightarrow> mac | Inr a \<Rightarrow> a)
                        else mac);
              ack = (case dhcpMessages of Inl _ \<Rightarrow> None | Inr a \<Rightarrow> a)
          in Inr \<lparr>Interface4 = Some mac, HWAddr = Some hw, err4 = None, once4 = False, onceErr = None,
                  connection = False, hardwareAddr = None, hostname = '''', cfg4 = no_config,
                  generateXID = None, xids = 0, Ack = ack\<rparr>))"

text \<open>The literal with which \<open>logic\<close> sets up the back-off.\<close>

definition new_boff4 :: Backoff where
  "new_boff4 = \<lparr>bo_Factor = 2, bo_Jitter = True, bo_Min = 10 * Second, bo_Max = 1 * Minute, bo_attempt = 0\<rparr>"

definition start4 :: "Client4 \<Rightarrow> Daemon4" where
  "start4 c = \<lparr>client4 = c, position4 = Obtaining, unhealthyCycles = 0, lease_file = None, ack_file = None,
     boff4 = new_boff4\<rparr>"

text \<open>What follows a successful \<open>ObtainOrRenew\<close>, up to the inner loop.\<close>

definition persist4 :: "files4 \<Rightarrow> Daemon4 \<Rightarrow> Daemon4 \<times> output4 list" where
  "persist4 fs d =
     (case marshal_err fs of
        Some e \<Rightarrow> (d\<lparr>position4 := Returned (Some e)\<rparr>, [])
      | None \<Rightarrow>
     (case write_lease_err fs of
        Some e \<Rightarrow> (d\<lparr>position4 := Returned (Some (''persisting lease to '' @ leasePath fs @ '': '' @ e))\<rparr>, [])
      | None \<Rightarrow>
          let d = d\<lparr>lease_file := Some (Config4 (client4 d))\<rparr> in
          (case write_ack_err fs of
             Some e \<Rightarrow> (d\<lparr>position4 := Returned (Some (''persisting DHCPACK to '' @ ackFn fs @ '': '' @ e))\<rparr>, [])
           | None \<Rightarrow>
               (d\<lparr>ack_file := Ack (client4 d), unhealthyCycles := 0, position4 := Selecting\<rparr>,
                [Notify ''/user/netconfigd'']))))"

definition obtain_step :: "dhcp4_pkg \<Rightarrow> env4 \<Rightarrow> files4 \<Rightarrow> Daemon4 \<Rightarrow> Daemon4 \<times> output4 list" where
  "obtain_step lib env fs d =
     (case ObtainOrRenew lib env (client4 d) of
        Inl f \<Rightarrow> (d\<lparr>position4 := Crashed (case f of Panic s \<Rightarrow> s | Err s \<Rightarrow> s)\<rparr>, [])
      | Inr (c, sent, again) \<Rightarrow>
          let d = d\<lparr>client4 := c\<rparr> in
          if \<not> again then (d\<lparr>position4 := Returned (Err4 c)\<rparr>, map Sent sent)
          else (case Err4 c of
                  Some e \<Rightarrow> (d\<lparr>boff4 := count_attempt (boff4 d)\<rparr>, map Sent sent @ [Backoff e (boff4 d)])
                | None \<Rightarrow> (case persist4 fs (d\<lparr>boff4 := Reset (boff4 d)\<rparr>) of (d', out) \<Rightarrow> (d', map Sent sent @ out))))"

definition minute_step :: "http_result \<Rightarrow> Daemon4 \<Rightarrow> Daemon4" where
  "minute_step r d =
     (case healthy r of
        None \<Rightarrow> d\<lparr>unhealthyCycles := 0\<rparr>
      | Some _ \<Rightarrow>
          let d = d\<lparr>unhealthyCycles := unhealthyCycles d + 1\<rparr> in
          if unhealthyCycles d < 20 then d
          else d\<lparr>client4 := (client4 d)\<lparr>Ack := None\<rparr>\<rparr>)"

definition usr2_step :: "dhcp4_pkg \<Rightarrow> env4 \<Rightarrow> files4 \<Rightarrow> Daemon4 \<Rightarrow> Daemon4 \<times> output4 list" where
  "usr2_step lib env fs d =
     (case Release4 lib env (client4 d) of
        Inl f \<Rightarrow> (d\<lparr>position4 := Crashed (case f of Panic s \<Rightarrow> s | Err s \<Rightarrow> s)\<rparr>, [])
      | Inr (c, sent, res) \<Rightarrow>
          let d = d\<lparr>client4 := c\<rparr> in
          (case res of
             Some e \<Rightarrow> (d\<lparr>position4 := Returned (Some (err_text e))\<rparr>, map Sent sent)
           | None \<Rightarrow>
               (case remove_err fs of
                  Some e \<Rightarrow> (d\<lparr>position4 := Returned (Some e)\<rparr>, map Sent sent)
                | None \<Rightarrow> (d\<lparr>ack_file := None, position4 := Exited 125\<rparr>, map Sent sent))))"

fun step4 :: "dhcp4_pkg \<Rightarrow> Daemon4 \<Rightarrow> event4 \<Rightarrow> Daemon4 \<times> output4 list" where
  "step4 lib d (EvObtain env fs) = (if position4 d = Obtaining then obtain_step lib env fs d else (d, []))"
| "step4 lib d EvRenew = (if position4 d = Selecting then (d\<lparr>position4 := Obtaining\<rparr>, []) else (d, []))"
| "step4 lib d (EvMinute r) = (if position4 d = Selecting then (minute_step r d, []) else (d, []))"
| "step4 lib d (EvUsr2 env fs) = (if position4 d = Selecting then usr2_step lib env fs d else (d, []))"

section \<open>The back-off\<close>

fun wait4 :: "output4 \<Rightarrow> Backoff option" where
  "wait4 (Backoff e b) = Some b"
| "wait4 x = None"

fun renewed4 :: "output4 \<Rightarrow> bool" where
  "renewed4 (Notify n) = True"
| "renewed4 x = False"

lemma quiet_Sent: "quiet wait4 renewed4 (map Sent sent)"
  by (simp add: quiet_def)

lemma persist4_counts:
  assumes "persist4 fs d = (d', out)" "boff4 d = Reset b"
  shows "out = [] \<and> position4 d' \<notin> {Obtaining, Selecting} \<or> out = [Notify ''/user/netconfigd''] \<and> boff4 d' = Reset b"
  using assms by (auto simp: persist4_def Let_def split: option.splits)

lemma step4_counts:
  assumes "step4 lib d e = (d', out)"
  shows "(position4 d' \<notin> {Obtaining, Selecting} \<or> boff4 d' = boff4 d) \<and> quiet wait4 renewed4 out \<or>
    (\<exists>pre x. out = pre @ [x] \<and> quiet wait4 renewed4 pre \<and> wait4 x = Some (boff4 d) \<and> \<not> renewed4 x \<and>
       boff4 d' = count_attempt (boff4 d)) \<or>
    (\<exists>pre x post. out = pre @ [x] @ post \<and> quiet wait4 renewed4 pre \<and> wait4 x = None \<and> renewed4 x \<and>
       (\<forall>y \<in> set post. wait4 y = None \<and> renewed4 y) \<and> boff4 d' = Reset (boff4 d))"
  (is "?quiet \<or> ?failure \<or> ?success")
proof (cases "\<exists>env fs. e = EvObtain env fs \<and> position4 d = Obtaining")
  case False
  then have ?quiet
    using assms quiet_Sent
    by (cases e) (auto simp: minute_step_def usr2_step_def Let_def quiet_def split: option.splits sum.splits if_splits)
  then show ?thesis ..
next
  case True
  then obtain env fs where step: "obtain_step lib env fs d = (d', out)" using assms by auto
  show ?thesis
  proof (cases "ObtainOrRenew lib env (client4 d)")
    case (Inl f)
    then have ?quiet using step by (auto simp: obtain_step_def quiet_def)
    then show ?thesis ..
  next
    case (Inr r)
    obtain c sent again where r: "r = (c, sent, again)" by (cases r)
    consider "\<not> again" | e where "again" "err4 c = Some e" | "again" "err4 c = None" by (cases "err4 c") auto
    then show ?thesis
    proof cases
      case 1
      then have ?quiet using step Inr r quiet_Sent by (auto simp: obtain_step_def)
      then show ?thesis ..
    next
      case (2 e)
      then have "out = map Sent sent @ [Backoff e (boff4 d)]" "boff4 d' = count_attempt (boff4 d)"
        using step Inr r by (auto simp: obtain_step_def)
      then have ?failure using quiet_Sent by (intro exI [of _ "map Sent sent"] exI [of _ "Backoff e (boff4 d)"]) simp
      then show ?thesis by blast
    next
      case 3
      then obtain out' where p: "persist4 fs (d\<lparr>client4 := c, boff4 := Reset (boff4 d)\<rparr>) = (d', out')"
        "out = map Sent sent @ out'"
        using step Inr r by (auto simp: obtain_step_def split: prod.splits)
      then show ?thesis
        using persist4_counts [OF p(1), of "boff4 d"] quiet_Sent by fastforce
    qed
  qed
qed

interpretation bo4: backoff_machine "step4 lib" boff4 wait4 renewed4 "\<lambda>d. position4 d \<notin> {Obtaining, Selecting}"
  for lib
proof
  fix d :: Daemon4 and e :: event4
  assume "position4 d \<notin> {Obtaining, Selecting}"
  then show "step4 lib d e = (d, [])" by (cases e) auto
qed (rule step4_counts)

text \<open>
  Whatever happens to the daemon, the wait after a failed attempt is the one for the number of
  failures since the last lease, with the minimum and maximum that the program sets.
\<close>

lemma waits4: "counted wait4 renewed4 new_boff4 (snd (run (step4 lib) (start4 c) es))"
  by (rule bo4.waits) (simp_all add: start4_def new_boff4_def)

section \<open>The end of the process\<close>

text \<open>
  \<open>main\<close>: the exit status once \<open>logic\<close> has returned, exited or panicked (a returned error goes to
  \<open>log.Fatal\<close>). Status 125 tells the supervisor not to start the process again.
\<close>

definition main_status4 :: "Daemon4 \<Rightarrow> nat option" where
  "main_status4 d =
     (case position4 d of
        Returned err \<Rightarrow> Some (if err = None then 0 else 1)
      | Exited n \<Rightarrow> Some n
      | Crashed s \<Rightarrow> Some 2
      | _ \<Rightarrow> None)"

definition given_up :: "Daemon4 \<Rightarrow> bool" where
  "given_up d \<longleftrightarrow> (\<forall>n. position4 d = Exited n \<longrightarrow> n = 125 \<and> ack_file d = None \<and> Ack (client4 d) = None)"

lemma Release4_forgets: "Release4 lib env c = Inr (c', sent, None) \<Longrightarrow> Ack c' = None"
  by (auto simp: Release4_def bindR_eq_Inr Let_def split: option.splits)

lemma persist4_no_exit: "persist4 fs d = (d', out) \<Longrightarrow> position4 d = Obtaining \<Longrightarrow> position4 d' \<noteq> Exited n"
  by (auto simp: persist4_def Let_def split: option.splits)

lemma given_up_step: "given_up d \<Longrightarrow> given_up (fst (step4 lib d e))"
  using Release4_forgets
  by (cases e) (auto simp: obtain_step_def minute_step_def usr2_step_def Let_def given_up_def
      split: sum.splits option.splits prod.splits dest: persist4_no_exit)

interpretation gu: run_machine "step4 lib" given_up for lib
  by unfold_locales (rule given_up_step)

lemma stays_down4:
  assumes "main_status4 (fst (run (step4 lib) (start4 c) es)) = Some 125"
  shows "ack_file (fst (run (step4 lib) (start4 c) es)) = None \<and> Ack (client4 (fst (run (step4 lib) (start4 c) es))) = None"
proof -
  have "given_up (start4 c)" by (simp add: given_up_def start4_def)
  from gu.run_inv [OF this, of lib es] show ?thesis
    using assms by (auto simp: given_up_def main_status4_def split: position4.splits if_splits)
qed

section \<open>Clients that are not set up yet\<close>

definition settled :: "Client4 \<Rightarrow> bool" where
  "settled c \<longleftrightarrow> (once4 c \<longrightarrow> onceErr c = None \<longrightarrow> generateXID c \<noteq> None)"

lemma find_hw_fields:
  "find_hw c = Inr c' \<Longrightarrow> cfg4 c' = cfg4 c \<and> Ack c' = Ack c \<and> once4 c' = once4 c \<and> generateXID c' = generateXID c"
  by (auto simp: find_hw_def Let_def split: if_splits option.splits)

lemma find_hostname_fields:
  "find_hostname env c = Inr c' \<Longrightarrow> cfg4 c' = cfg4 c \<and> Ack c' = Ack c \<and> once4 c' = once4 c \<and> generateXID c' = generateXID c"
  by (auto simp: find_hostname_def split: if_splits sum.splits)

lemma once_body_fields:
  assumes "once_body lib env c = Inr c'"
  shows "cfg4 c' = cfg4 c \<and> Ack c' = Ack c \<and> once4 c' = once4 c \<and> (onceErr c' = None \<longrightarrow> generateXID c' \<noteq> None)"
proof (cases "\<not> connection c \<and> (Interface4 c = None \<or> listen4 env \<noteq> None)")
  case True
  then show ?thesis using assms by (auto simp: once_body_def split: if_splits)
next
  case False
  then obtain c1 where c1: "find_hw (c\<lparr>connection := True\<rparr>) = Inr c1" and
    c': "find_hostname env (if generateXID c1 = None then c1\<lparr>generateXID := Some (XIDGenerator lib (hw_of c1))\<rparr> else c1) = Inr c'"
    using assms by (auto simp: once_body_def bindR_eq_Inr split: if_splits)
  show ?thesis using find_hw_fields [OF c1] find_hostname_fields [OF c'] by (auto split: if_splits)
qed

lemma run_once_fields:
  assumes "run_once lib env c = Inr c'" "settled c"
  shows "cfg4 c' = cfg4 c" "Ack c' = Ack c" "settled c'" "once4 c'" "onceErr c' = None \<longrightarrow> ready c'"
  using assms once_body_fields [of lib env "c\<lparr>once4 := True\<rparr>" c']
  by (auto simp: run_once_def settled_def ready_def split: if_splits)

lemma obtain_settled:
  assumes "settled c" "ObtainOrRenew lib env c = Inr (c', sent, again)"
  shows "settled c' \<and> (again \<longrightarrow> ready c') \<and> (\<not> again \<longrightarrow> cfg4 c' = cfg4 c) \<and>
    (err4 c' \<noteq> None \<longrightarrow> cfg4 c' = cfg4 c) \<and> (again \<longrightarrow> err4 c' = None \<longrightarrow> (\<exists>ack. Ack c' = Some ack \<and>
      mask_ok (l4_Netmask (LeaseFromACK lib ack)) \<and>
      cfg4 c' = new_config (LeaseFromACK lib ack) (now4 env) ack (cfg4 c)))"
proof -
  obtain c1 where c1: "run_once lib env c = Inr c1"
    using assms(2) by (auto simp: ObtainOrRenew_def bindR_eq_Inr)
  note f = run_once_fields [OF c1 assms(1)]
  show ?thesis
  proof (cases "onceErr c1 = None")
    case False
    then have "c' = c1\<lparr>err4 := onceErr c1\<rparr>" "\<not> again"
      using assms(2) c1 by (auto simp: ObtainOrRenew_def)
    then show ?thesis using f False by (auto simp: settled_def)
  next
    case True
    then have r: "ready c1" using f by simp
    have "ObtainOrRenew lib env c1 = Inr (c', sent, again)"
      using assms(2) c1 run_once_ready [OF r, of lib env] by (simp add: ObtainOrRenew_def)
    then show ?thesis
      using r f by (auto simp: ObtainOrRenew_ready bindR_eq_Inr take_lease_iff settled_def ready_def split: sum.splits)
  qed
qed

section \<open>What is on disk\<close>

definition stored :: "Daemon4 \<Rightarrow> bool" where
  "stored d \<longleftrightarrow>
     settled (client4 d) \<and>
     (position4 d = Selecting \<longrightarrow>
        ready (client4 d) \<and> lease_file d = Some (cfg4 (client4 d)) \<and>
        (Ack (client4 d) = ack_file d \<and> ack_file d \<noteq> None \<or> Ack (client4 d) = None \<and> ack_file d \<noteq> None) \<and>
        (20 \<le> unhealthyCycles d \<longrightarrow> Ack (client4 d) = None)) \<and>
     (position4 d = Obtaining \<longrightarrow> lease_file d = None \<or> lease_file d = Some (cfg4 (client4 d)))"

lemma persist4_cases:
  "persist4 fs d =
     (if marshal_err fs = None \<and> write_lease_err fs = None \<and> write_ack_err fs = None
      then (d\<lparr>lease_file := Some (cfg4 (client4 d)), ack_file := Ack (client4 d), unhealthyCycles := 0,
              position4 := Selecting\<rparr>, [Notify ''/user/netconfigd''])
      else (fst (persist4 fs d), []))"
  by (auto simp: persist4_def Let_def split: option.split)

lemma persist4_fails:
  "\<not> (marshal_err fs = None \<and> write_lease_err fs = None \<and> write_ack_err fs = None) \<Longrightarrow>
     \<exists>e. position4 (fst (persist4 fs d)) = Returned e \<and> client4 (fst (persist4 fs d)) = client4 d"
  by (auto simp: persist4_def Let_def split: option.split)

lemma stored_persist:
  assumes "settled (client4 d)" "ready (client4 d)" "Ack (client4 d) \<noteq> None"
  shows "stored (fst (persist4 fs d))"
proof (cases "marshal_err fs = None \<and> write_lease_err fs = None \<and> write_ack_err fs = None")
  case True
  then show ?thesis using assms by (subst persist4_cases) (simp add: stored_def)
next
  case False
  from persist4_fails [OF this, of d] show ?thesis using assms by (auto simp: stored_def)
qed

lemma stored_obtain:
  assumes "stored d" "position4 d = Obtaining"
  shows "stored (fst (obtain_step lib env fs d))"
proof (cases "ObtainOrRenew lib env (client4 d)")
  case (Inl f)
  then show ?thesis using assms by (auto simp: obtain_step_def stored_def)
next
  case (Inr r)
  obtain c sent again where r: "r = (c, sent, again)" by (cases r)
  have s: "settled (client4 d)" using assms by (simp add: stored_def)
  note o = obtain_settled [OF s Inr [unfolded r]]
  show ?thesis
  proof (cases "again \<and> err4 c = None")
    case True
    then have "stored (fst (persist4 fs (d\<lparr>client4 := c, boff4 := Reset (boff4 d)\<rparr>)))" using o by (intro stored_persist) auto
    then show ?thesis using Inr r True by (simp add: obtain_step_def split_beta Let_def)
  next
    case False
    then show ?thesis using Inr r o assms by (auto simp: obtain_step_def stored_def Let_def)
  qed
qed

lemma stored_usr2:
  assumes "stored d" "position4 d = Selecting"
  shows "stored (fst (usr2_step lib env fs d))"
proof (cases "Release4 lib env (client4 d)")
  case (Inl f)
  then show ?thesis using assms by (auto simp: usr2_step_def stored_def)
next
  case (Inr r)
  obtain c sent res where r: "r = (c, sent, res)" by (cases r)
  have "settled c"
    using Inr r assms(1) by (auto simp: Release4_def draw_xid_def stored_def settled_def Let_def bindR_eq_Inr
        split: option.splits)
  then show ?thesis using Inr r by (auto simp: usr2_step_def stored_def Let_def split: option.split)
qed

lemma stored_step: "stored d \<Longrightarrow> stored (fst (step4 lib d e))"
proof (induction lib d e rule: step4.induct)
  case (3 lib d r)
  then show ?case
    by (auto simp: minute_step_def stored_def settled_def ready_def Let_def split: option.split)
next
  case (2 lib d)
  then show ?case by (auto simp: stored_def)
qed (auto intro: stored_obtain stored_usr2)

interpretation d4: run_machine "step4 lib" stored for lib
  by unfold_locales (rule stored_step)

section \<open>Twenty unhealthy minutes\<close>

abbreviation unhealthy :: "http_result \<Rightarrow> bool" where
  "unhealthy r \<equiv> healthy r \<noteq> None"

definition twenty_in_a_row :: "http_result list \<Rightarrow> bool" where
  "twenty_in_a_row rs \<longleftrightarrow>
     (\<exists>before minutes after. rs = before @ minutes @ after \<and> length minutes = 20 \<and> (\<forall>r \<in> set minutes. unhealthy r))"

definition streak :: "http_result list \<Rightarrow> nat" where
  "streak rs = length (takeWhile unhealthy (rev rs))"

lemma streak_snoc: "streak [] = 0" "streak (rs @ [r]) = (if unhealthy r then streak rs + 1 else 0)"
  by (auto simp: streak_def)

lemma streak_20:
  "20 \<le> streak rs \<longleftrightarrow> (\<exists>before minutes. rs = before @ minutes \<and> length minutes = 20 \<and> (\<forall>r \<in> set minutes. unhealthy r))"
proof
  assume "20 \<le> streak rs"
  then have len: "20 \<le> length (takeWhile unhealthy (rev rs))" by (simp add: streak_def)
  let ?m = "take 20 (takeWhile unhealthy (rev rs))"
  have "rev rs = ?m @ drop 20 (takeWhile unhealthy (rev rs)) @ dropWhile unhealthy (rev rs)"
    by (simp flip: append_assoc)
  then have "rs = rev (drop 20 (takeWhile unhealthy (rev rs)) @ dropWhile unhealthy (rev rs)) @ rev ?m"
    by (metis rev_append rev_rev_ident)
  moreover have "length (rev ?m) = 20" using len by simp
  moreover have "\<forall>r \<in> set (rev ?m). unhealthy r" by (auto dest!: in_set_takeD set_takeWhileD)
  ultimately show "\<exists>before minutes. rs = before @ minutes \<and> length minutes = 20 \<and> (\<forall>r \<in> set minutes. unhealthy r)"
    by blast
next
  assume "\<exists>before minutes. rs = before @ minutes \<and> length minutes = 20 \<and> (\<forall>r \<in> set minutes. unhealthy r)"
  then obtain before minutes where "rs = before @ minutes" "length minutes = 20" "\<forall>r \<in> set minutes. unhealthy r"
    by blast
  moreover from this(3) have "takeWhile unhealthy (rev minutes @ rev before) = rev minutes @ takeWhile unhealthy (rev before)"
    by (intro takeWhile_append2) auto
  ultimately show "20 \<le> streak rs" unfolding streak_def by (metis le_add1 length_append length_rev rev_append)
qed

lemma twenty_snoc: "twenty_in_a_row (rs @ [r]) \<longleftrightarrow> twenty_in_a_row rs \<or> 20 \<le> streak (rs @ [r])"
proof
  assume "twenty_in_a_row (rs @ [r])"
  then obtain b m a where m: "rs @ [r] = b @ m @ a" "length m = 20" "\<forall>r \<in> set m. unhealthy r"
    by (auto simp: twenty_in_a_row_def)
  show "twenty_in_a_row rs \<or> 20 \<le> streak (rs @ [r])"
  proof (cases a rule: rev_cases)
    case Nil
    then show ?thesis using m unfolding streak_20 by auto
  next
    case (snoc a' x)
    then have "rs = b @ m @ a'" using m(1) by simp
    then show ?thesis using m(2,3) unfolding twenty_in_a_row_def by blast
  qed
next
  assume "twenty_in_a_row rs \<or> 20 \<le> streak (rs @ [r])"
  then show "twenty_in_a_row (rs @ [r])"
    unfolding streak_20 twenty_in_a_row_def by (metis append.assoc append_Nil2)
qed

lemma twenty_Nil: "\<not> twenty_in_a_row []"
  by (simp add: twenty_in_a_row_def)

lemma minutes_run:
  assumes "position4 d = Selecting" "unhealthyCycles d = 0" "Ack (client4 d) \<noteq> None"
  shows "let d' = fst (run (step4 lib) d (map EvMinute rs)) in
    position4 d' = Selecting \<and> unhealthyCycles d' = streak rs \<and>
    generateXID (client4 d') = generateXID (client4 d) \<and>
    Ack (client4 d') = (if twenty_in_a_row rs then None else Ack (client4 d))"
proof (induction rs rule: rev_induct)
  case Nil
  then show ?case using assms by (simp add: streak_snoc twenty_Nil)
next
  case (snoc r rs)
  then show ?case
    by (cases "healthy r")
      (auto simp: run_append split_beta Let_def minute_step_def streak_snoc twenty_snoc)
qed

text \<open>
  C38. While it waits for the renewal, the daemon drops its ACK exactly after twenty unhealthy minutes
  in a row, whatever the other minutes were. It keeps waiting then, and from that moment on
  SIGUSR2 makes it panic instead of sending a DHCPRELEASE; before, SIGUSR2 sends the release.
\<close>

theorem reset_after_twenty:
  assumes "position4 d = Selecting" "unhealthyCycles d = 0" "Ack (client4 d) = Some ack"
    and "generateXID (client4 d) \<noteq> None"
    and "d' = fst (run (step4 lib) d (map EvMinute rs))" "step4 lib d' (EvUsr2 env fs) = (d'', out)"
  shows "position4 d' = Selecting \<and>
    (if \<exists>before minutes after. rs = before @ minutes @ after \<and> length minutes = 20 \<and> (\<forall>r \<in> set minutes. healthy r \<noteq> None)
     then Ack (client4 d') = None \<and> (\<exists>s. position4 d'' = Crashed s) \<and> out = []
     else Ack (client4 d') = Some ack \<and> (\<exists>release. out = [Sent release] \<and> ClientIP release = YourClientIP ack))"
proof -
  have run: "position4 d' = Selecting" "generateXID (client4 d') \<noteq> None"
    "Ack (client4 d') = (if twenty_in_a_row rs then None else Some ack)"
    using minutes_run [OF assms(1,2), of lib rs] assms(3-5) by (simp_all add: Let_def)
  show ?thesis
    unfolding twenty_in_a_row_def [symmetric]
  proof (cases "twenty_in_a_row rs")
    case True
    then have "Ack (client4 d') = None" using run by simp
    then show "position4 d' = Selecting \<and> (if twenty_in_a_row rs then Ack (client4 d') = None \<and>
        (\<exists>s. position4 d'' = Crashed s) \<and> out = [] else Ack (client4 d') = Some ack \<and>
        (\<exists>release. out = [Sent release] \<and> ClientIP release = YourClientIP ack))"
      using True run assms(6) by (auto simp: usr2_step_def Release4_def draw_xid_def split: option.splits)
  next
    case False
    then have "Ack (client4 d') = Some ack" using run by simp
    then show "position4 d' = Selecting \<and> (if twenty_in_a_row rs then Ack (client4 d') = None \<and>
        (\<exists>s. position4 d'' = Crashed s) \<and> out = [] else Ack (client4 d') = Some ack \<and>
        (\<exists>release. out = [Sent release] \<and> ClientIP release = YourClientIP ack))"
      using False run assms(6)
      by (auto simp: usr2_step_def Release4_def draw_xid_def Let_def split: option.splits)
  qed
qed

text \<open>
  C13. Whatever happened since the daemon started: while it waits for the renewal, \<open>lease.json\<close> is its
  current lease, a DHCPACK is stored, and it is the one in memory unless that was dropped; while it
  tries to obtain a lease, \<open>lease.json\<close> is still the last lease obtained, if there was one.
\<close>

theorem lease_stored:
  assumes "start_client4 names interfaceByName cfgfile parseMAC messages = Inr c"
    and "d = fst (run (step4 lib) (start4 c) es)"
  shows "(position4 d = Selecting \<longrightarrow>
      lease_file d = Some (cfg4 (client4 d)) \<and>
      (\<exists>a. ack_file d = Some a \<and> (Ack (client4 d) = Some a \<or> Ack (client4 d) = None)) \<and>
      (20 \<le> unhealthyCycles d \<longrightarrow> Ack (client4 d) = None)) \<and>
    (position4 d = Obtaining \<longrightarrow> lease_file d = None \<or> lease_file d = Some (cfg4 (client4 d)))"
proof -
  have "\<not> once4 c" using assms(1) by (auto simp: start_client4_def bindR_eq_Inr Let_def split: list.splits)
  then have "stored (start4 c)" by (simp add: stored_def settled_def start4_def)
  then have "stored d" unfolding assms(2) by (rule d4.run_inv)
  then show ?thesis by (auto simp: stored_def)
qed

section \<open>From the DHCPACK to the uplink\<close>

lemma persist4_Selecting:
  assumes "persist4 fs d = (d', out)" "position4 d' = Selecting" "position4 d \<noteq> Selecting"
  shows "d' = d\<lparr>lease_file := Some (cfg4 (client4 d)), ack_file := Ack (client4 d), unhealthyCycles := 0,
      position4 := Selecting\<rparr> \<and> out = [Notify ''/user/netconfigd'']"
proof (cases "marshal_err fs = None \<and> write_lease_err fs = None \<and> write_ack_err fs = None")
  case True
  then show ?thesis using assms(1) by (subst (asm) persist4_cases) auto
next
  case False
  from persist4_fails [OF this, of d] show ?thesis using assms by auto
qed

lemma obtain_step_Selecting:
  assumes "settled (client4 d)" "position4 d = Obtaining" "obtain_step lib env fs d = (d', out)" "position4 d' = Selecting"
  obtains ack sent where "Ack (client4 d') = Some ack" "mask_ok (l4_Netmask (LeaseFromACK lib ack))"
    "lease_file d' = Some (new_config (LeaseFromACK lib ack) (now4 env) ack (cfg4 (client4 d)))"
    "out = map Sent sent @ [Notify ''/user/netconfigd'']"
proof -
  obtain c sent again where o: "ObtainOrRenew lib env (client4 d) = Inr (c, sent, again)"
    using assms by (cases "ObtainOrRenew lib env (client4 d)") (auto simp: obtain_step_def)
  have ok: "again" "err4 c = None"
    using assms o by (auto simp: obtain_step_def Let_def split: if_splits option.splits)
  obtain out' where p: "persist4 fs (d\<lparr>client4 := c, boff4 := Reset (boff4 d)\<rparr>) = (d', out')" "out = map Sent sent @ out'"
    using assms(3) o ok by (auto simp: obtain_step_def Let_def split: prod.splits)
  have d': "d' = d\<lparr>client4 := c, boff4 := Reset (boff4 d), lease_file := Some (cfg4 c), ack_file := Ack c, unhealthyCycles := 0,
      position4 := Selecting\<rparr>" "out' = [Notify ''/user/netconfigd'']"
    using persist4_Selecting [OF p(1) assms(4)] assms(2) by simp_all
  obtain ack where "Ack c = Some ack" "mask_ok (l4_Netmask (LeaseFromACK lib ack))"
    "cfg4 c = new_config (LeaseFromACK lib ack) (now4 env) ack (cfg4 (client4 d))"
    using obtain_settled [OF assms(1) o] ok by auto
  then show thesis using that d' p(2) by simp
qed

lemma IP_String_4: "length ip = 4 \<Longrightarrow> IP_String ip = IP4_String ip"
  by (auto simp: IP_String_def)

lemma settled_start: "start_client4 names interfaceByName cfgfile parseMAC messages = Inr c \<Longrightarrow> stored (start4 c)"
  by (auto simp: start_client4_def bindR_eq_Inr Let_def stored_def settled_def start4_def split: list.splits)

text \<open>
  C6. From the wire to the kernel: when the daemon, at any time of its life, obtains a lease and then
  the configuration is applied without error, the uplink has the address and the prefix length of
  that DHCPACK and no other IPv4 address, and the default route goes to its router; and the daemon
  has asked netconfigd to do so.
\<close>

theorem ack_reaches_uplink:
  assumes "start_client4 names interfaceByName cfgfile parseMAC messages = Inr c"
    and "d = fst (run (step4 lib) (start4 c) es)" "position4 d = Obtaining"
    and "step4 lib d (EvObtain env fs) = (d', out)" "position4 d' = Selecting" "Ack (client4 d') = Some ack"
    and "length (YourClientIP ack) = 4" "l4_Netmask (LeaseFromACK lib ack) = CIDRMask n 4" "n \<le> 32"
      "l4_Router (LeaseFromACK lib ack) = gw" "length gw = 4"
    and "netlink_ok nl" "lease_file d' = Some got" "applyDhcp4 nl nh (Decoded got) w = (w', Inr ())"
  shows "Notify ''/user/netconfigd'' \<in> set out \<and>
    (\<exists>l \<in> set (links w). l_name l = ''uplink0'' \<and>
       {(To4 (fst a), snd a) |a. a \<in> set (addrs w' (l_index l)) \<and> To4 (fst a) \<noteq> []} = {(YourClientIP ack, n)} \<and>
       (\<exists>r \<in> set (routes w'). rt_dst r = (ParseIP ''0.0.0.0'', 0) \<and> To4 (rt_gw r) = gw \<and> rt_link r = l_index l))"
proof -
  have "stored d" unfolding assms(2) by (rule d4.run_inv [OF settled_start [OF assms(1)]])
  then have "settled (client4 d)" by (simp add: stored_def)
  then obtain sent where got: "got = new_config (LeaseFromACK lib ack) (now4 env) ack (cfg4 (client4 d))"
    and out: "out = map Sent sent @ [Notify ''/user/netconfigd'']"
    using obtain_step_Selecting [of d lib env fs d' out] assms(3-6,13) by auto
  have "CIDRMask n 4 \<noteq> []" "take 4 (CIDRMask n 4) = CIDRMask n 4" "gw \<noteq> []"
    using assms(11) by (auto simp: CIDRMask_def)
  then have "c4_ClientIP got = IP4_String (YourClientIP ack)" "c4_SubnetMask got = IP4_String (CIDRMask n 4)"
    "c4_Router got = IP4_String gw"
    using assms(7,8,10,11) by (simp_all add: got new_config_def IP_String_4)
  from applyDhcp4_effect [OF assms(12,7,11,9) this assms(14)] show ?thesis using out by auto
qed

section \<open>A concrete daemon\<close>

definition no_errors :: files4 where
  "no_errors = \<lparr>leasePath = ''/perm/dhcp4/wire/lease.json'', ackFn = ''/perm/dhcp4/wire/ack'', marshal_err = None, write_lease_err = None, write_ack_err = None, remove_err = None\<rparr>"

definition demo_mac :: bytes where "demo_mac = [0xd8, 0x58, 0xd7, 0, 0x4e, 0xdf]"

definition demo_start :: "Client4 result" where
  "demo_start = start_client4 [''uplink0''] (\<lambda>_. Inr demo_mac) NotExist (\<lambda>_. Inl (Err ''mac'')) (Inr None)"

definition fresh_client :: Client4 where
  "fresh_client =
     \<lparr>Interface4 = Some demo_mac, HWAddr = Some demo_mac, err4 = None, once4 = False, onceErr = None,
      connection = False, hardwareAddr = None, hostname = '''', cfg4 = no_config, generateXID = None,
      xids = 0, Ack = None\<rparr>"

definition set_up_client :: Client4 where
  "set_up_client = fresh_client\<lparr>once4 := True, connection := True, hardwareAddr := Some demo_mac,
     generateXID := Some (XIDGenerator plain_dhcp4 demo_mac), hostname := [char_of (114 :: nat)]\<rparr>"

definition demo_env4' :: env4 where
  "demo_env4' = demo_env4\<lparr>uname := Inr [114, 0]\<rparr>"

lemma demo_start: "demo_start = Inr fresh_client"
  by (simp add: demo_start_def start_client4_def Interface_def read_json_def fresh_client_def)

lemma demo_run_once: "run_once plain_dhcp4 demo_env4' fresh_client = Inr set_up_client"
  by (simp add: run_once_def once_body_def find_hw_def find_hostname_def fresh_client_def set_up_client_def
      demo_env4'_def demo_env4_def hw_of_def)

lemma demo_obtains:
  "\<exists>c' sent. ObtainOrRenew plain_dhcp4 demo_env4' fresh_client = Inr (c', sent, True) \<and>
     err4 c' = None \<and> Ack c' = Some (server_packet MsgAck)"
proof -
  have r: "ready set_up_client" by (simp add: ready_def set_up_client_def fresh_client_def)
  have n: "next_xid set_up_client = 0x7708d724" "Ack set_up_client = None"
    by (simp_all add: next_xid_def set_up_client_def fresh_client_def plain_dhcp4_def)
  have env: "write_discover demo_env4' = None" "write_request demo_env4' = None"
    "in_offer demo_env4' = in_offer demo_env4" "in_ack demo_env4' = in_ack demo_env4"
    by (simp_all add: demo_env4'_def demo_answers)
  have "offered plain_dhcp4 demo_env4' set_up_client = Inr (server_packet MsgOffer)"
    by (simp add: offered_iff n env demo_answers first_answer_Cons)
  then have ex: "exchange plain_dhcp4 demo_env4' set_up_client = Inr (server_packet MsgAck)"
    by (simp add: exchange_iff env demo_answers first_answer_Cons)
  have "take_lease (LeaseFromACK plain_dhcp4 (server_packet MsgAck)) t (server_packet MsgAck) c =
      Inr (new_config (LeaseFromACK plain_dhcp4 (server_packet MsgAck)) t (server_packet MsgAck) c)" for t c
    by (simp add: take_lease_iff mask_ok_def demo_answers)
  then have "\<exists>c' sent. ObtainOrRenew plain_dhcp4 demo_env4' set_up_client = Inr (c', sent, True) \<and>
     err4 c' = None \<and> Ack c' = Some (server_packet MsgAck)"
    by (simp add: ObtainOrRenew_ready [OF r] ex)
  then show ?thesis
    using demo_run_once run_once_ready [OF r, of plain_dhcp4 demo_env4'] by (simp add: ObtainOrRenew_def)
qed

lemma demo_daemon:
  obtains d' out where "step4 plain_dhcp4 (start4 fresh_client) (EvObtain demo_env4' no_errors) = (d', out)"
    "position4 d' = Selecting" "Ack (client4 d') = Some (server_packet MsgAck)" "unhealthyCycles d' = 0"
    "ready (client4 d')"
proof -
  obtain c' sent where o: "ObtainOrRenew plain_dhcp4 demo_env4' fresh_client = Inr (c', sent, True)"
    "err4 c' = None" "Ack c' = Some (server_packet MsgAck)" using demo_obtains by blast
  have "settled fresh_client" by (simp add: settled_def fresh_client_def)
  then have "ready c'" using obtain_settled o(1) by blast
  then show thesis
    using that o by (simp add: obtain_step_def start4_def persist4_def no_errors_def)
qed

lemma lease_stored_witness:
  "\<exists>d. d = fst (run (step4 plain_dhcp4) (start4 fresh_client) [EvObtain demo_env4' no_errors]) \<and>
     position4 d = Selecting \<and> lease_file d = Some (cfg4 (client4 d))"
proof -
  obtain d' out where d': "step4 plain_dhcp4 (start4 fresh_client) (EvObtain demo_env4' no_errors) = (d', out)"
    "position4 d' = Selecting" by (rule demo_daemon)
  have r: "d' = fst (run (step4 plain_dhcp4) (start4 fresh_client) [EvObtain demo_env4' no_errors])"
    using d'(1) by simp
  show ?thesis using lease_stored [OF demo_start [unfolded demo_start_def] r] r d'(2) by blast
qed

definition refused :: "http_result list" where
  "refused = replicate 20 (HttpFail (Err ''refused''))"

lemma reset_after_twenty_witness:
  "\<exists>d s. position4 d = Selecting \<and> Ack (client4 d) = Some (server_packet MsgAck) \<and>
     position4 (fst (step4 plain_dhcp4 (fst (run (step4 plain_dhcp4) d (map EvMinute refused)))
       (EvUsr2 demo_env4 no_errors))) = Crashed s"
proof -
  obtain d' out where "step4 plain_dhcp4 (start4 fresh_client) (EvObtain demo_env4' no_errors) = (d', out)"
    and d': "position4 d' = Selecting" "Ack (client4 d') = Some (server_packet MsgAck)"
    "unhealthyCycles d' = 0" "ready (client4 d')" by (rule demo_daemon)
  obtain d'' out where u: "step4 plain_dhcp4 (fst (run (step4 plain_dhcp4) d' (map EvMinute refused)))
      (EvUsr2 demo_env4 no_errors) = (d'', out)" by (rule prod.exhaust)
  have "\<exists>before minutes after. refused = before @ minutes @ after \<and> length minutes = 20 \<and> (\<forall>r \<in> set minutes. healthy r \<noteq> None)"
    by (rule exI [of _ "[]"], rule exI [of _ refused], rule exI [of _ "[]"]) (simp add: healthy_def refused_def)
  moreover have "generateXID (client4 d') \<noteq> None" using d'(4) by (simp add: ready_def)
  ultimately obtain s where "position4 d'' = Crashed s"
    using reset_after_twenty [OF d'(1,3,2) _ refl u] by auto
  then have "position4 (fst (step4 plain_dhcp4 (fst (run (step4 plain_dhcp4) d' (map EvMinute refused)))
       (EvUsr2 demo_env4 no_errors))) = Crashed s" unfolding u by simp
  with d'(1,2) show ?thesis by blast
qed

lemma demo_mask: "CIDRMask 25 4 = [255, 255, 255, 128]"
  by code_simp

lemma ack_reaches_uplink_witness:
  "\<exists>got w'. applyDhcp4 plain_netlink (Inr ()) (Decoded got) demo_world = (w', Inr ()) \<and>
     {(To4 (fst a), snd a) |a. a \<in> set (addrs w' 0) \<and> To4 (fst a) \<noteq> []} = {([85, 195, 207, 62], 25)}"
proof -
  obtain d' out where d': "step4 plain_dhcp4 (start4 fresh_client) (EvObtain demo_env4' no_errors) = (d', out)"
    "position4 d' = Selecting" "Ack (client4 d') = Some (server_packet MsgAck)" by (rule demo_daemon)
  have s: "settled (client4 (start4 fresh_client))" "position4 (start4 fresh_client) = Obtaining"
    by (simp_all add: settled_def start4_def fresh_client_def)
  let ?lease = "LeaseFromACK plain_dhcp4 (server_packet MsgAck)"
  have fields: "YourClientIP (server_packet MsgAck) = [85, 195, 207, 62]" "l4_Netmask ?lease = CIDRMask 25 4"
    "l4_Router ?lease = [85, 195, 207, 1]"
    by (simp add: server_packet_def, simp add: demo_answers demo_mask, simp add: server_packet_def plain_dhcp4_def opt_data_def)
  obtain got cfg where got: "lease_file d' = Some got" "got = new_config ?lease (now4 demo_env4') (server_packet MsgAck) cfg"
    using obtain_step_Selecting [OF s, of plain_dhcp4 demo_env4' no_errors d' out] d' s(2) by auto
  have strings: "c4_ClientIP got = IP4_String [85, 195, 207, 62]"
    "c4_SubnetMask got = IP4_String (CIDRMask 25 4)" "c4_Router got = IP4_String [85, 195, 207, 1]"
    by (simp_all add: got(2) new_config_def fields demo_mask IP_String_4)
  obtain w' where w': "applyDhcp4 plain_netlink (Inr ()) (Decoded got) demo_world = (w', Inr ())"
    using demo_lease [OF strings] by blast
  have mask: "l4_Netmask ?lease = CIDRMask 25 4" and gw: "length [85, 195, 207, 1 :: byte] = 4"
      and ip: "length (YourClientIP (server_packet MsgAck)) = 4"
    using fields by simp_all
  have r: "start4 fresh_client = fst (run (step4 plain_dhcp4) (start4 fresh_client) [])" by simp
  have "\<exists>l \<in> set (links demo_world). l_name l = ''uplink0'' \<and>
      {(To4 (fst a), snd a) |a. a \<in> set (addrs w' (l_index l)) \<and> To4 (fst a) \<noteq> []} = {([85, 195, 207, 62], 25)}"
    using ack_reaches_uplink [OF demo_start [unfolded demo_start_def] r s(2) d' ip mask _ fields(3) gw
        netlink_ok_plain got(1) w'] unfolding fields(1) by auto
  then have "{(To4 (fst a), snd a) |a. a \<in> set (addrs w' 0) \<and> To4 (fst a) \<noteq> []} = {([85, 195, 207, 62], 25)}"
    by (simp add: demo_world_def)
  then show ?thesis using w' by blast
qed

end
