(* ===== verification/Html.thy ===== *)
theory Html
  imports NetText
begin

text \<open>
  The escaping of the Go packages \<open>html\<close> and \<open>html/template\<close>, character by character, and what it
  means for the markup of a page: the characters that open and close tags and attribute values.
\<close>

section \<open>Characters\<close>

definition newline :: string where "newline = [char_of (10 :: nat)]"

definition text_lines :: "string list \<Rightarrow> string" where
  "text_lines ls = concat (map (\<lambda>l. l @ newline) ls)"

text \<open>\<open>html.EscapeString\<close>.\<close>

fun html_escape_char :: "char \<Rightarrow> string" where
  "html_escape_char c =
     (if c = CHR ''<'' then ''&lt;'' else if c = CHR ''>'' then ''&gt;'' else if c = CHR ''&'' then ''&amp;''
      else if c = char_of (39 :: nat) then ''&#39;'' else if c = char_of (34 :: nat) then ''&#34;'' else [c])"

definition EscapeString :: "string \<Rightarrow> string" where
  "EscapeString s = concat (map html_escape_char s)"

text \<open>
  The escaper of \<open>html/template\<close> for text and for quoted attribute values; a zero byte becomes
  U+FFFD.
\<close>

definition template_escape_char :: "char \<Rightarrow> string" where
  "template_escape_char c =
     (if c = char_of (0 :: nat) then map char_of [239 :: nat, 191, 189]
      else if c = CHR ''+'' then ''&#43;'' else html_escape_char c)"

definition template_escape :: "string \<Rightarrow> string" where
  "template_escape s = concat (map template_escape_char s)"

section \<open>Markup\<close>

definition markup :: "string \<Rightarrow> string" where
  "markup s = filter (\<lambda>c. c = CHR ''<'' \<or> c = CHR ''>'' \<or> c = char_of (34 :: nat)) s"

lemma markup_simps [simp]:
  "markup [] = []"
  "markup (s @ t) = markup s @ markup t"
  by (simp_all add: markup_def)

lemma markup_concat: "markup (concat ss) = concat (map markup ss)"
  by (induction ss) simp_all

lemma markup_html_escape_char [simp]: "markup (html_escape_char c) = []"
  by (simp add: markup_def char_of_def)

lemma markup_template_escape_char [simp]: "markup (template_escape_char c) = []"
  by (simp add: template_escape_char_def del: html_escape_char.simps) (simp add: markup_def char_of_def)

lemma markup_escape [simp]: "markup (EscapeString s) = []" "markup (template_escape s) = []"
  by (induction s) (simp_all add: EscapeString_def template_escape_def del: html_escape_char.simps)

end
