(* ===== verification/Diagd.thy ===== *)
theory Diagd
  imports Diag Dhcp4Daemon Html Multilisten
begin

text \<open>
  \<open>cmd/diagd/diagd.go\<close>: the tree of diagnostics of the router, its HTML page and the summary that
  \<open>/health.json\<close> serves, on which the DHCPv4 daemon's health check rests.
\<close>

section \<open>The page\<close>

definition check_mark :: string where "check_mark = map char_of [226 :: nat, 156, 148]"
definition cross_mark :: string where "cross_mark = map char_of [226 :: nat, 156, 152]"

primrec dump :: "EvalResult \<Rightarrow> nat \<Rightarrow> string" where
  "dump (EvalResult name error status children) = (\<lambda>indent.
     ''<li>'' @ [char_of (10 :: nat)] @ concat (replicate indent ''  '') @
     (if error then cross_mark else check_mark) @ '' '' @ EscapeString name @ '': '' @ EscapeString status @ ''<ul>'' @
     concat (map (\<lambda>f. f (indent + 1)) (map dump children)) @ ''</ul></li>'')"

section \<open>The summary\<close>

fun first_nonempty :: "string list \<Rightarrow> string" where
  "first_nonempty [] = ''''"
| "first_nonempty (m # ms) = (if m \<noteq> '''' then m else first_nonempty ms)"

primrec firstError :: "EvalResult \<Rightarrow> string" where
  "firstError (EvalResult name error status children) =
     (if error then name @ '': '' @ status else first_nonempty (map firstError children))"

definition diag_tree :: "string \<Rightarrow> node" where
  "diag_tree uplink =
     Then (Then (Then (Then (new_Link uplink)
       (Then new_DHCPv4
         (Then new_Ping4Gateway
           (Then (new_Ping4 ''google.ch'')
             (new_TCP4 ''www.google.ch:80'')))))
       (Then new_DHCPv6
         (new_Ping6 ''lan0'' ''google.ch'')))
       (Then (new_RouterAdvertisments uplink)
         (Then new_Ping6Gateway
           (Then (new_Ping6 uplink ''google.ch'')
             (new_TCP6 ''www.google.ch:80'')))))
       (new_Ping6 '''' (''ff02::2'' @ ''%'' @ uplink))"

definition handle_page :: "network \<Rightarrow> node \<Rightarrow> string" where
  "handle_page net m =
     ''<!DOCTYPE html><style type='' @ [char_of (34 :: nat)] @ ''text/css'' @ [char_of (34 :: nat)] @
     ''>ul { list-style-type: none; }</style><ul>'' @ dump (Monitor_Evaluate (Evaluate net) m) 0"

definition health_json :: "network \<Rightarrow> node \<Rightarrow> string" where
  "health_json net m = firstError (Monitor_Evaluate (Evaluate net) m)"

section \<open>The daemon\<close>

text \<open>The monitor keeps no state: a request evaluates the tree anew. \<open>marshal\<close> encodes the reply.\<close>

datatype diag_answer = DiagPage string | DiagJson bytes | DiagError nat string

definition health_reply :: "(string \<Rightarrow> bytes result) \<Rightarrow> network \<Rightarrow> node \<Rightarrow> diag_answer result" where
  "health_reply marshal net m =
     (case marshal (health_json net m) of
        Inl (Panic x) \<Rightarrow> Inl (Panic x)
      | Inl (Err e) \<Rightarrow> Inr (DiagError 500 e)
      | Inr b \<Rightarrow> Inr (DiagJson b))"

definition updateListeners_diagd :: "NetIface list result \<Rightarrow> Pool \<Rightarrow> Pool result" where
  "updateListeners_diagd interfaces p =
     bindR (PrivateInterfaceAddrs interfaces) (\<lambda>hosts. Inr (ListenAndServe p hosts))"

record Diagd =
  dg_root :: node
  dg_pool :: Pool
  dg_result :: "fault option"

datatype diagd_event =
  DgPage network
| DgHealth "string \<Rightarrow> bytes result" network
| DgUsr1 "NetIface list result"
| DgListenerEnds nat

definition start_diagd :: "string \<Rightarrow> NetIface list result \<Rightarrow> Diagd result" where
  "start_diagd uplink interfaces =
     bindR (updateListeners_diagd interfaces NewPool) (\<lambda>p.
       Inr \<lparr>dg_root = diag_tree uplink, dg_pool = p, dg_result = None\<rparr>)"

fun diagd_live :: "Diagd \<Rightarrow> diagd_event \<Rightarrow> Diagd \<times> diag_answer result list" where
  "diagd_live d (DgPage net) = (d, [Inr (DiagPage (handle_page net (dg_root d)))])"
| "diagd_live d (DgHealth marshal net) = (d, [health_reply marshal net (dg_root d)])"
| "diagd_live d (DgUsr1 interfaces) =
     (case updateListeners_diagd interfaces (dg_pool d) of
        Inl (Panic x) \<Rightarrow> (d\<lparr>dg_result := Some (Panic x)\<rparr>, [])
      | Inl (Err _) \<Rightarrow> (d, [])
      | Inr p \<Rightarrow> (d\<lparr>dg_pool := p\<rparr>, []))"
| "diagd_live d (DgListenerEnds i) = (d\<lparr>dg_pool := goroutine_ends (dg_pool d) i\<rparr>, [])"

definition diagd_step :: "Diagd \<Rightarrow> diagd_event \<Rightarrow> Diagd \<times> diag_answer result list" where
  "diagd_step d ev = (case dg_result d of None \<Rightarrow> diagd_live d ev | Some _ \<Rightarrow> (d, []))"

definition diagd_inv :: "string \<Rightarrow> Diagd \<Rightarrow> bool" where
  "diagd_inv uplink d \<longleftrightarrow> dg_root d = diag_tree uplink \<and> wf_pool (dg_pool d)"

interpretation dg: run_machine diagd_step "diagd_inv uplink" for uplink
proof unfold_locales
  fix d :: Diagd and ev
  assume "diagd_inv uplink d"
  then show "diagd_inv uplink (fst (diagd_step d ev))"
    by (cases ev) (auto simp: diagd_inv_def diagd_step_def updateListeners_diagd_def bindR_def wf_listen wf_ends
        split: option.split sum.splits fault.split)
qed

text \<open>Every page ever served shows the same tree.\<close>

lemma diagd_root:
  assumes "start_diagd uplink interfaces = Inr d0"
  shows "diagd_inv uplink (fst (run diagd_step d0 es))"
proof (rule dg.run_inv)
  show "diagd_inv uplink d0"
  proof -
    have "wf_pool NewPool" by (simp add: wf_pool_def NewPool_def)
    then show ?thesis
      using assms by (auto simp: start_diagd_def updateListeners_diagd_def bindR_eq_Inr diagd_inv_def wf_listen)
  qed
qed

section \<open>The first failing check\<close>

primrec preorder :: "node \<Rightarrow> kind list" where
  "preorder (Node k children) = k # concat (map preorder children)"

definition failing :: "(kind \<Rightarrow> string + string) \<Rightarrow> kind \<Rightarrow> bool" where
  "failing probe k \<longleftrightarrow> (case probe k of Inl _ \<Rightarrow> True | Inr _ \<Rightarrow> False)"

definition failure_message :: "(kind \<Rightarrow> string + string) \<Rightarrow> kind \<Rightarrow> string" where
  "failure_message probe k = node_String k @ '': '' @ (case probe k of Inl e \<Rightarrow> e | Inr _ \<Rightarrow> '''')"

definition first_failure :: "(kind \<Rightarrow> string + string) \<Rightarrow> kind list \<Rightarrow> string" where
  "first_failure probe ks = (case find (failing probe) ks of None \<Rightarrow> '''' | Some k \<Rightarrow> failure_message probe k)"

lemma first_failure_Cons:
  "first_failure probe (k # ks) = (if failing probe k then failure_message probe k else first_failure probe ks)"
  by (simp add: first_failure_def)

lemma failure_message_nonempty [simp]: "failure_message probe k \<noteq> ''''"
  by (simp add: failure_message_def)

lemma first_failure_append:
  "first_failure probe (ks @ ks') =
     (if first_failure probe ks \<noteq> '''' then first_failure probe ks else first_failure probe ks')"
  by (simp add: first_failure_def find_append split: option.split)

lemma first_failure_concat:
  "first_failure probe (concat kss) = first_nonempty (map (first_failure probe) kss)"
  by (induction kss) (simp_all add: first_failure_append, simp add: first_failure_def)

lemma firstError_evaluate: "firstError (evaluate probe n '''') = first_failure probe (preorder n)"
proof (induction n)
  case (Node k children)
  show ?case
  proof (cases "probe k")
    case (Inl e)
    then show ?thesis by (simp add: first_failure_Cons failing_def failure_message_def)
  next
    case (Inr s)
    have "map (\<lambda>n. firstError (evaluate probe n '''')) children = map (\<lambda>n. first_failure probe (preorder n)) children"
      using Node by simp
    then show ?thesis
      using Inr by (simp add: first_failure_Cons failing_def first_failure_concat o_def cong: map_cong)
  qed
qed

lemma first_failure_Nil: "first_failure probe ks = '''' \<longleftrightarrow> list_all (\<lambda>k. \<not> failing probe k) ks"
  by (induction ks) (simp_all add: first_failure_Cons, simp add: first_failure_def)

section \<open>Failed dependencies\<close>

text \<open>The nodes that are evaluated: those whose ancestors all succeed.\<close>

primrec reached :: "(kind \<Rightarrow> string + string) \<Rightarrow> node \<Rightarrow> kind list" where
  "reached probe (Node k children) = k # (if failing probe k then [] else concat (map (reached probe) children))"

primrec all_failed :: "EvalResult \<Rightarrow> bool" where
  "all_failed (EvalResult name error status children) \<longleftrightarrow> error \<and> list_all id (map all_failed children)"

text \<open>Every result below a failed one says which dependency failed.\<close>

primrec blames_parent :: "EvalResult \<Rightarrow> bool" where
  "blames_parent (EvalResult name error status children) \<longleftrightarrow>
     (error \<longrightarrow> list_all (\<lambda>c. r_Status c = ''dependency '' @ name @ '' failed'' \<and> all_failed c) children) \<and>
     list_all id (map blames_parent children)"

lemma evaluate_failed: "err \<noteq> '''' \<Longrightarrow> evaluate probe n err = evaluate probe' n err"
  by (induction n arbitrary: err) (auto intro: map_cong)

lemma evaluate_failed_all: "err \<noteq> '''' \<Longrightarrow> r_Status (evaluate probe n err) = err \<and> all_failed (evaluate probe n err)"
proof (induction n arbitrary: err)
  case (Node k children)
  then show ?case by (auto simp: list_all_iff)
qed

lemma evaluate_agree:
  "\<forall>k \<in> set (reached probe n). probe' k = probe k \<Longrightarrow> evaluate probe n '''' = evaluate probe' n ''''"
proof (induction n)
  case (Node k children)
  have k: "probe' k = probe k" using Node.prems by simp
  show ?case
  proof (cases "probe k")
    case (Inl e)
    then show ?thesis using k evaluate_failed by (auto intro!: map_cong)
  next
    case (Inr s)
    then have "evaluate probe n '''' = evaluate probe' n ''''" if "n \<in> set children" for n
      using Node that by (auto simp: failing_def)
    then show ?thesis using k Inr by (auto intro!: map_cong)
  qed
qed

lemma evaluate_blames: "blames_parent (evaluate probe n err)"
proof (induction n arbitrary: err)
  case (Node k children)
  then show ?case
    by (auto simp: list_all_iff Let_def evaluate_failed_all split: sum.split)
qed

section \<open>Properties\<close>

text \<open>
  C25. \<open>/health.json\<close> reports, over the tree in preorder, the first check that itself fails, with its
  error, and never a mere failed dependency; the DHCPv4 daemon counts the minute as healthy exactly
  if every check of the tree succeeds.
\<close>

theorem health_first_failure:
  "health_json net m =
     (case find (\<lambda>k. \<exists>e. Evaluate net k = Inl e) (preorder m) of
        None \<Rightarrow> ''''
      | Some k \<Rightarrow> node_String k @ '': '' @ (case Evaluate net k of Inl e \<Rightarrow> e | Inr _ \<Rightarrow> '''')) \<and>
   (healthy (HttpReply 200 status (Inr body) (Inr (health_json net m))) = None \<longleftrightarrow>
     (\<forall>k \<in> set (preorder m). \<exists>s. Evaluate net k = Inr s))"
proof -
  have f: "failing (Evaluate net) = (\<lambda>k. \<exists>e. Evaluate net k = Inl e)"
    by (auto simp: failing_def fun_eq_iff split: sum.split)
  have h: "health_json net m = first_failure (Evaluate net) (preorder m)"
    by (simp add: health_json_def Monitor_Evaluate_def firstError_evaluate)
  have "healthy (HttpReply 200 status (Inr body) (Inr (health_json net m))) = None \<longleftrightarrow> health_json net m = ''''"
    by (simp add: healthy_def)
  also have "\<dots> \<longleftrightarrow> (\<forall>k \<in> set (preorder m). \<exists>s. Evaluate net k = Inr s)"
    unfolding h first_failure_Nil list_all_iff f by (metis sum.exhaust Inl_not_Inr)
  finally have counted: "healthy (HttpReply 200 status (Inr body) (Inr (health_json net m))) = None \<longleftrightarrow>
      (\<forall>k \<in> set (preorder m). \<exists>s. Evaluate net k = Inr s)" .
  have "health_json net m =
     (case find (\<lambda>k. \<exists>e. Evaluate net k = Inl e) (preorder m) of
        None \<Rightarrow> ''''
      | Some k \<Rightarrow> node_String k @ '': '' @ (case Evaluate net k of Inl e \<Rightarrow> e | Inr _ \<Rightarrow> ''''))"
    unfolding h first_failure_def f failure_message_def by (rule refl)
  from this counted show ?thesis by (rule conjI)
qed

text \<open>A network on which every check succeeds.\<close>

definition slaac_ip :: bytes where "slaac_ip = 0x20 # replicate 10 0 @ [0xff, 0xfe, 0, 0, 1]"
definition slaac_mask :: bytes where "slaac_mask = replicate 8 255 @ replicate 8 0"

lemma slaac: "fst (Mask_Size slaac_mask) = 64" "global_Contains slaac_ip" "isEUI64 slaac_ip" "To4 slaac_ip = []"
  by code_simp+

definition demo_net :: network where
  "demo_net =
     \<lparr>LinkByName = (\<lambda>_. Inr (True, 1, 2)), lease_valid_until = (\<lambda>_. Inr 10), time_now = 5,
      RouteGet = (\<lambda>_. Inr [([10, 0, 0, 1], 1)]), InterfaceByIndex = (\<lambda>_. Inr ''uplink0''),
      iface_Addrs = (\<lambda>_. Inr [IPNetAddr slaac_ip slaac_mask]),
      InterfaceAddrs = Inr [], ResolveIPAddr = (\<lambda>_ a. Inr a), ping_New = (\<lambda>_ _. Inr ()),
      ping_Ping = (\<lambda>_. Inr 1000), PingMulticast = (\<lambda>_. Inr [(1000, ''fe80::1'')]), Dial = (\<lambda>_ _. Inr ()),
      fmt_ms = (\<lambda>_. ''0.00ms''), fmt_time = (\<lambda>_. ''t''), fmt_mask = (\<lambda>_. ''64'')\<rparr>"

lemma demo_checks: "\<forall>k \<in> set (preorder (diag_tree ''uplink0'')). \<exists>s. Evaluate demo_net k = Inr s"
  by (simp add: diag_tree_def node_defs Then_def leaf_def demo_net_def link_Evaluate_def leaseValid_def After_def
      ping4gw_Evaluate_def defaultIPv4Gateway_def ping_once_def ping4_Evaluate_def tcp4_Evaluate_def
      ping6_Evaluate_def ra6_Evaluate_def ping6gw_Evaluate_def defaultIPv6Gateway_def wrapE_def has_prefix_def
      tcp6_Evaluate_def slaac IPNet_text_def)

lemma health_first_failure_witness: "healthy (HttpReply 200 ''200 OK'' (Inr ''{}'') (Inr (health_json demo_net (diag_tree ''uplink0'')))) = None"
  using health_first_failure [of demo_net "diag_tree ''uplink0''" "''200 OK''" "''{}''"] demo_checks by blast

text \<open>
  A check below a failed one is not made: its answer would make no difference. It is reported as
  failed, with the name of the dependency right above it.
\<close>

lemma dependencies:
  "blames_parent (Monitor_Evaluate probe root) \<and>
   ((\<forall>k \<in> set (reached probe root). probe' k = probe k) \<longrightarrow> Monitor_Evaluate probe' root = Monitor_Evaluate probe root)"
  using evaluate_blames evaluate_agree [of probe root probe'] by (auto simp: Monitor_Evaluate_def)

lemma dependencies_witness:
  "Monitor_Evaluate (\<lambda>k. if k = Link ''uplink0'' then Inl ''link uplink0 not UP'' else Inr ''ok'') (diag_tree ''uplink0'') =
   Monitor_Evaluate (\<lambda>k. Inl ''link uplink0 not UP'') (diag_tree ''uplink0'')"
proof -
  let ?p = "\<lambda>k. if k = Link ''uplink0'' then Inl ''link uplink0 not UP'' else Inr ''ok''"
  have "reached ?p (diag_tree ''uplink0'') = [Link ''uplink0'']"
    by (simp add: diag_tree_def node_defs Then_def leaf_def failing_def)
  then have "\<forall>k \<in> set (reached ?p (diag_tree ''uplink0'')). Inl ''link uplink0 not UP'' = ?p k" by simp
  then show ?thesis
    using dependencies [of ?p "diag_tree ''uplink0''" "\<lambda>k. Inl ''link uplink0 not UP''"] by simp
qed

text \<open>
  The check of the IPv4 gateway fails exactly if there is one default route and its gateway cannot
  be resolved or does not answer. Without a default route, or with more than one, it counts as a
  success, so the checks below it are made.
\<close>

lemma gateway_check:
  "(\<exists>e. Evaluate net Ping4Gateway = Inl e) \<longleftrightarrow>
     (\<exists>gw idx. RouteGet net (ParseIP ''9.9.9.9'') = Inr [(gw, idx)] \<and>
        \<not> (\<exists>addr rtt. ResolveIPAddr net ''ip4'' (IP_String gw) = Inr addr \<and>
             ping_New net ''0.0.0.0'' '''' = Inr () \<and> ping_Ping net addr = Inr rtt))"
proof (cases "defaultIPv4Gateway net")
  case (Inl e)
  then have "\<nexists>gw idx. RouteGet net (ParseIP ''9.9.9.9'') = Inr [(gw, idx)]"
    by (auto simp: defaultIPv4Gateway_def)
  then show ?thesis using Inl by (simp add: ping4gw_Evaluate_def)
next
  case (Inr gw')
  then obtain gw idx where r: "RouteGet net (ParseIP ''9.9.9.9'') = Inr [(gw, idx)]" "gw' = IP_String gw"
    unfolding defaultIPv4Gateway_def bindE_eq_Inr by (force split: list.splits)
  then show ?thesis
    using Inr
    by (cases "ResolveIPAddr net ''ip4'' gw'"; cases "ping_New net ''0.0.0.0'' ''''")
      (auto simp: ping4gw_Evaluate_def ping_once_def bindE_def split: sum.split)
qed

end
