(* ===== verification/StatusPage.thy ===== *)
theory StatusPage
  imports Dhcp4dDaemon Diagd
begin

text \<open>
  The template \<open>leasesTmpl\<close> of \<open>cmd/dhcp4d/dhcp4d.go\<close>: what the status page writes for the rows that
  \<open>handleHome\<close> collects. Template text is written as it is, values go through the escaper.
\<close>

section \<open>Times\<close>

text \<open>
  \<open>fmt_date\<close> is \<open>Format("2006-01-02 15:04")\<close>; the text of a duration without a fraction of a second is
  the one of \<open>Duration.String\<close>.
\<close>

record page_env =
  fmt_date :: "time \<Rightarrow> string"
  page_now :: time

definition duration_text :: "duration \<Rightarrow> string" where
  "duration_text d =
     (let s = nat (abs d div Second); h = s div 3600; m = s div 60 mod 60
      in (if d < 0 then ''-'' else '''') @
         (if h > 0 then itoa h @ ''h'' @ itoa m @ ''m'' else if m > 0 then itoa m @ ''m'' else '''') @
         itoa (s mod 60) @ ''s'')"

definition since :: "page_env \<Rightarrow> time \<Rightarrow> string" where
  "since e t =
     (let dur = page_now e - t in
      if dur > 24 * Hour then fmt_date e t else duration_text (sgn dur * (abs dur div Second * Second)))"

section \<open>The template\<close>

datatype piece = Text string | Val string

fun render :: "piece list \<Rightarrow> string" where
  "render [] = ''''"
| "render (Text s # ps) = s @ render ps"
| "render (Val s # ps) = template_escape s @ render ps"

definition page_head :: string where
  \<open>page_head =
     text_lines [
       ''<!DOCTYPE html>'',
       ''<head>'',
       ''<meta charset="utf-8">'',
       ''<title>DHCPv4 status</title>'',
       ''<style type="text/css">'',
       ''body {'',
       ''  margin-left: 1em;'',
       ''}'',
       ''td, th {'',
       ''  padding-left: 1em;'',
       ''  padding-right: 1em;'',
       ''  padding-bottom: .25em;'',
       ''}'',
       ''td:first-child, th:first-child {'',
       ''  padding-left: .25em;'',
       ''}'',
       ''td:last-child, th:last-child {'',
       ''  padding-right: .25em;'',
       ''}'',
       ''th {'',
       ''  padding-top: 1em;'',
       ''  text-align: left;'',
       ''}'',
       ''span.active, span.expired, span.static, span.hostname-override {'',
       ''  min-width: 5em;'',
       ''  display: inline-block;'',
       ''  text-align: center;'',
       ''  border: 1px solid grey;'',
       ''  border-radius: 5px;'',
       ''}'',
       ''span.active {'',
       ''  background-color: #00f000;'',
       ''}'',
       ''span.expired {'',
       ''  background-color: #f00000;'',
       ''}'',
       ''span.hostname-override {'',
       ''  min-width: 1em;'',
       ''  background-color: orange;'',
       ''}'',
       ''.ipaddr, .hwaddr {'',
       ''  font-family: monospace;'',
       ''}'',
       ''tr:nth-child(even) {'',
       ''  background: #eee;'',
       ''}'',
       ''form {'',
       ''  display: inline;'',
       ''}'',
       ''</style>'',
       ''</head>'',
       ''<body>'']\<close>

definition table_head :: string where
  \<open>table_head = newline @
     text_lines [
       ''<tr>'',
       ''<th>IP address</th>'',
       ''<th>Hostname</th>'',
       ''<th>MAC address</th>'',
       ''<th>Vendor</th>'',
       ''<th>Expiry</th>'',
       ''</tr>'']\<close>

definition row_pieces :: "page_env \<Rightarrow> tmplLease \<Rightarrow> piece list" where
  \<open>row_pieces e t =
     (let l = tl_lease t in
      [Text (newline @ text_lines [''<tr>''] @ ''<td class="ipaddr">''), Val (IP_String (Addr l)),
       Text (''</td>'' @ newline @ text_lines [''<td>'', ''<form action="/sethostname" method="post">''] @
             ''<input type="hidden" name="hardwareaddr" value="''), Val (HardwareAddr l),
       Text (''">'' @ newline @ ''<input type="text" name="hostname" value="''), Val (Hostname l),
       Text (''">'' @ newline @ ''</form>'' @ newline)] @
      (if HostnameOverride l \<noteq> '''' then [Text (newline @ ''<span class="hostname-override">!</span>'' @ newline)] else []) @
      [Text (newline @ ''</td>'' @ newline @ ''<td class="hwaddr">''), Val (HardwareAddr l),
       Text (''</td>'' @ newline @ ''<td>''), Val (Vendor t),
       Text (''</td>'' @ newline @ ''<td title="''), Val (fmt_date e (Expiry l)),
       Text (''">'' @ newline)] @
      (if tl_Expired t then
         [Text newline, Val (since e (Expiry l)), Text (newline @ ''<span class="expired">expired</span>'' @ newline)]
       else
         [Text newline] @
         (if Static t then [Text (newline @ ''<span class="static">static</span>'' @ newline)]
          else [Text newline, Val (fmt_date e (Expiry l)), Text (newline @ ''<span class="active">active</span>'' @ newline)]) @
         [Text newline]) @
      [Text (newline @ ''</td>'' @ newline @ ''</tr>'' @ newline)])\<close>

definition table_html :: "page_env \<Rightarrow> tmplLease list \<Rightarrow> string" where
  "table_html e trs = table_head @ concat (map (\<lambda>t. render (row_pieces e t)) trs) @ newline"

definition status_page :: "page_env \<Rightarrow> tmplLease list \<Rightarrow> tmplLease list \<Rightarrow> string" where
  \<open>status_page e static dynamic =
     page_head @ newline @ newline @ text_lines [''<table cellpadding="0" cellspacing="0">''] @
     table_html e static @ newline @ table_html e dynamic @ newline @
     text_lines [''</table>'', ''</body>'', ''</html>'']\<close>

section \<open>Markup\<close>

text \<open>What decides which tags a row has.\<close>

definition row_shape :: "tmplLease \<Rightarrow> bool \<times> bool \<times> bool" where
  "row_shape t = (HostnameOverride (tl_lease t) \<noteq> '''', tl_Expired t, Static t)"

fun text_of :: "piece \<Rightarrow> string" where
  "text_of (Text s) = s" | "text_of (Val s) = ''''"

lemma markup_render: "markup (render ps) = concat (map (\<lambda>p. markup (text_of p)) ps)"
  by (induction ps rule: render.induct) simp_all

lemma markup_row:
  "row_shape t = row_shape t' \<Longrightarrow> markup (render (row_pieces e t)) = markup (render (row_pieces e' t'))"
  unfolding markup_render by (simp add: row_pieces_def row_shape_def Let_def)

lemma markup_rows:
  "map row_shape ts = map row_shape ts' \<Longrightarrow>
   markup (table_html e ts) = markup (table_html e' ts')"
proof (induction ts arbitrary: ts')
  case (Cons t ts)
  then obtain t' us where "ts' = t' # us" "row_shape t = row_shape t'" "map row_shape ts = map row_shape us" by auto
  then show ?case using Cons.IH [of us] markup_row [of t t' e e'] by (simp add: table_html_def)
qed (simp add: table_html_def)

lemma markup_status_page:
  "map row_shape ss = map row_shape ss' \<Longrightarrow> map row_shape ds = map row_shape ds' \<Longrightarrow>
   markup (status_page e ss ds) = markup (status_page e' ss' ds')"
  using markup_rows [of ss ss' e e'] markup_rows [of ds ds' e e'] by (simp add: status_page_def)

text \<open>The markup of the page of diagnostics: one list element per node.\<close>

primrec list_markup :: "node \<Rightarrow> string" where
  "list_markup (Node k children) = ''<><>'' @ concat (map list_markup children) @ ''<><>''"

lemma markup_dump: "markup (dump (evaluate probe n e) i) = list_markup n"
proof (induction n arbitrary: e i)
  case (Node k children)
  have fixed: "markup check_mark = []" "markup cross_mark = []" "markup ''  '' = []"
    "markup [char_of (10 :: nat)] = []"
    by (simp_all add: check_mark_def cross_mark_def markup_concat) (simp_all add: markup_def char_of_def bit_0)
  have tags: "markup ''<li>'' = ''<>''" "markup ''<ul>'' = ''<>''" "markup ''</ul></li>'' = ''<><>''"
    "markup '' '' = []" "markup '': '' = []"
    by (simp_all add: markup_def char_of_def)
  obtain er st e' where ev: "evaluate probe (Node k children) e =
      EvalResult (node_String k) er st (map (\<lambda>c. evaluate probe c e') children)"
    by (simp add: Let_def comp_def split_beta) blast
  have sub: "map (\<lambda>c. markup (dump (evaluate probe c e') (i + 1))) children = map list_markup children"
    using Node by simp
  have mark: "markup (if er then cross_mark else check_mark) = []" by (simp add: fixed)
  show ?case
    unfolding ev dump.simps list_markup.simps markup_simps(2) markup_concat map_map comp_def fixed tags mark markup_escape sub
    by (simp add: fixed)
qed

section \<open>Property\<close>

text \<open>
  C17. Nothing that a client or a remote host chooses can add markup to the pages of the router. Tags
  and quotes of the DHCP status page depend on its leases only through the number of rows and whether
  each has an overridden hostname, has expired and is static; those of the page of diagnostics depend
  on the tree alone, not on what the checks answer.
\<close>

theorem pages_markup:
  "(map row_shape ss = map row_shape ss' \<and> map row_shape ds = map row_shape ds' \<longrightarrow>
      markup (status_page e ss ds) = markup (status_page e' ss' ds')) \<and>
   markup (handle_page net m) = markup (handle_page net' m)"
  using markup_status_page by (simp only: handle_page_def Monitor_Evaluate_def markup_simps markup_dump simp_thms) blast

definition plain_row :: "string \<Rightarrow> tmplLease" where
  "plain_row name = \<lparr>tl_lease = \<lparr>Num = 1, Addr = [192, 168, 42, 2], HardwareAddr = ''00:00:00:00:00:01'', Hostname = name,
     HostnameOverride = '''', Expiry = 0\<rparr>, Vendor = '''', tl_Expired = False, Static = True\<rparr>"

lemma pages_markup_witness:
  "markup (status_page \<lparr>fmt_date = (\<lambda>_. ''now''), page_now = 0\<rparr> [plain_row ''<script>''] []) =
   markup (status_page \<lparr>fmt_date = (\<lambda>_. ''now''), page_now = 0\<rparr> [plain_row ''laptop''] [])"
  using conjunct1 [OF pages_markup, of "[plain_row ''<script>'']" "[plain_row ''laptop'']" "[]" "[]"]
  by (simp add: row_shape_def plain_row_def)

end
