(* ===== verification/LeaseTypes.thy ===== *)
theory LeaseTypes
  imports Dhcp4dDaemon
begin

text \<open>
  A typing of the DHCPv4 server's heap: what the fields of every lease look like, whichever pointers
  to it are around, and that well-typed states do not go wrong in the page handler.
\<close>

section \<open>Well-typed leases\<close>

definition heap_typed :: "string set \<Rightarrow> Handler \<Rightarrow> bool" where
  "heap_typed clients h \<longleftrightarrow> (\<forall>l \<in> set (heap h). length (Addr l) = 4 \<and> HardwareAddr l \<in> clients)"

lemma heap_typed_mono: "heap_typed C h \<Longrightarrow> C \<subseteq> C' \<Longrightarrow> heap_typed C' h"
  by (auto simp: heap_typed_def)

text \<open>A write through a pointer that keeps address and client.\<close>

lemma heap_typed_write:
  assumes "heap_typed C h" "p < length (heap h)" "Addr l = Addr (deref h p)" "HardwareAddr l = HardwareAddr (deref h p)"
  shows "heap_typed C (h\<lparr>heap := (heap h)[p := l]\<rparr>)"
proof -
  have "length (Addr l) = 4 \<and> HardwareAddr l \<in> C" using assms by (auto simp: heap_typed_def)
  then show ?thesis using assms(1) set_update_subset_insert [of "heap h" p l] by (auto simp: heap_typed_def)
qed

lemma heap_typed_grant:
  "heap_typed C h \<Longrightarrow> length (Addr l) = 4 \<Longrightarrow> HardwareAddr l \<in> C \<Longrightarrow> heap_typed C (grant h n l)"
  by (auto simp: heap_typed_def grant_def Let_def)

lemma heap_typed_expire:
  assumes "heap_typed C h" "db_inv h"
  shows "heap_typed C (fst (expireLease env h hw))"
  using heap_typed_write [OF assms(1)] db_invD(1) [OF assms(2)] assms(1)
  by (auto simp: expireLease_cases leaseHW_Some [OF assms(2)] split: option.split)

lemma heap_typed_serve:
  assumes "heap_typed C h" "db_inv h"
  shows "heap_typed (insert (client p) C) (fst (serveDHCP lib env h p mt opts))"
proof -
  have t: "heap_typed (insert (client p) C) h" using assms(1) heap_typed_mono by blast
  have "heap_typed (insert (client p) C) (fst (serve_request lib env h p opts))"
    using t canLease_range [of lib env h "requested_ip p opts" "client p"]
    by (auto simp: serve_request_cases Let_def intro: heap_typed_grant)
  moreover have "heap_typed (insert (client p) C) (fst (expireLease env h (client p)))"
    by (rule heap_typed_expire [OF t assms(2)])
  ultimately show ?thesis using t by (cases mt) (auto simp: serveDHCP_def)
qed

lemma heap_typed_hostname:
  assumes "heap_typed C h" "db_inv h" "SetHostname env h hw name = Inr (h', cbs)"
  shows "heap_typed C h'"
proof -
  from SetHostname_Inr [OF assms(2,3)] obtain n p where "map_of (leasesIP h) n = Some p"
    "h' = h\<lparr>heap := (heap h)[p := named name (deref h p)]\<rparr>" by metis
  then show ?thesis
    using heap_typed_write [OF assms(1) db_invD(1) [OF assms(2)]] by (simp add: named_def)
qed

section \<open>Over the history of the daemon\<close>

fun senders :: "srv_event \<Rightarrow> packet set" where
  "senders (EvPacket env io p mt opts) = {p}"
| "senders _ = {}"

definition seen :: "srv_event list \<Rightarrow> packet set" where
  "seen es = (\<Union>ev \<in> set es. senders ev)"

definition typed_daemon :: "Srv \<Rightarrow> srv_event list \<Rightarrow> bool" where
  "typed_daemon s es \<longleftrightarrow>
     snapshot_inv (sv_daemon s) \<and> heap_typed (client ` seen es) (handler (sv_daemon s))"

lemma seen_append [simp]: "seen (es @ [ev]) = senders ev \<union> seen es"
  by (auto simp: seen_def)

lemma handler_callbacks [simp]: "handler (foldl (on_leases io) d cbs) = handler d"
  by (induction cbs arbitrary: d) simp_all

lemma handler_packet: "handler (serve_packet lib env io d p mt opts) = fst (serveDHCP lib env (handler d) p mt opts)"
  by (simp add: serve_packet_def ServeDHCP_def split: prod.split option.split)

lemma heap_typed_set_hostname:
  assumes "heap_typed C (handler d)" "db_inv (handler d)"
    and "handleSetHostname env io d meth hw name = Inr (d', answer)"
  shows "heap_typed C (handler d')"
  using assms heap_typed_hostname [OF assms(1,2)]
  by (auto simp: handleSetHostname_def split: if_splits sum.splits fault.splits)

lemma typed_step:
  assumes "typed_daemon s es" "fair ev"
  shows "typed_daemon (fst (srv_step lib s ev)) (es @ [ev])"
proof -
  let ?d = "sv_daemon s"
  have inv: "snapshot_inv ?d" "db_inv (handler ?d)" and t: "heap_typed (client ` seen es) (handler ?d)"
    using assms(1) by (auto simp: typed_daemon_def snapshot_inv_def)
  have t': "heap_typed (client ` seen (es @ [ev])) (handler ?d)"
    by (rule heap_typed_mono [OF t]) auto
  have "heap_typed (client ` seen (es @ [ev])) (handler (sv_daemon (fst (srv_step lib s ev))))"
  proof (cases "sv_result s")
    case None
    show ?thesis
    proof (cases ev)
      case (EvPacket env io p mt opts)
      then show ?thesis
        using None heap_typed_serve [OF t inv(2)]
        by (simp add: srv_step_def with_daemon_def handler_packet)
    next
      case (EvHostname env io meth hw name)
      then show ?thesis
        using None t' heap_typed_set_hostname [OF t' inv(2), of env io meth hw name]
        by (cases "handleSetHostname env io ?d meth hw name") (auto simp: srv_step_def with_daemon_def)
    qed (use None t' in \<open>auto simp: srv_step_def split: sum.split fault.split\<close>)
  qed (use t' in \<open>simp add: srv_step_def\<close>)
  then show ?thesis using snapshot_step [OF inv(1) assms(2)] by (simp add: typed_daemon_def)
qed

interpretation typed: history_machine "srv_step lib" fair typed_daemon for lib
  by unfold_locales (rule typed_step)

lemma typed_start:
  assumes "newSrv e = Inr s0"
  shows "typed_daemon s0 []"
proof -
  have "heap (handler (sv_daemon s0)) = []"
    using assms by (auto simp: newSrv_def bindR_eq_Inr NewHandler_def Let_def)
  then show ?thesis using snapshot_new [OF assms] by (simp add: typed_daemon_def heap_typed_def)
qed

section \<open>Property\<close>

text \<open>
  C15. Whatever the daemon has handled since its start, every pointer of the lease table and of the
  snapshot is a lease whose address has four bytes and whose hardware address is the text of that of
  some packet it received. So the status page panics only if a client sent a hardware address of
  fewer than three bytes.
\<close>

theorem leases_typed:
  assumes "newSrv e = Inr s0" "list_all fair es" "s = fst (run (srv_step lib) s0 es)" "d = sv_daemon s"
  shows "(\<forall>q \<in> set (leases d) \<union> snd ` set (leasesIP (handler d)). q < length (heap (handler d)) \<and>
      length (Addr (deref (handler d) q)) = 4 \<and> (\<exists>p \<in> seen es. HardwareAddr (deref (handler d) q) = client p)) \<and>
    ((\<forall>p \<in> seen es. 3 \<le> length (CHAddr p)) \<longrightarrow> (\<forall>io db remote xff. \<exists>answer. handleHome io db d remote xff = Inr answer))"
proof -
  have "typed_daemon s ([] @ es)"
    unfolding assms(3) by (rule typed.run_tied [OF typed_start [OF assms(1)] assms(2)])
  then have inv: "snapshot_inv d" "db_inv (handler d)" and t: "heap_typed (client ` seen es) (handler d)"
    by (auto simp: typed_daemon_def assms(4) snapshot_inv_def)
  have shown: "set (leases d) = snd ` set (leasesIP (handler d))"
  proof -
    from inv(1) have "mset (leases d) = mset (map snd (leasesIP (handler d)))" by (simp add: snapshot_inv_def)
    from mset_eq_setD [OF this] show ?thesis by simp
  qed
  have "q < length (heap (handler d))" if "q \<in> set (leases d)" for q
    using that db_invD(1) [OF inv(2)] db_inv_keys [OF inv(2)] unfolding shown by (auto simp: map_of_eq_Some_iff)
  then have typed: "q < length (heap (handler d)) \<and> length (Addr (deref (handler d) q)) = 4 \<and>
      (\<exists>p \<in> seen es. HardwareAddr (deref (handler d) q) = client p)" if "q \<in> set (leases d)" for q
    using that t by (fastforce simp: heap_typed_def)
  have "\<exists>answer. handleHome io db d remote xff = Inr answer" if "\<forall>p \<in> seen es. 3 \<le> length (CHAddr p)"
    for io db remote xff
  proof -
    have "8 \<le> length (HardwareAddr (deref (handler d) q))" if "q \<in> set (leases d)" for q
      using typed [OF that] \<open>\<forall>p \<in> seen es. 3 \<le> length (CHAddr p)\<close> by (fastforce simp: length_mac_string)
    then show ?thesis by (auto simp: handleHome_def rows_eq split: sum.split)
  qed
  then show ?thesis using typed unfolding shown by blast
qed

lemma leases_typed_witness:
  "\<exists>s0 d. newSrv demo_srv = Inr s0 \<and>
     d = sv_daemon (fst (run (srv_step plain_lib) s0 [EvPacket demo_env demo_dio (demo_packet 5 1) Request []])) \<and>
     (\<exists>answer. handleHome demo_dio (NewDB []) d '''' '''' = Inr answer)"
proof -
  obtain s0 where s0: "newSrv demo_srv = Inr s0" using demo_newSrv by blast
  let ?es = "[EvPacket demo_env demo_dio (demo_packet 5 1) Request []]"
  have fair: "list_all fair ?es" by (simp add: fair_def demo_env_def)
  have "\<forall>p \<in> seen ?es. 3 \<le> length (CHAddr p)" by (simp add: seen_def demo_packet_def)
  then show ?thesis
    using s0 leases_typed [OF s0 fair refl refl, of plain_lib] by blast
qed

end
