(* ===== verification/Dhcp6Daemon.thy ===== *)
theory Dhcp6Daemon
  imports Backoff NetconfigProps Dhcp6Client
begin

text \<open>
  \<open>cmd/dhcp6/dhcp6.go\<close>, the daemon that keeps the delegated prefixes, as a machine like the DHCPv4
  one; what an exchange of the DHCPv6 client can end with; and how the prefixes get to \<open>lan0\<close>.
\<close>

section \<open>The daemon\<close>

datatype position6 = Obtaining6 | Selecting6 | Returned6 "fault option" | Exited6 nat

record Daemon6 =
  client6 :: Client6
  position6 :: position6
  lease_file6 :: "Dhcp6Config option"
  boff6 :: Backoff

datatype event6 = EvObtain6 env6 "string option" "string option" | EvRenew6 | EvUsr26 env6

datatype output6 = Sent6 Message6 | Notify6 string | Backoff6 fault Backoff

text \<open>The literal with which \<open>logic\<close> sets up the back-off.\<close>

definition new_boff6 :: Backoff where
  "new_boff6 = \<lparr>bo_Factor = 2, bo_Jitter = True, bo_Min = 10 * Second, bo_Max = 1 * Minute, bo_attempt = 0\<rparr>"

definition start6 ::
    "dhcp6_pkg \<Rightarrow> net6 \<Rightarrow> unit result \<Rightarrow> bytes result \<Rightarrow> Daemon6 result" where
  "start6 lib net mkdirAll duidFile =
     bindR mkdirAll (\<lambda>_.
     bindR (NewClient6 lib net
              \<lparr>InterfaceName = ''uplink0'', LocalAddr = None, RemoteAddr = None,
               DUID = (case duidFile of Inl _ \<Rightarrow> None | Inr d \<Rightarrow> Some d),
               Conn_given = False, TransactionIDs = [], HardwareAddr6 = None\<rparr>) (\<lambda>c.
       Inr \<lparr>client6 = c, position6 = Obtaining6, lease_file6 = None, boff6 = new_boff6\<rparr>))"

text \<open>The two errors of an event are those of \<open>json.Marshal\<close> and of writing the file.\<close>

definition obtain6_step :: "dhcp6_pkg \<Rightarrow> env6 \<Rightarrow> string option \<Rightarrow> string option \<Rightarrow> Daemon6 \<Rightarrow> Daemon6 \<times> output6 list" where
  "obtain6_step lib env marshal wr d =
     (case ObtainOrRenew6 lib env (client6 d) of
        (c, sent, again) \<Rightarrow>
          let d = d\<lparr>client6 := c\<rparr>; out = map Sent6 sent in
          if \<not> again then (d\<lparr>position6 := Returned6 (Err6 c)\<rparr>, out)
          else (case Err6 c of
            Some e \<Rightarrow> (d\<lparr>boff6 := count_attempt (boff6 d)\<rparr>, out @ [Backoff6 e (boff6 d)])
          | None \<Rightarrow> let d = d\<lparr>boff6 := Reset (boff6 d)\<rparr> in (case marshal of
              Some e \<Rightarrow> (d\<lparr>position6 := Returned6 (Some (Err e))\<rparr>, out)
            | None \<Rightarrow> (case wr of
                Some e \<Rightarrow> (d\<lparr>position6 := Returned6 (Some (Err e))\<rparr>, out)
              | None \<Rightarrow>
                  (d\<lparr>lease_file6 := Some (Config6 c), position6 := Selecting6\<rparr>,
                   out @ [Notify6 ''/user/netconfigd'', Notify6 ''/user/radvd''])))))"

definition usr2_step6 :: "dhcp6_pkg \<Rightarrow> env6 \<Rightarrow> Daemon6 \<Rightarrow> Daemon6 \<times> output6 list" where
  "usr2_step6 lib env d =
     (case Release6 lib env (client6 d) of
        (c, sent, Inl e) \<Rightarrow> (d\<lparr>client6 := c, position6 := Returned6 (Some e)\<rparr>, map Sent6 sent)
      | (c, sent, Inr _) \<Rightarrow> (d\<lparr>client6 := c, position6 := Exited6 125\<rparr>, map Sent6 sent))"

fun step6 :: "dhcp6_pkg \<Rightarrow> Daemon6 \<Rightarrow> event6 \<Rightarrow> Daemon6 \<times> output6 list" where
  "step6 lib d (EvObtain6 env marshal wr) =
     (if position6 d = Obtaining6 then obtain6_step lib env marshal wr d else (d, []))"
| "step6 lib d EvRenew6 = (if position6 d = Selecting6 then (d\<lparr>position6 := Obtaining6\<rparr>, []) else (d, []))"
| "step6 lib d (EvUsr26 env) = (if position6 d = Selecting6 then usr2_step6 lib env d else (d, []))"

section \<open>The back-off\<close>

fun wait6 :: "output6 \<Rightarrow> Backoff option" where
  "wait6 (Backoff6 e b) = Some b"
| "wait6 x = None"

fun renewed6 :: "output6 \<Rightarrow> bool" where
  "renewed6 (Notify6 n) = True"
| "renewed6 x = False"

lemma quiet_Sent6: "quiet wait6 renewed6 (map Sent6 sent)"
  by (simp add: quiet_def)

lemma step6_counts:
  assumes "step6 lib d e = (d', out)"
  shows "(position6 d' \<notin> {Obtaining6, Selecting6} \<or> boff6 d' = boff6 d) \<and> quiet wait6 renewed6 out \<or>
    (\<exists>pre x. out = pre @ [x] \<and> quiet wait6 renewed6 pre \<and> wait6 x = Some (boff6 d) \<and> \<not> renewed6 x \<and>
       boff6 d' = count_attempt (boff6 d)) \<or>
    (\<exists>pre x post. out = pre @ [x] @ post \<and> quiet wait6 renewed6 pre \<and> wait6 x = None \<and> renewed6 x \<and>
       (\<forall>y \<in> set post. wait6 y = None \<and> renewed6 y) \<and> boff6 d' = Reset (boff6 d))"
  (is "?quiet \<or> ?failure \<or> ?success")
proof (cases "\<exists>env m w. e = EvObtain6 env m w \<and> position6 d = Obtaining6")
  case False
  then have ?quiet
    using assms quiet_Sent6
    by (cases e) (auto simp: usr2_step6_def quiet_def split: sum.splits prod.splits if_splits)
  then show ?thesis ..
next
  case True
  then obtain env m w where step: "obtain6_step lib env m w d = (d', out)" using assms by auto
  obtain c sent again where r: "ObtainOrRenew6 lib env (client6 d) = (c, sent, again)"
    by (cases "ObtainOrRenew6 lib env (client6 d)")
  consider "\<not> again \<or> err6 c = None \<and> (m \<noteq> None \<or> w \<noteq> None)" | e where "again" "err6 c = Some e"
    | "again" "err6 c = None" "m = None" "w = None" by (cases "err6 c") auto
  then show ?thesis
  proof cases
    case 1
    then have ?quiet using step r quiet_Sent6 by (auto simp: obtain6_step_def Let_def split: if_splits option.splits)
    then show ?thesis ..
  next
    case (2 e)
    then have "out = map Sent6 sent @ [Backoff6 e (boff6 d)]" "boff6 d' = count_attempt (boff6 d)"
      using step r by (auto simp: obtain6_step_def)
    then have ?failure using quiet_Sent6 by (intro exI [of _ "map Sent6 sent"] exI [of _ "Backoff6 e (boff6 d)"]) simp
    then show ?thesis by blast
  next
    case 3
    then have "out = map Sent6 sent @ [Notify6 ''/user/netconfigd''] @ [Notify6 ''/user/radvd'']" "boff6 d' = Reset (boff6 d)"
      using step r by (auto simp: obtain6_step_def Let_def)
    then have ?success
      using quiet_Sent6
      by (intro exI [of _ "map Sent6 sent"] exI [of _ "Notify6 ''/user/netconfigd''"] exI [of _ "[Notify6 ''/user/radvd'']"]) simp
    then show ?thesis by blast
  qed
qed

interpretation bo6: backoff_machine "step6 lib" boff6 wait6 renewed6 "\<lambda>d. position6 d \<notin> {Obtaining6, Selecting6}"
  for lib
proof
  fix d :: Daemon6 and e :: event6
  assume "position6 d \<notin> {Obtaining6, Selecting6}"
  then show "step6 lib d e = (d, [])" by (cases e) auto
qed (rule step6_counts)

lemma waits6:
  assumes "start6 lib net mkdirAll duidFile = Inr d"
  shows "counted wait6 renewed6 new_boff6 (snd (run (step6 lib) d es))"
  by (rule bo6.waits) (use assms in \<open>auto simp: start6_def bindR_eq_Inr new_boff6_def\<close>)

text \<open>\<open>main\<close>: the exit status, as for the DHCPv4 daemon.\<close>

definition main_status6 :: "Daemon6 \<Rightarrow> nat option" where
  "main_status6 d =
     (case position6 d of
        Returned6 err \<Rightarrow> Some (case err of None \<Rightarrow> 0 | Some (Err e) \<Rightarrow> 1 | Some (Panic s) \<Rightarrow> 2)
      | Exited6 n \<Rightarrow> Some n
      | _ \<Rightarrow> None)"

section \<open>The client\<close>

lemma use_xid_fields [simp]:
  "cfg6 (fst (use_xid c m)) = cfg6 c" "advertise (fst (use_xid c m)) = advertise c"
  "err6 (fst (use_xid c m)) = err6 c" "duid (fst (use_xid c m)) = duid c"
  by (simp_all add: use_xid_def split: list.split)

lemma solicit_fields:
  assumes "solicit lib env g c = (c', sent, r)"
  shows "cfg6 c' = cfg6 c" "err6 c' = err6 c" "advertise c' = advertise c" "length sent \<le> 1"
  using assms use_xid_fields by (auto simp: solicit_def Let_def split_beta split: sum.splits)

lemma request6_fields:
  assumes "request6 lib env a c = (c', sent, r)"
  shows "cfg6 c' = cfg6 c" "err6 c' = err6 c" "advertise c' = advertise c" "length sent \<le> 1"
  using assms use_xid_fields by (auto simp: request6_def Let_def split_beta split: sum.splits)

text \<open>The messages that a client accepts as an answer.\<close>

lemma receive_sound:
  "receive t xid rs = Inr m \<Longrightarrow> Message m \<in> set rs \<and> TransactionID m = xid \<and> (t = MsgNone \<or> msg_type m = t)"
  by (induction rs) (auto split: read6.splits if_splits)

definition renewal :: "time \<Rightarrow> iapd list \<Rightarrow> time \<Rightarrow> time" where
  "renewal now ias r = foldl (\<lambda>r ia. earliest (now + T1 ia) r) r ias"

lemma iapd_loop_fields:
  "iapd_loop now ias cfg =
     cfg\<lparr>c6_RenewAfter := renewal now ias (c6_RenewAfter cfg), c6_Prefixes := c6_Prefixes cfg @ concat (map Prefixes ias)\<rparr>"
  by (induction ias arbitrary: cfg) (simp_all add: renewal_def)

lemma renewal_Min:
  assumes "\<forall>ia \<in> set ias. 0 < now + T1 ia" "0 < r"
  shows "renewal now ias r = Min (insert r ((\<lambda>ia. now + T1 ia) ` set ias))"
  using assms
proof (induction ias arbitrary: r)
  case (Cons ia ias)
  have e: "earliest (now + T1 ia) r = min (now + T1 ia) r" "0 < min (now + T1 ia) r"
    using Cons.prems by (auto simp: earliest_def Before_def IsZero_def)
  have "renewal now (ia # ias) r = renewal now ias (min (now + T1 ia) r)" by (simp add: renewal_def e(1))
  also have "\<dots> = Min (insert (min (now + T1 ia) r) ((\<lambda>ia. now + T1 ia) ` set ias))"
    using Cons e(2) by simp
  also have "\<dots> = Min (insert r (insert (now + T1 ia) ((\<lambda>ia. now + T1 ia) ` set ias)))"
    by (cases "ias = []") (simp_all add: min.commute min.left_commute)
  finally show ?case by simp
qed (simp add: renewal_def)

lemma renewal_first:
  assumes "\<forall>ia \<in> set ias. 0 < now + T1 ia" "ias \<noteq> []"
  shows "renewal now ias 0 = Min ((\<lambda>ia. now + T1 ia) ` set ias)"
proof -
  obtain ia rest where ias: "ias = ia # rest" using assms(2) by (cases ias) auto
  have "renewal now ias 0 = renewal now rest (now + T1 ia)"
    by (simp add: ias renewal_def earliest_def IsZero_def)
  then show ?thesis using assms(1) renewal_Min [of rest now "now + T1 ia"] by (simp add: ias)
qed

lemma use_xid_type: "msg_type (snd (use_xid c m)) = msg_type m"
  by (simp add: use_xid_def split: list.split)

text \<open>Documented behaviour of the package: a request made from an advertisement is a DHCPREQUEST, options do not change the type.\<close>

definition pkg6_ok :: "dhcp6_pkg \<Rightarrow> bool" where
  "pkg6_ok lib \<longleftrightarrow>
     (\<forall>m d x r. NewRequestFromAdvertise lib m d x = Inr r \<longrightarrow> msg_type r = Request6) \<and>
     (\<forall>ia m. msg_type (AddOption lib ia m) = msg_type m)"

lemma request6_answer:
  assumes "pkg6_ok lib" "request6 lib env adv c = (c', sent, Inr reply)"
  shows "Message reply \<in> set (in_req6 env) \<and> msg_type reply = Reply \<and>
    (\<exists>m. sent = [m] \<and> TransactionID reply = TransactionID m)"
proof -
  obtain m where m: "NewRequestFromAdvertise lib (Some adv) (duid c) (xid_request env) = Inr m"
    using assms(2) by (auto simp: request6_def split: sum.splits)
  define m1 where "m1 = (case OneIAPD lib adv of None \<Rightarrow> m | Some ia \<Rightarrow> AddOption lib ia m)"
  define m2 where "m2 = snd (use_xid c m1)"
  have "msg_type m1 = Request6"
    using assms(1) m by (auto simp: pkg6_ok_def m1_def split: option.split)
  then have t: "msg_type m2 = Request6" by (simp add: m2_def use_xid_type)
  have "sent = [m2]" "sendReceive (Some m2) MsgNone (write_req6 env) (in_req6 env) = Inr reply"
    using assms(2) m by (auto simp: request6_def m1_def [symmetric] m2_def split_beta Let_def)
  then show ?thesis
    using receive_sound [of Reply "TransactionID m2" "in_req6 env" reply] t
    by (auto simp: sendReceive_def expected_def split: option.splits)
qed

lemma config_of_reply_fields:
  assumes "\<forall>ia \<in> set (msg_IAPD reply). 0 < now + T1 ia"
  shows "c6_Prefixes (config_of_reply now reply) = concat (map Prefixes (msg_IAPD reply)) \<and>
    c6_DNS (config_of_reply now reply) = map IP_String (msg_DNS reply) \<and>
    c6_RenewAfter (config_of_reply now reply) =
      (if msg_IAPD reply = [] then 0 else Min ((\<lambda>ia. now + T1 ia) ` set (msg_IAPD reply)))"
  using assms renewal_first [of "msg_IAPD reply" now]
  by (auto simp: config_of_reply_def iapd_loop_fields Let_def renewal_def)

lemma obtain6_reply:
  assumes "pkg6_ok lib" "ObtainOrRenew6 lib env c = (c', sent, again)" "err6 c' = None"
  shows "again \<and> (\<exists>reply. Message reply \<in> set (in_req6 env) \<and> msg_type reply = Reply \<and>
    TransactionID reply = TransactionID (last sent) \<and> cfg6 c' = config_of_reply (now6 env) reply)"
proof -
  obtain c1 sent1 r where sol: "solicit lib env None (c\<lparr>err6 := None\<rparr>) = (c1, sent1, r)" by (rule prod_cases3)
  show ?thesis
  proof (cases r)
    case (Inr adv)
    obtain c2 sent2 r2 where req: "request6 lib env adv (c1\<lparr>advertise := Some adv\<rparr>) = (c2, sent2, r2)"
      by (rule prod_cases3)
    then obtain reply where r2: "r2 = Inr reply" and none: "iapd_refused lib adv = None"
      using assms(2,3) sol Inr by (cases r2) (auto simp: ObtainOrRenew6_def Let_def split: option.splits prod.splits)
    then obtain m where "Message reply \<in> set (in_req6 env)" "msg_type reply = Reply" "sent2 = [m]"
      "TransactionID reply = TransactionID m"
      using request6_answer [OF assms(1)] req by blast
    then show ?thesis using assms(2) sol Inr r2 none req by (auto simp: ObtainOrRenew6_def Let_def)
  qed (use assms sol in \<open>auto simp: ObtainOrRenew6_def\<close>)
qed

lemma obtain6_again:
  assumes "ObtainOrRenew6 lib env c = (c', sent, again)"
  shows "\<not> again \<longleftrightarrow> (\<exists>c1 sent1 adv. solicit lib env None (c\<lparr>err6 := None\<rparr>) = (c1, sent1, Inr adv) \<and>
    iapd_refused lib adv \<noteq> None)"
proof -
  obtain c1 sent1 r where sol: "solicit lib env None (c\<lparr>err6 := None\<rparr>) = (c1, sent1, r)" by (rule prod_cases3)
  show ?thesis
  proof (cases r)
    case (Inr adv)
    obtain c2 sent2 r2 where req: "request6 lib env adv (c1\<lparr>advertise := Some adv\<rparr>) = (c2, sent2, r2)"
      by (rule prod_cases3)
    then show ?thesis
      using assms sol Inr by (cases r2) (auto simp: ObtainOrRenew6_def Let_def split: option.splits)
  qed (use assms sol in \<open>auto simp: ObtainOrRenew6_def\<close>)
qed

lemma obtain6_error:
  assumes "ObtainOrRenew6 lib env c = (c', sent, again)" "err6 c' \<noteq> None"
  shows "cfg6 c' = cfg6 c"
proof -
  obtain c1 sent1 r where sol: "solicit lib env None (c\<lparr>err6 := None\<rparr>) = (c1, sent1, r)" by (rule prod_cases3)
  note f = solicit_fields [OF sol]
  show ?thesis
  proof (cases r)
    case (Inr adv)
    obtain c2 sent2 r2 where req: "request6 lib env adv (c1\<lparr>advertise := Some adv\<rparr>) = (c2, sent2, r2)"
      by (rule prod_cases3)
    note g = request6_fields [OF req]
    show ?thesis
      using assms sol Inr req f g
      by (cases r2) (auto simp: ObtainOrRenew6_def Let_def split: option.splits prod.splits)
  qed (use assms sol f in \<open>auto simp: ObtainOrRenew6_def\<close>)
qed

text \<open>
  C27. The outcome of \<open>ObtainOrRenew\<close>: only a DHCPREPLY to the client's own request changes the lease,
  and then the lease has exactly the prefixes and name servers of that reply and is to be renewed at
  the earliest T1 (at once, if the reply delegates nothing). An error leaves the lease alone. The
  daemon is told to end exactly if an advertisement refuses its first IA_PD.
\<close>

theorem obtain6_outcome:
  assumes "pkg6_ok lib" "ObtainOrRenew6 lib env c = (c', sent, again)"
    and "\<forall>reply. Message reply \<in> set (in_req6 env) \<longrightarrow> (\<forall>ia \<in> set (msg_IAPD reply). 0 < now6 env + T1 ia)"
  shows "(\<not> again \<longleftrightarrow> (\<exists>c1 sent1 adv. solicit lib env None (c\<lparr>err6 := None\<rparr>) = (c1, sent1, Inr adv) \<and>
      iapd_refused lib adv \<noteq> None)) \<and>
    (case err6 c' of
      Some e \<Rightarrow> cfg6 c' = cfg6 c
    | None \<Rightarrow> again \<and> (\<exists>reply. Message reply \<in> set (in_req6 env) \<and> msg_type reply = Reply \<and>
        TransactionID reply = TransactionID (last sent) \<and>
        c6_Prefixes (cfg6 c') = concat (map Prefixes (msg_IAPD reply)) \<and>
        c6_DNS (cfg6 c') = map IP_String (msg_DNS reply) \<and>
        c6_RenewAfter (cfg6 c') =
          (if msg_IAPD reply = [] then 0 else Min ((\<lambda>ia. now6 env + T1 ia) ` set (msg_IAPD reply)))))"
proof (cases "err6 c'")
  case None
  from obtain6_reply [OF assms(1,2) None] obtain reply where r: again "Message reply \<in> set (in_req6 env)"
    "msg_type reply = Reply" "TransactionID reply = TransactionID (last sent)"
    "cfg6 c' = config_of_reply (now6 env) reply" by blast
  then have "\<forall>ia \<in> set (msg_IAPD reply). 0 < now6 env + T1 ia" using assms(3) by blast
  from config_of_reply_fields [OF this] show ?thesis using r None obtain6_again [OF assms(2)] by auto
next
  case (Some e)
  then show ?thesis using obtain6_error [OF assms(2)] obtain6_again [OF assms(2)] by simp
qed

section \<open>What is on disk\<close>

definition stored6 :: "Daemon6 \<Rightarrow> bool" where
  "stored6 d \<longleftrightarrow>
     (position6 d = Selecting6 \<longrightarrow> lease_file6 d = Some (cfg6 (client6 d))) \<and>
     (position6 d = Obtaining6 \<longrightarrow> lease_file6 d = None \<or> lease_file6 d = Some (cfg6 (client6 d)))"

lemma stored6_step: "stored6 d \<Longrightarrow> stored6 (fst (step6 lib d e))"
proof (cases e)
  case (EvObtain6 env marshal wr)
  assume d: "stored6 d"
  obtain c sent again where o: "ObtainOrRenew6 lib env (client6 d) = (c, sent, again)" by (rule prod_cases3)
  show ?thesis
    using d o obtain6_error [OF o] EvObtain6
    by (auto simp: stored6_def obtain6_step_def Let_def split: option.splits)
next
  case (EvUsr26 env)
  assume "stored6 d"
  then show ?thesis
    using EvUsr26 by (auto simp: stored6_def usr2_step6_def split: prod.splits sum.splits)
next
  case EvRenew6
  assume "stored6 d"
  then show ?thesis using EvRenew6 by (auto simp: stored6_def)
qed

interpretation d6: run_machine "step6 lib" stored6 for lib
  by unfold_locales (rule stored6_step)

text \<open>After any history the file is the lease that the client holds, or the last one while it tries to renew.\<close>

lemma lease6_stored:
  "start6 lib net mkdirAll duidFile = Inr d \<Longrightarrow> stored6 (fst (run (step6 lib) d es))"
  by (rule d6.run_inv) (auto simp: start6_def bindR_eq_Inr stored6_def)

section \<open>The prefixes on the LAN\<close>

text \<open>The first address of a prefix, in its first /64 if the prefix is larger.\<close>

definition lan_address :: "address \<Rightarrow> address" where
  "lan_address p = ((fst p)[length (fst p) - 1 := 1], max 64 (snd p))"

lemma applyDhcp6_loop:
  assumes "netlink_ok nl"
    and "\<forall>p \<in> set ps. fst p \<noteq> [] \<and> nl_ParseAddr nl (IPNet_String (lan_address p)) = Inr (lan_address p)"
    and "eachIO (\<lambda>prefix. bindIO (liftIO (lan_prefix prefix)) (\<lambda>p.
        bindIO (liftIO (nl_ParseAddr nl (IPNet_String p))) (\<lambda>addr. perform nl (AddrReplace i addr)))) ps w = (w', Inr ())"
  shows "\<exists>as. w' = w\<lparr>addrs := (addrs w)(i := as)\<rparr> \<and> set as = set (addrs w i) \<union> lan_address ` set ps"
  using assms(2,3)
proof (induction ps arbitrary: w)
  case Nil
  then show ?case by (intro exI [of _ "addrs w i"]) (simp add: io_Inr)
next
  case (Cons p ps)
  have "lan_prefix p = Inr (lan_address p)"
    using Cons.prems(1) by (cases p) (auto simp: lan_prefix_def lan_address_def Let_def max_def)
  moreover have "nl_ParseAddr nl (IPNet_String (lan_address p)) = Inr (lan_address p)"
    using Cons.prems(1) by simp
  ultimately obtain w1 where w1: "nl_call nl (AddrReplace i (lan_address p)) w = Inr w1"
    "eachIO (\<lambda>prefix. bindIO (liftIO (lan_prefix prefix)) (\<lambda>p.
        bindIO (liftIO (nl_ParseAddr nl (IPNet_String p))) (\<lambda>addr. perform nl (AddrReplace i addr)))) ps w1 = (w', Inr ())"
    using Cons.prems(2) by (auto simp: io_Inr)
  obtain as1 where as1: "w1 = w\<lparr>addrs := (addrs w)(i := as1)\<rparr>" "set as1 = insert (lan_address p) (set (addrs w i))"
    using netlink_okD(1) [OF assms(1) w1(1)] by blast
  have "\<forall>p \<in> set ps. fst p \<noteq> [] \<and> nl_ParseAddr nl (IPNet_String (lan_address p)) = Inr (lan_address p)" using Cons.prems(1) by simp
  then obtain as where "w' = w1\<lparr>addrs := (addrs w1)(i := as)\<rparr>" "set as = set (addrs w1 i) \<union> lan_address ` set ps"
    using Cons.IH [OF _ w1(2)] by blast
  then have "w' = w\<lparr>addrs := (addrs w)(i := as)\<rparr> \<and> set as = set (addrs w i) \<union> lan_address ` set (p # ps)"
    using as1 by auto
  then show ?case by blast
qed

text \<open>
  When delegated prefixes have been applied without error, \<open>lan0\<close> has, beside the addresses it had,
  the first address of each prefix with a prefix length of at least 64, and nothing else changed.
  (The text form of these addresses is assumed to be parsed back.)
\<close>

lemma delegated_prefixes:
  assumes "netlink_ok nl" "applyDhcp6 nl (Decoded got) w = (w', Inr ())"
    and "\<forall>p \<in> set (c6_Prefixes got). fst p \<noteq> [] \<and>
      nl_ParseAddr nl (IPNet_String (lan_address p)) = Inr (lan_address p)"
  shows "\<exists>l \<in> set (links w). l_name l = ''lan0'' \<and>
    set (addrs w' (l_index l)) = set (addrs w (l_index l)) \<union>
      {((fst p)[length (fst p) - 1 := 1], max 64 (snd p)) |p. p \<in> set (c6_Prefixes got)} \<and>
    (\<forall>j. j \<noteq> l_index l \<longrightarrow> addrs w' j = addrs w j) \<and> links w' = links w \<and> routes w' = routes w"
proof -
  obtain l where l: "nl_LinkByName nl w ''lan0'' = Inr l" and
    loop: "eachIO (\<lambda>prefix. bindIO (liftIO (lan_prefix prefix)) (\<lambda>p.
        bindIO (liftIO (nl_ParseAddr nl (IPNet_String p))) (\<lambda>addr. perform nl (AddrReplace (l_index l) addr))))
      (c6_Prefixes got) w = (w', Inr ())"
    using assms(2) by (auto simp: applyDhcp6_def io_Inr)
  obtain as where as: "w' = w\<lparr>addrs := (addrs w)(l_index l := as)\<rparr>"
    "set as = set (addrs w (l_index l)) \<union> lan_address ` set (c6_Prefixes got)"
    using applyDhcp6_loop [OF assms(1,3) loop] by blast
  have at: "addrs w' (l_index l) = as" "links w' = links w" "routes w' = routes w"
    "\<And>j. j \<noteq> l_index l \<Longrightarrow> addrs w' j = addrs w j"
    by (simp_all add: as(1))
  have "lan_address ` set (c6_Prefixes got) =
      {((fst p)[length (fst p) - 1 := 1], max 64 (snd p)) |p. p \<in> set (c6_Prefixes got)}"
    unfolding image_def lan_address_def by blast
  then show ?thesis using netlink_okD(8) [OF assms(1) l] at as(2) by auto
qed

section \<open>Concrete runs\<close>

definition lan_ip :: bytes where
  "lan_ip = [0x2a, 0x02, 0x01, 0x68, 0x4a, 0, 0, 0, 0, 0, 0, 0, 0, 0, 0, 1]"

lemma lan_ip_String: "IP_String lan_ip = ''2a02:168:4a00::1''"
proof -
  have "groups lan_ip = [0x2a02, 0x168, 0x4a00, 0, 0, 0, 0, 1]"
    by (simp add: groups_def upt_rec lan_ip_def)
  moreover have "zero_run [0x2a02, 0x168, 0x4a00, 0, 0, 0, 0, 1] 0 (0, 0) = (3, 7)"
    by (simp add: zero_run.simps Let_def)
  moreover have "append_hex 0x2a02 = ''2a02''" "append_hex 0x168 = ''168''" "append_hex 0x4a00 = ''4a00''"
    "append_hex (Suc 0) = ''1''"
    by (simp_all add: append_hex_def hexDigit_def)
  moreover have "lan_ip \<noteq> []" "length lan_ip = 16" "To4 lan_ip = []"
    by (simp_all add: lan_ip_def To4_def v4InV6Prefix_def)
  ultimately show ?thesis by (simp add: IP_String_def)
qed

lemma lan_ip_parse: "ParseCIDR (''2a02:168:4a00::1/'' @ itoa 64) = Inr (lan_ip, 64)"
proof -
  have "parse_quad 3 ''a02:168:4a00::1'' = None"
    by (subst parse_quad.simps) (simp split: nat.split)
  then have "parseIPv4 ''2a02:168:4a00::1'' = None"
    unfolding parseIPv4_def
    by (subst parse_quad.simps) (simp add: is_digit_def digit_val_def split: nat.split)
  moreover have "parseIPv6 ''2a02:168:4a00::1'' = Some lan_ip"
    by (simp add: parseIPv6_def parse6_loop.simps fromHex_def lan_ip_def Let_def) (simp add: eval_nat_numeral)
  ultimately show ?thesis
    using dtoi_itoa [of 64 "[]"] by (simp add: ParseCIDR_def Let_def)
qed

definition lan_world :: World where
  "lan_world = demo_world\<lparr>links := [\<lparr>l_index = 3, l_name = ''lan0'', l_hw = [], l_up = True, l_oper = True, l_master = None\<rparr>]\<rparr>"

definition delegated :: Dhcp6Config where
  "delegated = \<lparr>c6_RenewAfter = 0, c6_Prefixes = [(lan_ip[15 := 0], 48)], c6_DNS = []\<rparr>"

lemma delegated_prefixes_witness:
  "\<exists>w'. applyDhcp6 plain_netlink (Decoded delegated) lan_world = (w', Inr ()) \<and> set (addrs w' 3) = {(lan_ip, 64)}"
proof -
  have a: "lan_address (lan_ip[15 := 0], 48) = (lan_ip, 64)" "lan_ip[15 := 0] \<noteq> []"
    by (simp_all add: lan_address_def lan_ip_def)
  have p: "nl_ParseAddr plain_netlink (IPNet_String (lan_ip, 64)) = Inr (lan_ip, 64)"
    using lan_ip_parse by (simp add: plain_netlink_def IPNet_String_def lan_ip_String)
  have lp: "lan_prefix (lan_ip[15 := 0], 48) = Inr (lan_ip, 64)"
    by (simp add: lan_prefix_def Let_def lan_ip_def)
  obtain l where l: "nl_LinkByName plain_netlink lan_world ''lan0'' = Inr l"
    by (simp add: plain_netlink_def lan_world_def)
  obtain w' where w': "applyDhcp6 plain_netlink (Decoded delegated) lan_world = (w', Inr ())"
    using plain_perform [of "AddrReplace (l_index l) (lan_ip, 64)" lan_world] l
    by (auto simp: applyDhcp6_def delegated_def bindIO_def query_def liftIO_def retIO_def lp p)
  have "\<forall>q \<in> set (c6_Prefixes delegated). fst q \<noteq> [] \<and>
      nl_ParseAddr plain_netlink (IPNet_String (lan_address q)) = Inr (lan_address q)"
    by (simp add: delegated_def a p) (simp add: lan_ip_def)
  from delegated_prefixes [OF netlink_ok_plain w' this] w'
  show ?thesis by (simp add: lan_world_def demo_world_def delegated_def) (simp add: lan_ip_def)
qed

definition plain_dhcp6 :: dhcp6_pkg where
  "plain_dhcp6 =
     \<lparr>DuidFromBytes = (\<lambda>b. Inr (DuidBytes b)),
      NewSolicit = (\<lambda>hw d x. Inr \<lparr>msg_type = Solicit, TransactionID = x, msg_IAPD = [], msg_DNS = [],
        msg_ClientID = None, msg_ServerID = None\<rparr>),
      NewRequestFromAdvertise = (\<lambda>m d x. Inr \<lparr>msg_type = Request6, TransactionID = x, msg_IAPD = [], msg_DNS = [],
        msg_ClientID = None, msg_ServerID = None\<rparr>),
      AddOption = (\<lambda>ia m. m\<lparr>msg_IAPD := msg_IAPD m @ [ia]\<rparr>),
      OneIAPD = (\<lambda>m. case msg_IAPD m of [] \<Rightarrow> None | ia # _ \<Rightarrow> Some ia),
      AllDHCPRelayAgentsAndServers = 0xff # replicate 15 0\<rparr>"

definition demo_client6 :: Client6 where
  "demo_client6 =
     \<lparr>interfaceName = ''uplink0'', hardwareAddr6 = [], raddr = \<lparr>udp_IP = [], udp_Port = 547, udp_Zone = ''''\<rparr>,
      bound_to = None, duid = DuidBytes [], advertise = None,
      cfg6 = \<lparr>c6_RenewAfter = 0, c6_Prefixes = [], c6_DNS = []\<rparr>, err6 = None, transactionIDs = [[1, 2, 3], [4, 5, 6]]\<rparr>"

definition demo_message6 :: "MessageType6 \<Rightarrow> bytes \<Rightarrow> Message6" where
  "demo_message6 t x =
     \<lparr>msg_type = t, TransactionID = x,
      msg_IAPD = [\<lparr>IaId = [0, 0, 0, 1], T1 = 20, Status = None, Prefixes = [(lan_ip[15 := 0], 48)]\<rparr>,
                  \<lparr>IaId = [0, 0, 0, 2], T1 = 10, Status = None, Prefixes = []\<rparr>],
      msg_DNS = [], msg_ClientID = None, msg_ServerID = None\<rparr>"

definition demo_env6 :: env6 where
  "demo_env6 =
     \<lparr>xid_solicit = [], xid_request = [], write_solicit = None,
      in_solicit = [NotDhcp6, Message (demo_message6 Advertise [1, 2, 3])], write_req6 = None,
      in_req6 = [Message (demo_message6 Advertise [1, 2, 3]), Message (demo_message6 Reply [4, 5, 6])], now6 = 100\<rparr>"

lemma obtain6_outcome_witness:
  "\<exists>c' sent. ObtainOrRenew6 plain_dhcp6 demo_env6 demo_client6 = (c', sent, True) \<and>
     c6_RenewAfter (cfg6 c') = 110 \<and> c6_Prefixes (cfg6 c') = [(lan_ip[15 := 0], 48)]"
proof -
  obtain c' sent where o: "ObtainOrRenew6 plain_dhcp6 demo_env6 demo_client6 = (c', sent, True)" "err6 c' = None"
    by (simp add: ObtainOrRenew6_def solicit_def request6_def plain_dhcp6_def demo_env6_def demo_client6_def
        use_xid_def sendReceive_def expected_def demo_message6_def iapd_refused_def)
  have "pkg6_ok plain_dhcp6" by (simp add: pkg6_ok_def plain_dhcp6_def)
  moreover have "\<forall>reply. Message reply \<in> set (in_req6 demo_env6) \<longrightarrow>
      (\<forall>ia \<in> set (msg_IAPD reply). 0 < now6 demo_env6 + T1 ia)"
    by (simp add: demo_env6_def demo_message6_def)
  ultimately obtain reply where "Message reply \<in> set (in_req6 demo_env6)"
    "c6_Prefixes (cfg6 c') = concat (map Prefixes (msg_IAPD reply))"
    "c6_RenewAfter (cfg6 c') = (if msg_IAPD reply = [] then 0 else Min ((\<lambda>ia. now6 demo_env6 + T1 ia) ` set (msg_IAPD reply)))"
    using obtain6_outcome [OF _ o(1)] o(2) by fastforce
  then show ?thesis using o(1) by (auto simp: demo_env6_def demo_message6_def)
qed

end
