(* ===== verification/DelegatedPrefix.thy ===== *)
theory DelegatedPrefix
  imports Dhcp6Daemon Multilisten
begin

text \<open>
  A delegated prefix on its way through the router: \<open>cmd/dhcp6\<close> obtains it and writes it to its lease
  file, netconfigd gives the first address of it to \<open>lan0\<close>, and the daemons that read the same file
  listen on that address.
\<close>

section \<open>The first address of a prefix\<close>

definition first_address :: "bytes \<Rightarrow> bytes" where
  "first_address ip = ip[length ip - 1 := 1]"

lemma IPv6Net1_first:
  "ip \<noteq> [] \<Longrightarrow> decode file = Inr (ip # ips) \<Longrightarrow> IPv6Net1 (Inr file) decode = Inr (IP_String (first_address ip))"
  by (simp add: IPv6Net1_def first_address_def)

lemma listens_on_net1:
  assumes "PrivateInterfaceAddrs interfaces = Inr hosts"
  shows "\<exists>pool'. updateListeners interfaces (Inr host) pool = Inr pool' \<and> host \<in> dom (map_of (listeners pool'))"
  using assms by (simp add: updateListeners_def listen_with_net1_def listen_dom del: dom_def)

lemma obtained_prefixes:
  assumes "pkg6_ok lib" "ObtainOrRenew6 lib env c = (c', sent, again)" "err6 c' = None"
  obtains reply where "Message reply \<in> set (in_req6 env)" "msg_type reply = Reply"
    "c6_Prefixes (cfg6 c') = concat (map Prefixes (msg_IAPD reply))"
  using obtain6_reply [OF assms] that by (auto simp: config_of_reply_def iapd_loop_fields Let_def)

text \<open>A step that tells netconfigd about a lease has just written it.\<close>

lemma notified_stored:
  assumes "position6 d = Obtaining6" "step6 lib d (EvObtain6 env m wr) = (d', out)" "Notify6 n \<in> set out"
  obtains sent where "ObtainOrRenew6 lib env (client6 d) = (client6 d', sent, True)" "err6 (client6 d') = None"
    "lease_file6 d' = Some (cfg6 (client6 d'))"
proof -
  obtain c sent again where o: "ObtainOrRenew6 lib env (client6 d) = (c, sent, again)" by (rule prod_cases3)
  have step: "obtain6_step lib env m wr d = (d', out)" using assms(1,2) by simp
  have again: again
    using step assms(3) o by (cases again) (auto simp: obtain6_step_def Let_def)
  have ok: "err6 c = None" "m = None" "wr = None"
    using step assms(3) o again
    by (cases "err6 c"; cases m; cases wr; force simp: obtain6_step_def Let_def)+
  then have "client6 d' = c" "lease_file6 d' = Some (cfg6 c)"
    using step o again by (auto simp: obtain6_step_def Let_def)
  then show ?thesis using that [of sent] o again ok(1) by simp
qed

section \<open>Property\<close>

text \<open>
  C11. From the wire to the listeners: when the DHCPv6 client daemon has told netconfigd about a lease,
  its first prefix comes from a DHCPREPLY that arrived. After netconfigd has applied the lease file
  without error, the first address of that prefix is an address of \<open>lan0\<close>, and every daemon that then
  updates its listeners from the same file listens on that address.
\<close>

theorem prefix_served:
  assumes "pkg6_ok lib" "position6 d = Obtaining6" "step6 lib d (EvObtain6 env m wr) = (d', out)"
    and "Notify6 ''/user/netconfigd'' \<in> set out" "lease_file6 d' = Some got" "c6_Prefixes got = p # ps"
    and "netlink_ok nl" "applyDhcp6 nl (Decoded got) w = (w', Inr ())"
    and "\<forall>q \<in> set (p # ps). fst q \<noteq> [] \<and> nl_ParseAddr nl (IPNet_String (lan_address q)) = Inr (lan_address q)"
    and "decode file = Inr (map fst (c6_Prefixes got))"
  shows "(\<exists>reply ia. Message reply \<in> set (in_req6 env) \<and> msg_type reply = Reply \<and> ia \<in> set (msg_IAPD reply) \<and> p \<in> set (Prefixes ia)) \<and>
    (\<exists>l \<in> set (links w). l_name l = ''lan0'' \<and> (first_address (fst p), max 64 (snd p)) \<in> set (addrs w' (l_index l))) \<and>
    (\<forall>interfaces hosts pool. PrivateInterfaceAddrs interfaces = Inr hosts \<longrightarrow>
       (\<exists>pool'. updateListeners interfaces (IPv6Net1 (Inr file) decode) pool = Inr pool' \<and>
          IP_String (first_address (fst p)) \<in> dom (map_of (listeners pool'))))"
proof (intro conjI allI impI)
  obtain sent where o: "ObtainOrRenew6 lib env (client6 d) = (client6 d', sent, True)" "err6 (client6 d') = None"
    and got: "got = cfg6 (client6 d')"
    using notified_stored [OF assms(2-4)] assms(5) by auto
  obtain reply where "Message reply \<in> set (in_req6 env)" "msg_type reply = Reply"
    "p # ps = concat (map Prefixes (msg_IAPD reply))"
    using obtained_prefixes [OF assms(1) o] assms(6) got by metis
  then show "\<exists>reply ia. Message reply \<in> set (in_req6 env) \<and> msg_type reply = Reply \<and> ia \<in> set (msg_IAPD reply) \<and> p \<in> set (Prefixes ia)"
    using list.set_intros(1) [of p ps] by auto
next
  show "\<exists>l \<in> set (links w). l_name l = ''lan0'' \<and> (first_address (fst p), max 64 (snd p)) \<in> set (addrs w' (l_index l))"
    using delegated_prefixes [OF assms(7,8)] assms(6,9) by (force simp: first_address_def)
next
  fix interfaces hosts pool
  assume "PrivateInterfaceAddrs interfaces = Inr hosts"
  moreover have "IPv6Net1 (Inr file) decode = Inr (IP_String (first_address (fst p)))"
    by (rule IPv6Net1_first) (use assms(6,9,10) in auto)
  ultimately show "\<exists>pool'. updateListeners interfaces (IPv6Net1 (Inr file) decode) pool = Inr pool' \<and>
      IP_String (first_address (fst p)) \<in> dom (map_of (listeners pool'))"
    using listens_on_net1 by metis
qed

definition demo_daemon6 :: Daemon6 where
  "demo_daemon6 = \<lparr>client6 = demo_client6, position6 = Obtaining6, lease_file6 = None, boff6 = new_boff6\<rparr>"

lemma prefix_served_witness:
  "\<exists>d' out got w'. step6 plain_dhcp6 demo_daemon6 (EvObtain6 demo_env6 None None) = (d', out) \<and>
     lease_file6 d' = Some got \<and> applyDhcp6 plain_netlink (Decoded got) lan_world = (w', Inr ()) \<and>
     (\<exists>pool'. updateListeners (Inr []) (IPv6Net1 (Inr []) (\<lambda>_. Inr (map fst (c6_Prefixes got)))) NewPool = Inr pool' \<and>
        IP_String lan_ip \<in> dom (map_of (listeners pool')))"
proof -
  obtain c' sent where o: "ObtainOrRenew6 plain_dhcp6 demo_env6 demo_client6 = (c', sent, True)" "err6 c' = None"
    and prefixes: "c6_Prefixes (cfg6 c') = [(lan_ip[15 := 0], 48)]"
    by (simp add: ObtainOrRenew6_def solicit_def request6_def plain_dhcp6_def demo_env6_def demo_client6_def
        use_xid_def sendReceive_def expected_def demo_message6_def iapd_refused_def config_of_reply_def Let_def)
  define d' where "d' = demo_daemon6\<lparr>client6 := c', boff6 := Reset new_boff6, lease_file6 := Some (cfg6 c'), position6 := Selecting6\<rparr>"
  have step: "step6 plain_dhcp6 demo_daemon6 (EvObtain6 demo_env6 None None) =
      (d', map Sent6 sent @ [Notify6 ''/user/netconfigd'', Notify6 ''/user/radvd''])"
    using o by (simp add: demo_daemon6_def obtain6_step_def d'_def)
  have pkg: "pkg6_ok plain_dhcp6" by (simp add: pkg6_ok_def plain_dhcp6_def)
  have lan: "lan_address (lan_ip[15 := 0], 48) = (lan_ip, 64)" "lan_ip \<noteq> []"
    "lan_prefix (lan_ip[15 := 0], 48) = Inr (lan_ip, 64)"
    by (simp_all add: lan_address_def lan_prefix_def Let_def lan_ip_def)
  have parse: "nl_ParseAddr plain_netlink (IPNet_String (lan_ip, 64)) = Inr (lan_ip, 64)"
    using lan_ip_parse by (simp add: plain_netlink_def IPNet_String_def lan_ip_String)
  obtain l where l: "nl_LinkByName plain_netlink lan_world ''lan0'' = Inr l"
    by (simp add: plain_netlink_def lan_world_def)
  obtain w' where w': "applyDhcp6 plain_netlink (Decoded (cfg6 c')) lan_world = (w', Inr ())"
    using plain_perform [of "AddrReplace (l_index l) (lan_ip, 64)" lan_world] l
    by (auto simp: applyDhcp6_def prefixes bindIO_def query_def liftIO_def retIO_def lan(3) parse)
  have first: "first_address (lan_ip[15 := 0]) = lan_ip" by (simp add: first_address_def lan_ip_def)
  have saved: "lease_file6 d' = Some (cfg6 c')" by (simp add: d'_def)
  have served: "\<forall>interfaces hosts pool. PrivateInterfaceAddrs interfaces = Inr hosts \<longrightarrow>
      (\<exists>pool'. updateListeners interfaces (IPv6Net1 (Inr []) (\<lambda>_. Inr (map fst (c6_Prefixes (cfg6 c'))))) pool = Inr pool' \<and>
         IP_String (first_address (fst (lan_ip[15 := 0], 48 :: nat))) \<in> dom (map_of (listeners pool')))"
    by (rule conjunct2 [OF conjunct2 [OF prefix_served [OF pkg _ step _ saved prefixes netlink_ok_plain w']]])
      (simp_all add: demo_daemon6_def lan parse)
  have "PrivateInterfaceAddrs (Inr []) = Inr []" by (simp add: PrivateInterfaceAddrs_def interfaceAddrs_def)
  then have "\<exists>pool'. updateListeners (Inr []) (IPv6Net1 (Inr []) (\<lambda>_. Inr (map fst (c6_Prefixes (cfg6 c'))))) NewPool = Inr pool' \<and>
      IP_String lan_ip \<in> dom (map_of (listeners pool'))"
    using served first by simp
  then show ?thesis using step saved w' by blast
qed

end
