(* ===== verification/Captured.thy ===== *)
theory Captured
  imports NetText
begin

text \<open>
  \<open>cmd/captured\<close>: the packet filter (\<open>GENERATED_filterexpr.go\<close>, generated from the expression of
  \<open>filterexpr.go\<close>), the ring buffer of captured packets and their replay to SSH sessions
  (\<open>captured.go\<close>, \<open>ssh.go\<close>). The kernel runs the filter: how it does is a parameter, with the
  documented meaning of the instructions as its law. SSH and the pcap writer are parameters.
\<close>

unbundle bit_operations_syntax

section \<open>The filter program\<close>

record RawInstruction =
  Code :: nat
  Jt :: nat
  Jf :: nat
  K :: nat

definition raw :: "nat \<times> nat \<times> nat \<times> nat \<Rightarrow> RawInstruction" where
  "raw i = (case i of (c, t, f, k) \<Rightarrow> \<lparr>Code = c, Jt = t, Jf = f, K = k\<rparr>)"

definition instructions :: "RawInstruction list" where
  "instructions = map raw
     [(40, 0, 0, 12), (21, 0, 13, 34525), (48, 0, 0, 20), (21, 27, 0, 58), (21, 0, 2, 44),
      (48, 0, 0, 54), (21, 24, 25, 58), (21, 0, 24, 17), (40, 0, 0, 54), (21, 21, 0, 67),
      (21, 20, 0, 68), (21, 19, 0, 546), (21, 18, 0, 547), (40, 0, 0, 56), (21, 16, 13, 67),
      (21, 0, 16, 2048), (48, 0, 0, 23), (21, 0, 14, 17), (40, 0, 0, 20), (69, 12, 0, 8191),
      (177, 0, 0, 14), (72, 0, 0, 14), (21, 8, 0, 67), (21, 7, 0, 68), (21, 6, 0, 546),
      (21, 5, 0, 547), (72, 0, 0, 16), (21, 3, 0, 67), (21, 2, 0, 68), (21, 1, 0, 546),
      (21, 0, 1, 547), (6, 0, 0, 1500), (6, 0, 0, 0)]"

section \<open>What classic BPF instructions do\<close>

definition u8 :: "bytes \<Rightarrow> nat \<Rightarrow> nat option" where
  "u8 pkt i = (if i < length pkt then Some (unat (pkt ! i)) else None)"

definition u16 :: "bytes \<Rightarrow> nat \<Rightarrow> nat option" where
  "u16 pkt i = (if i + 1 < length pkt then Some (256 * unat (pkt ! i) + unat (pkt ! (i + 1))) else None)"

text \<open>
  The instructions that occur here: \<open>ldh [k]\<close>, \<open>ldb [k]\<close>, \<open>ldh [x + k]\<close>, \<open>ldxb 4*([k]&0xf)\<close>, \<open>jeq\<close>,
  \<open>jset\<close>, \<open>ret k\<close>. A load outside the packet rejects it, a jump is relative to the next instruction. The
  result is the number of bytes to keep; running off the program or an unknown code rejects.
\<close>

function bpf :: "RawInstruction list \<Rightarrow> nat \<Rightarrow> nat \<Rightarrow> nat \<Rightarrow> bytes \<Rightarrow> nat" where
  "bpf prog pc a x pkt =
     (if length prog \<le> pc then 0
      else
        let i = prog ! pc in
        if Code i = 40 then (case u16 pkt (K i) of None \<Rightarrow> 0 | Some v \<Rightarrow> bpf prog (pc + 1) v x pkt)
        else if Code i = 48 then (case u8 pkt (K i) of None \<Rightarrow> 0 | Some v \<Rightarrow> bpf prog (pc + 1) v x pkt)
        else if Code i = 72 then (case u16 pkt (x + K i) of None \<Rightarrow> 0 | Some v \<Rightarrow> bpf prog (pc + 1) v x pkt)
        else if Code i = 177 then
          (case u8 pkt (K i) of None \<Rightarrow> 0 | Some v \<Rightarrow> bpf prog (pc + 1) a (4 * (v mod 16)) pkt)
        else if Code i = 21 then
          (if a = K i then bpf prog (pc + 1 + Jt i) a x pkt else bpf prog (pc + 1 + Jf i) a x pkt)
        else if Code i = 69 then
          (if a AND K i \<noteq> 0 then bpf prog (pc + 1 + Jt i) a x pkt else bpf prog (pc + 1 + Jf i) a x pkt)
        else if Code i = 6 then K i
        else 0)"
  by pat_completeness auto
termination by (relation "measure (\<lambda>(prog, pc, a, x, pkt). length prog - pc)") auto

declare bpf.simps [simp del]

section \<open>The filter expression\<close>

text \<open>
  \<open>icmp6 or (udp and (port 67 or port 68 or port 546 or port 547))\<close> on an Ethernet frame, as
  pcap-filter documents it: an IPv6 header without options or a fragment header, an IPv4 header of
  the length it states and only a first fragment.
\<close>

definition wanted_port :: "nat \<Rightarrow> bool" where
  "wanted_port p \<longleftrightarrow> p = 67 \<or> p = 68 \<or> p = 546 \<or> p = 547"

definition wanted_ports :: "bytes \<Rightarrow> nat \<Rightarrow> bool" where
  "wanted_ports pkt off \<longleftrightarrow>
     (case u16 pkt off of
        None \<Rightarrow> False
      | Some p \<Rightarrow> wanted_port p \<or> (case u16 pkt (off + 2) of None \<Rightarrow> False | Some q \<Rightarrow> wanted_port q))"

definition icmp6 :: "bytes \<Rightarrow> bool" where
  "icmp6 pkt \<longleftrightarrow>
     u16 pkt 12 = Some 0x86dd \<and> (u8 pkt 20 = Some 58 \<or> u8 pkt 20 = Some 44 \<and> u8 pkt 54 = Some 58)"

definition dhcp_over_v6 :: "bytes \<Rightarrow> bool" where
  "dhcp_over_v6 pkt \<longleftrightarrow> u16 pkt 12 = Some 0x86dd \<and> u8 pkt 20 = Some 17 \<and> wanted_ports pkt 54"

definition dhcp_over_v4 :: "bytes \<Rightarrow> bool" where
  "dhcp_over_v4 pkt \<longleftrightarrow>
     u16 pkt 12 = Some 0x800 \<and> u8 pkt 23 = Some 17 \<and>
     (case u16 pkt 20 of None \<Rightarrow> False | Some f \<Rightarrow> f mod 8192 = 0) \<and>
     (case u8 pkt 14 of None \<Rightarrow> False | Some h \<Rightarrow> wanted_ports pkt (14 + 4 * (h mod 16)))"

definition filter_expression :: "bytes \<Rightarrow> bool" where
  "filter_expression pkt \<longleftrightarrow> icmp6 pkt \<or> dhcp_over_v6 pkt \<or> dhcp_over_v4 pkt"

section \<open>The program computes the expression\<close>

lemma and_8191: "(f :: nat) AND 8191 = f mod 8192"
proof -
  have "(8191 :: nat) = mask 13" by (simp add: mask_eq_exp_minus_1)
  then have "f AND 8191 = take_bit 13 f" by (simp only: take_bit_eq_mask)
  then show ?thesis by (simp add: take_bit_eq_mod)
qed

text \<open>What each instruction of the program leads to.\<close>

abbreviation at_pc :: "nat \<Rightarrow> nat \<Rightarrow> nat \<Rightarrow> bytes \<Rightarrow> nat" where
  "at_pc \<equiv> bpf instructions"

lemma at_pc_step:
  assumes "instructions ! n = \<lparr>Code = c, Jt = t, Jf = f, K = k\<rparr>" "n < length instructions"
  shows "at_pc n a x pkt =
     (if c = 40 then (case u16 pkt k of None \<Rightarrow> 0 | Some v \<Rightarrow> at_pc (n + 1) v x pkt)
      else if c = 48 then (case u8 pkt k of None \<Rightarrow> 0 | Some v \<Rightarrow> at_pc (n + 1) v x pkt)
      else if c = 72 then (case u16 pkt (x + k) of None \<Rightarrow> 0 | Some v \<Rightarrow> at_pc (n + 1) v x pkt)
      else if c = 177 then (case u8 pkt k of None \<Rightarrow> 0 | Some v \<Rightarrow> at_pc (n + 1) a (4 * (v mod 16)) pkt)
      else if c = 21 then (if a = k then at_pc (n + 1 + t) a x pkt else at_pc (n + 1 + f) a x pkt)
      else if c = 69 then (if a AND k \<noteq> 0 then at_pc (n + 1 + t) a x pkt else at_pc (n + 1 + f) a x pkt)
      else if c = 6 then k
      else 0)"
  using assms by (simp add: bpf.simps [of instructions n a x pkt] Let_def)

lemma length_instructions: "length instructions = 33"
  by (simp add: instructions_def)

lemma nth_instructions:
  "instructions ! 0 = \<lparr>Code = 40, Jt = 0, Jf = 0, K = 12\<rparr>"
  "instructions ! 1 = \<lparr>Code = 21, Jt = 0, Jf = 13, K = 34525\<rparr>"
  "instructions ! 2 = \<lparr>Code = 48, Jt = 0, Jf = 0, K = 20\<rparr>"
  "instructions ! 3 = \<lparr>Code = 21, Jt = 27, Jf = 0, K = 58\<rparr>"
  "instructions ! 4 = \<lparr>Code = 21, Jt = 0, Jf = 2, K = 44\<rparr>"
  "instructions ! 5 = \<lparr>Code = 48, Jt = 0, Jf = 0, K = 54\<rparr>"
  "instructions ! 6 = \<lparr>Code = 21, Jt = 24, Jf = 25, K = 58\<rparr>"
  "instructions ! 7 = \<lparr>Code = 21, Jt = 0, Jf = 24, K = 17\<rparr>"
  "instructions ! 8 = \<lparr>Code = 40, Jt = 0, Jf = 0, K = 54\<rparr>"
  "instructions ! 9 = \<lparr>Code = 21, Jt = 21, Jf = 0, K = 67\<rparr>"
  "instructions ! 10 = \<lparr>Code = 21, Jt = 20, Jf = 0, K = 68\<rparr>"
  "instructions ! 11 = \<lparr>Code = 21, Jt = 19, Jf = 0, K = 546\<rparr>"
  "instructions ! 12 = \<lparr>Code = 21, Jt = 18, Jf = 0, K = 547\<rparr>"
  "instructions ! 13 = \<lparr>Code = 40, Jt = 0, Jf = 0, K = 56\<rparr>"
  "instructions ! 14 = \<lparr>Code = 21, Jt = 16, Jf = 13, K = 67\<rparr>"
  "instructions ! 15 = \<lparr>Code = 21, Jt = 0, Jf = 16, K = 2048\<rparr>"
  "instructions ! 16 = \<lparr>Code = 48, Jt = 0, Jf = 0, K = 23\<rparr>"
  "instructions ! 17 = \<lparr>Code = 21, Jt = 0, Jf = 14, K = 17\<rparr>"
  "instructions ! 18 = \<lparr>Code = 40, Jt = 0, Jf = 0, K = 20\<rparr>"
  "instructions ! 19 = \<lparr>Code = 69, Jt = 12, Jf = 0, K = 8191\<rparr>"
  "instructions ! 20 = \<lparr>Code = 177, Jt = 0, Jf = 0, K = 14\<rparr>"
  "instructions ! 21 = \<lparr>Code = 72, Jt = 0, Jf = 0, K = 14\<rparr>"
  "instructions ! 22 = \<lparr>Code = 21, Jt = 8, Jf = 0, K = 67\<rparr>"
  "instructions ! 23 = \<lparr>Code = 21, Jt = 7, Jf = 0, K = 68\<rparr>"
  "instructions ! 24 = \<lparr>Code = 21, Jt = 6, Jf = 0, K = 546\<rparr>"
  "instructions ! 25 = \<lparr>Code = 21, Jt = 5, Jf = 0, K = 547\<rparr>"
  "instructions ! 26 = \<lparr>Code = 72, Jt = 0, Jf = 0, K = 16\<rparr>"
  "instructions ! 27 = \<lparr>Code = 21, Jt = 3, Jf = 0, K = 67\<rparr>"
  "instructions ! 28 = \<lparr>Code = 21, Jt = 2, Jf = 0, K = 68\<rparr>"
  "instructions ! 29 = \<lparr>Code = 21, Jt = 1, Jf = 0, K = 546\<rparr>"
  "instructions ! 30 = \<lparr>Code = 21, Jt = 0, Jf = 1, K = 547\<rparr>"
  "instructions ! 31 = \<lparr>Code = 6, Jt = 0, Jf = 0, K = 1500\<rparr>"
  "instructions ! 32 = \<lparr>Code = 6, Jt = 0, Jf = 0, K = 0\<rparr>"
  by (simp_all add: instructions_def raw_def)

lemmas program_steps = nth_instructions [THEN at_pc_step, unfolded length_instructions, simplified]

text \<open>The blocks of the program, from its end: the second port, the two ports, the two families.\<close>

lemma second_port_v4:
  "at_pc 27 a x pkt = (if wanted_port a then 1500 else 0)"
  "at_pc 28 a x pkt = (if a = 68 \<or> a = 546 \<or> a = 547 then 1500 else 0)"
  by (simp_all add: program_steps wanted_port_def)

lemma ports_v4:
  "at_pc 21 a x pkt = (if wanted_ports pkt (14 + x) then 1500 else 0)"
proof (cases "u16 pkt (14 + x)")
  case (Some p)
  have "at_pc 26 p x pkt = (case u16 pkt (14 + x + 2) of None \<Rightarrow> 0 | Some q \<Rightarrow> if wanted_port q then 1500 else 0)"
    using program_steps(27) [of p x pkt] by (simp add: second_port_v4 add.commute split: option.split)
  then show ?thesis
    using Some by (auto simp: program_steps(22-26,32) wanted_ports_def wanted_port_def add.commute split: option.splits)
qed (simp add: program_steps(22) wanted_ports_def add.commute)

lemma ports_v6:
  "at_pc 8 a x pkt = (if wanted_ports pkt 54 then 1500 else 0)"
proof (cases "u16 pkt 54")
  case (Some p)
  have "at_pc 13 p x pkt = (case u16 pkt 56 of None \<Rightarrow> 0 | Some q \<Rightarrow> if wanted_port q then 1500 else 0)"
    by (simp add: program_steps(14,15,32) second_port_v4(2) wanted_port_def split: option.split)
  then show ?thesis
    using Some by (auto simp: program_steps(9-13,32) wanted_ports_def wanted_port_def split: option.splits)
qed (simp add: program_steps(9) wanted_ports_def)

lemma family_v6:
  "at_pc 2 a x pkt =
     (if u8 pkt 20 = Some 58 \<or> u8 pkt 20 = Some 44 \<and> u8 pkt 54 = Some 58 \<or>
         u8 pkt 20 = Some 17 \<and> wanted_ports pkt 54 then 1500 else 0)"
  by (cases "u8 pkt 20"; cases "u8 pkt 54") (auto simp: program_steps(3-8,32,33) ports_v6)

lemma family_v4:
  "at_pc 16 a x pkt =
     (if u8 pkt 23 = Some 17 \<and> (case u16 pkt 20 of None \<Rightarrow> False | Some f \<Rightarrow> f mod 8192 = 0) \<and>
         (case u8 pkt 14 of None \<Rightarrow> False | Some h \<Rightarrow> wanted_ports pkt (14 + 4 * (h mod 16))) then 1500 else 0)"
  by (cases "u8 pkt 23"; cases "u16 pkt 20"; cases "u8 pkt 14")
    (auto simp: program_steps(17-21,33) ports_v4 and_8191)

lemma bpf_program: "bpf instructions 0 0 0 pkt = (if filter_expression pkt then 1500 else 0)"
proof -
  have "bpf instructions 0 0 0 pkt = (case u16 pkt 12 of None \<Rightarrow> 0 | Some t \<Rightarrow>
      if t = 34525 then at_pc 2 t 0 pkt else if t = 2048 then at_pc 16 t 0 pkt else 0)"
    by (simp add: program_steps(1,2,16,33) flip: numeral_2_eq_2 split: option.split)
  also have "\<dots> = (if filter_expression pkt then 1500 else 0)"
    by (simp add: family_v4 family_v6 filter_expression_def icmp6_def dhcp_over_v6_def dhcp_over_v4_def
        split: option.split)
  finally show ?thesis .
qed

section \<open>captured.go: the ring buffer\<close>

text \<open>
  \<open>container/ring\<close>: the elements from the current one on; \<open>None\<close> is an element whose value is nil. A
  ring of size 0 or less is nil.
\<close>

type_synonym 'p ring = "'p option list"

definition newPacketRingBuffer :: "int \<Rightarrow> 'p ring" where
  "newPacketRingBuffer n = replicate (nat n) None"

definition writePacket :: "'p \<Rightarrow> 'p ring \<Rightarrow> 'p ring result" where
  "writePacket p r = (case r of [] \<Rightarrow> Inl (Panic ''nil pointer dereference'') | _ # rest \<Rightarrow> Inr (rest @ [Some p]))"

fun packetsLocked :: "'p ring \<Rightarrow> 'p list" where
  "packetsLocked [] = []"
| "packetsLocked (x # r) = (case x of None \<Rightarrow> packetsLocked r | Some p \<Rightarrow> p # packetsLocked r)"

text \<open>The loop of \<open>logic\<close> over the captured packets.\<close>

fun writePackets :: "'p list \<Rightarrow> 'p ring \<Rightarrow> 'p ring result" where
  "writePackets [] r = Inr r"
| "writePackets (p # ps) r = bindR (writePacket p r) (writePackets ps)"

definition logic_ring :: "'p list \<Rightarrow> 'p ring result" where
  "logic_ring captured = writePackets captured (newPacketRingBuffer 50000)"

section \<open>captured.go: capturePackets\<close>

fun capture_loop ::
    "(string \<Rightarrow> unit result) \<Rightarrow> (string \<Rightarrow> RawInstruction list \<Rightarrow> unit result) \<Rightarrow> string list \<Rightarrow> string list result" where
  "capture_loop open_handle setBPF [] = Inr []"
| "capture_loop open_handle setBPF (ifname # names) =
     bindR (wrapR (''pcapgo.NewEthernetHandle('' @ ifname @ '')'') (open_handle ifname)) (\<lambda>_.
     bindR (wrapR ''SetBPF'' (setBPF ifname instructions)) (\<lambda>_.
     bindR (capture_loop open_handle setBPF names) (\<lambda>rest. Inr (ifname # rest))))"

definition capturePackets ::
    "(string \<Rightarrow> unit result) \<Rightarrow> (string \<Rightarrow> RawInstruction list \<Rightarrow> unit result) \<Rightarrow> string list result" where
  "capturePackets open_handle setBPF = capture_loop open_handle setBPF [''uplink0'', ''lan0'']"

section \<open>ssh.go: sessions\<close>

datatype 'p session_out = FileHeader nat | ReplyTrue | PcapPacket 'p | ReplyFalse string | CloseChannel

record 'p session_env =
  header_err :: "string option"
  capture :: "string list result"
  live :: "'p list"
  pcap_err :: "nat \<Rightarrow> string option"

fun fault_text :: "fault \<Rightarrow> string" where
  "fault_text (Panic s) = s" | "fault_text (Err s) = s"

text \<open>\<open>pcap_err i\<close> is the error of the \<open>i\<close>th write, if any.\<close>

fun pcap_packets :: "(nat \<Rightarrow> string option) \<Rightarrow> nat \<Rightarrow> 'p list \<Rightarrow> 'p session_out list \<times> string option" where
  "pcap_packets err i [] = ([], None)"
| "pcap_packets err i (p # ps) =
     (case err i of
        Some e \<Rightarrow> ([], Some (''pcap.WritePacket(): '' @ e))
      | None \<Rightarrow> (case pcap_packets err (i + 1) ps of (out, e) \<Rightarrow> (PcapPacket p # out, e)))"

text \<open>
  \<open>%q\<close>: \<open>strconv.Quote\<close>, where every byte from 128 on is written as an escape (the code does so for
  bytes that are not valid UTF-8).
\<close>

definition quote_char :: "char \<Rightarrow> string" where
  "quote_char c =
     (let n = of_char c :: nat in
      if n = 34 \<or> n = 92 then [char_of (92 :: nat), c]
      else if 32 \<le> n \<and> n < 127 then [c]
      else char_of (92 :: nat) #
        (case List.find (\<lambda>(k, _). k = n)
              [(7 :: nat, CHR ''a''), (8, CHR ''b''), (12, CHR ''f''), (10, CHR ''n''), (13, CHR ''r''),
               (9, CHR ''t''), (11, CHR ''v'')] of
           Some (_, l) \<Rightarrow> [l]
         | None \<Rightarrow> CHR ''x'' # hex2 (of_nat n)))"

definition Quote :: "string \<Rightarrow> string" where
  "Quote s = char_of (34 :: nat) # concat (map quote_char s) @ [char_of (34 :: nat)]"

definition session_request ::
    "string \<Rightarrow> bytes \<Rightarrow> 'p session_env \<Rightarrow> 'p ring \<Rightarrow> 'p session_out list \<times> string option" where
  "session_request type payload env prb =
     (if type = ''exec'' then
        if length payload < 4 then
          ([], Some (''exec request payload too short: got '' @ itoa (length payload) @ '', want >= 4''))
        else (case header_err env of
          Some e \<Rightarrow> ([], Some (''pcapw.WriteFileHeader: '' @ e))
        | None \<Rightarrow> (case capture env of
            Inl e \<Rightarrow> ([FileHeader 1600], Some (''capturePackets: '' @ fault_text e))
          | Inr _ \<Rightarrow>
              let buffered = packetsLocked prb in
              (case pcap_packets (pcap_err env) 0 buffered of
                 (out, Some e) \<Rightarrow> (FileHeader 1600 # ReplyTrue # out, Some e)
               | (out, None) \<Rightarrow>
                   (case pcap_packets (pcap_err env) (length buffered) (live env) of
                      (out', e) \<Rightarrow> (FileHeader 1600 # ReplyTrue # out @ out', e)))))
      else ([], Some (''unknown request type: '' @ Quote type)))"

text \<open>The loop of \<open>handleChannel\<close> over the requests, each with its environment and ring.\<close>

definition error_line :: "string \<Rightarrow> string result" where
  "error_line e =
     (if e = [] then Inl (Panic ''index out of range'')
      else if e ! (length e - 1) \<noteq> char_of (10 :: nat) then Inr (e @ [char_of (10 :: nat)]) else Inr e)"

fun handle_requests :: "(string \<times> bytes \<times> 'p session_env \<times> 'p ring) list \<Rightarrow> 'p session_out list result" where
  "handle_requests [] = Inr []"
| "handle_requests ((type, payload, env, prb) # reqs) =
     (case session_request type payload env prb of
        (out, None) \<Rightarrow> bindR (handle_requests reqs) (\<lambda>rest. Inr (out @ rest))
      | (out, Some e) \<Rightarrow>
          bindR (error_line e) (\<lambda>msg.
          bindR (handle_requests reqs) (\<lambda>rest. Inr (out @ [ReplyFalse msg, CloseChannel] @ rest))))"

section \<open>Properties\<close>

definition classic_bpf :: "(RawInstruction list \<Rightarrow> bytes \<Rightarrow> nat) \<Rightarrow> bool" where
  "classic_bpf vm \<longleftrightarrow> (\<forall>prog pkt. vm prog pkt = bpf prog 0 0 0 pkt)"

text \<open>
  C12. The generated filter program is the filter expression: a kernel that executes classic BPF keeps
  the first 1500 bytes of exactly the frames that are ICMPv6 or DHCP over IPv6 or IPv4, and rejects
  every other frame, truncated ones included.
\<close>

theorem filter_is_expression:
  assumes "classic_bpf vm"
  shows "vm instructions pkt = (if filter_expression pkt then 1500 else 0)"
  using assms bpf_program by (simp add: classic_bpf_def)

text \<open>An IPv6 frame whose next header is ICMPv6, cut off after that byte.\<close>

definition icmp6_frame :: bytes where
  "icmp6_frame = [0, 0, 0, 0, 0, 0, 0, 0, 0, 0, 0, 0, 0x86, 0xdd, 0, 0, 0, 0, 0, 0, 58]"

lemma filter_is_expression_witness: "bpf instructions 0 0 0 icmp6_frame = 1500"
proof -
  have "filter_expression icmp6_frame"
    by (simp add: filter_expression_def icmp6_def u16_def u8_def icmp6_frame_def)
  moreover have "classic_bpf (\<lambda>prog. bpf prog 0 0 0)" by (simp add: classic_bpf_def)
  ultimately show ?thesis
    using filter_is_expression [of "\<lambda>prog. bpf prog 0 0 0" icmp6_frame] by (simp only: if_True)
qed

lemma packetsLocked_append: "packetsLocked (r @ r') = packetsLocked r @ packetsLocked r'"
  by (induction r) (auto split: option.split)

lemma packetsLocked_map: "packetsLocked (replicate k None @ map Some ps) = ps"
proof -
  have "packetsLocked (replicate k None) = []" by (induction k) auto
  moreover have "packetsLocked (map Some ps) = ps" by (induction ps) auto
  ultimately show ?thesis by (simp add: packetsLocked_append)
qed

text \<open>The ring after writing \<open>ps\<close>: the empty elements that are left, then the newest packets.\<close>

definition ring_of :: "nat \<Rightarrow> 'p list \<Rightarrow> 'p ring" where
  "ring_of n ps = replicate (n - length ps) None @ map Some (drop (length ps - n) ps)"

lemma writePacket_ring: "0 < n \<Longrightarrow> writePacket p (ring_of n ps) = Inr (ring_of n (ps @ [p]))"
proof (cases "length ps < n")
  case True
  then obtain k where "n - length ps = Suc k" by (metis Suc_diff_Suc)
  then show ?thesis using True by (simp add: ring_of_def writePacket_def)
next
  case False
  assume "0 < n"
  then obtain x xs where x: "drop (length ps - n) ps = x # xs"
    using False by (cases "drop (length ps - n) ps") auto
  moreover have "drop (Suc (length ps) - n) ps = xs"
  proof -
    have "Suc (length ps) - n = Suc (length ps - n)" using False by simp
    then have "drop (Suc (length ps) - n) ps = tl (drop (length ps - n) ps)" by (simp add: drop_Suc drop_tl)
    then show ?thesis using x by simp
  qed
  ultimately show ?thesis using False \<open>0 < n\<close> by (simp add: ring_of_def writePacket_def)
qed

lemma writePackets_ring: "0 < n \<Longrightarrow> writePackets qs (ring_of n ps) = Inr (ring_of n (ps @ qs))"
  by (induction qs arbitrary: ps) (simp_all add: writePacket_ring)

lemma logic_ring: "logic_ring ps = Inr (ring_of 50000 ps)"
proof -
  have "newPacketRingBuffer 50000 = ring_of 50000 ([] :: 'a list)" by (simp add: newPacketRingBuffer_def ring_of_def)
  then show ?thesis using writePackets_ring [of 50000 ps "[]"] by (simp add: logic_ring_def)
qed

lemma pcap_packets_ok: "\<forall>j \<ge> i. err j = None \<Longrightarrow> pcap_packets err i ps = (map PcapPacket ps, None)"
  by (induction ps arbitrary: i) simp_all

text \<open>
  A session replays the capture: once \<open>captured\<close> packets have been recorded, an exec request whose
  writes succeed gets the pcap header, the last 50000 of them (or all, if they are fewer) in the
  order of their arrival, and then the packets that arrive during the session.
\<close>

lemma session_replays:
  assumes "logic_ring captured = Inr prb" "4 \<le> length payload" "header_err env = None" "capture env = Inr h"
    and "\<forall>i. pcap_err env i = None"
  shows "session_request ''exec'' payload env prb =
    (FileHeader 1600 # ReplyTrue # map PcapPacket (drop (length captured - 50000) captured @ live env), None)"
proof -
  have "prb = ring_of 50000 captured" using assms(1) by (simp add: logic_ring)
  then have "packetsLocked prb = drop (length captured - 50000) captured"
    by (simp add: ring_of_def packetsLocked_map)
  then show ?thesis
    using assms(2-5) by (simp add: session_request_def pcap_packets_ok)
qed

end
