(* ===== verification/CapturedDaemon.thy ===== *)
theory CapturedDaemon
  imports Captured Multilisten
begin

text \<open>
  \<open>cmd/captured\<close> as a whole: the SSH server of \<open>ssh.go\<close> and the loop of \<open>captured.go\<close>. A capture is a
  pair of packet sockets, each with a goroutine: frames that pass the filter wait in its queue until
  the reader of the channel takes the next one of an interface. The daemon has one capture that feeds
  the ring, and every session that streams has one of its own.
\<close>

section \<open>Captures\<close>

type_synonym packet = "string \<times> bytes"

record capture_state =
  cap_open :: "string list"
  cap_queue :: "packet list"

definition opened :: "string list \<Rightarrow> capture_state" where
  "opened names = \<lparr>cap_open = names, cap_queue = []\<rparr>"

text \<open>The kernel runs the filter and keeps as many bytes as it says.\<close>

definition arrive :: "(RawInstruction list \<Rightarrow> bytes \<Rightarrow> nat) \<Rightarrow> string \<Rightarrow> bytes \<Rightarrow> capture_state \<Rightarrow> capture_state" where
  "arrive vm ifname frame cap =
     (let n = vm instructions frame in
      if ifname \<in> set (cap_open cap) \<and> n \<noteq> 0
      then cap\<lparr>cap_queue := cap_queue cap @ [(ifname, take n frame)]\<rparr> else cap)"

text \<open>The goroutine of an interface sends its next packet, or ends with an error.\<close>

definition deliver :: "string \<Rightarrow> capture_state \<Rightarrow> (packet \<times> capture_state) option" where
  "deliver ifname cap =
     (case List.find (\<lambda>p. fst p = ifname) (cap_queue cap) of
        None \<Rightarrow> None
      | Some p \<Rightarrow> Some (p, cap\<lparr>cap_queue := remove1 p (cap_queue cap)\<rparr>))"

definition next_err :: "string \<Rightarrow> capture_state \<Rightarrow> capture_state" where
  "next_err ifname cap =
     cap\<lparr>cap_open := removeAll ifname (cap_open cap), cap_queue := filter (\<lambda>p. fst p \<noteq> ifname) (cap_queue cap)\<rparr>"

section \<open>The SSH server\<close>

definition loadHostKey :: "bytes result \<Rightarrow> (bytes \<Rightarrow> 'k result) \<Rightarrow> 'k result" where
  "loadHostKey readFile parsePrivateKey = bindR readFile parsePrivateKey"

record 'k server =
  hostKeys :: "'k list"

definition PublicKeyCallback :: "bytes \<Rightarrow> unit result" where
  "PublicKeyCallback pubKey = Inr ()"

definition newServer :: "bytes result \<Rightarrow> (bytes \<Rightarrow> 'k result) \<Rightarrow> 'k server result" where
  "newServer readFile parsePrivateKey =
     bindR (loadHostKey readFile parsePrivateKey) (\<lambda>signer. Inr \<lparr>hostKeys = [signer]\<rparr>)"

text \<open>A listener has a socket once \<open>net.Listen\<close> has returned; closing it before dereferences nil.\<close>

record serverListener =
  sl_host :: string
  sl_ln :: bool

definition listenerFor :: "string \<Rightarrow> serverListener" where
  "listenerFor host = \<lparr>sl_host = host, sl_ln = False\<rparr>"

definition listen_address :: "serverListener \<Rightarrow> string" where
  "listen_address sl = JoinHostPort (sl_host sl) ''5022''"

definition serverListener_Close :: "serverListener \<Rightarrow> unit result" where
  "serverListener_Close sl = (if sl_ln sl then Inr () else Inl (Panic ''nil pointer dereference''))"

fun close_listeners :: "serverListener list \<Rightarrow> unit result" where
  "close_listeners [] = Inr ()"
| "close_listeners (sl # sls) = bindR (serverListener_Close sl) (\<lambda>_. close_listeners sls)"

text \<open>The listeners by number: \<open>ListenAndServe\<close> of the pool numbers them in the order of creation.\<close>

definition updateListeners_captured ::
    "NetIface list result \<Rightarrow> Pool \<Rightarrow> serverListener list \<Rightarrow> (Pool \<times> serverListener list) result" where
  "updateListeners_captured interfaces p sls =
     bindR (PrivateInterfaceAddrs interfaces) (\<lambda>hosts.
       let p' = ListenAndServe p hosts;
           sls' = sls @ map (\<lambda>(host, _). listenerFor host) (drop (length (serving p)) (serving p'))
       in bindR (close_listeners (map (\<lambda>i. sls' ! i) (drop (length (closed p)) (closed p')))) (\<lambda>_. Inr (p', sls')))"

datatype channel_outcome = RejectChannel string | AcceptFailed | Accepted

definition handleChannel :: "string \<Rightarrow> unit result \<Rightarrow> channel_outcome" where
  "handleChannel channelType acceptResult =
     (if channelType \<noteq> ''session'' then RejectChannel (''unknown channel type: '' @ Quote channelType)
      else case acceptResult of Inl _ \<Rightarrow> AcceptFailed | Inr _ \<Rightarrow> Accepted)"

section \<open>The daemon\<close>

record session =
  ss_out :: "packet session_out list"
  ss_capture :: "capture_state option"

record Captured =
  cd_pool :: Pool
  cd_listeners :: "serverListener list"
  cd_ring :: "packet ring"
  cd_main :: capture_state
  cd_sessions :: "session list"
  cd_result :: "fault option"

record 'k captured_env =
  ce_readFile :: "bytes result"
  ce_parsePrivateKey :: "bytes \<Rightarrow> 'k result"
  ce_interfaces :: "NetIface list result"
  ce_open_handle :: "string \<Rightarrow> unit result"
  ce_setBPF :: "string \<Rightarrow> RawInstruction list \<Rightarrow> unit result"

definition start_captured :: "'k captured_env \<Rightarrow> Captured result" where
  "start_captured e =
     bindR (newServer (ce_readFile e) (ce_parsePrivateKey e)) (\<lambda>srv.
     bindR (updateListeners_captured (ce_interfaces e) NewPool []) (\<lambda>(p, sls).
     bindR (capturePackets (ce_open_handle e) (ce_setBPF e)) (\<lambda>names.
     Inr \<lparr>cd_pool = p, cd_listeners = sls, cd_ring = newPacketRingBuffer 50000, cd_main = opened names,
          cd_sessions = [], cd_result = None\<rparr>)))"

text \<open>
  \<open>CvListen\<close> and \<open>CvAcceptErr\<close>: the goroutine at that position of \<open>serving\<close>. \<open>CvNextErr None\<close> is the
  main capture.
\<close>

datatype cap_event =
  CvArrive string bytes
| CvRecord string
| CvNextErr "nat option" string
| CvUsr1 "NetIface list result"
| CvListen nat "unit result"
| CvAcceptErr nat
| CvChannel "unit result" string "unit result"
| CvRequest nat string bytes "string option" "string \<Rightarrow> unit result"
    "string \<Rightarrow> RawInstruction list \<Rightarrow> unit result" "nat \<Rightarrow> string option"
| CvStream nat string "string option"

definition on_session :: "nat \<Rightarrow> (session \<Rightarrow> session result) \<Rightarrow> Captured \<Rightarrow> Captured" where
  "on_session sid f s =
     (if sid < length (cd_sessions s) then
        (case f (cd_sessions s ! sid) of
           Inl x \<Rightarrow> s\<lparr>cd_result := Some x\<rparr>
         | Inr ss \<Rightarrow> s\<lparr>cd_sessions := (cd_sessions s)[sid := ss]\<rparr>)
      else s)"

text \<open>An error ends the request: the capture is cancelled, the client gets the message.\<close>

definition fail_request :: "string \<Rightarrow> packet session_out list \<Rightarrow> session \<Rightarrow> session result" where
  "fail_request e out ss =
     bindR (error_line e) (\<lambda>msg.
       Inr (ss\<lparr>ss_out := ss_out ss @ out @ [ReplyFalse msg, CloseChannel], ss_capture := None\<rparr>))"

text \<open>While a request streams, the loop over the requests of its channel does not go on.\<close>

definition start_request ::
    "string \<Rightarrow> bytes \<Rightarrow> packet session_env \<Rightarrow> packet ring \<Rightarrow> session \<Rightarrow> session result" where
  "start_request type payload env prb ss =
     (case ss_capture ss of
        Some _ \<Rightarrow> Inr ss
      | None \<Rightarrow>
          (case session_request type payload env prb of
             (out, Some e) \<Rightarrow> fail_request e out ss
           | (out, None) \<Rightarrow>
               Inr (ss\<lparr>ss_out := ss_out ss @ out,
                  ss_capture := (case capture env of Inl _ \<Rightarrow> None | Inr names \<Rightarrow> Some (opened names))\<rparr>)))"

definition stream_packet :: "string \<Rightarrow> string option \<Rightarrow> session \<Rightarrow> session result" where
  "stream_packet ifname err ss =
     (case ss_capture ss of
        None \<Rightarrow> Inr ss
      | Some cap \<Rightarrow>
          (case deliver ifname cap of
             None \<Rightarrow> Inr ss
           | Some (p, cap') \<Rightarrow>
               (case pcap_packets (\<lambda>_. err) 0 [p] of
                  (out, Some e) \<Rightarrow> fail_request e out ss
                | (out, None) \<Rightarrow> Inr (ss\<lparr>ss_out := ss_out ss @ out, ss_capture := Some cap'\<rparr>))))"

definition record_packet :: "string \<Rightarrow> Captured \<Rightarrow> Captured" where
  "record_packet ifname s =
     (case deliver ifname (cd_main s) of
        None \<Rightarrow> s
      | Some (p, cap) \<Rightarrow>
          (case writePacket p (cd_ring s) of
             Inl f \<Rightarrow> s\<lparr>cd_result := Some f\<rparr>
           | Inr r \<Rightarrow> s\<lparr>cd_ring := r, cd_main := cap\<rparr>))"

text \<open>A connection: its handshake, and a channel that it opens.\<close>

definition open_channel :: "unit result \<Rightarrow> string \<Rightarrow> unit result \<Rightarrow> Captured \<Rightarrow> Captured" where
  "open_channel handshake channelType acceptResult s =
     (case handshake of
        Inl _ \<Rightarrow> s
      | Inr _ \<Rightarrow>
          (case handleChannel channelType acceptResult of
             Accepted \<Rightarrow> s\<lparr>cd_sessions := cd_sessions s @ [\<lparr>ss_out = [], ss_capture = None\<rparr>]\<rparr>
           | _ \<Rightarrow> s))"

definition serve_listener :: "nat \<Rightarrow> unit result \<Rightarrow> Captured \<Rightarrow> Captured" where
  "serve_listener i r s =
     (if i < length (serving (cd_pool s)) then
        (case r of
           Inl _ \<Rightarrow> s\<lparr>cd_pool := goroutine_ends (cd_pool s) i\<rparr>
         | Inr _ \<Rightarrow>
             let n = snd (serving (cd_pool s) ! i) in
             s\<lparr>cd_listeners := (cd_listeners s)[n := (cd_listeners s ! n)\<lparr>sl_ln := True\<rparr>]\<rparr>)
      else s)"

definition map_capture :: "(capture_state \<Rightarrow> capture_state) \<Rightarrow> session \<Rightarrow> session" where
  "map_capture f ss = ss\<lparr>ss_capture := map_option f (ss_capture ss)\<rparr>"

fun cap_live :: "(RawInstruction list \<Rightarrow> bytes \<Rightarrow> nat) \<Rightarrow> Captured \<Rightarrow> cap_event \<Rightarrow> Captured" where
  "cap_live vm s (CvArrive ifname frame) =
     s\<lparr>cd_main := arrive vm ifname frame (cd_main s),
       cd_sessions := map (map_capture (arrive vm ifname frame)) (cd_sessions s)\<rparr>"
| "cap_live vm s (CvRecord ifname) = record_packet ifname s"
| "cap_live vm s (CvNextErr None ifname) = s\<lparr>cd_main := next_err ifname (cd_main s)\<rparr>"
| "cap_live vm s (CvNextErr (Some sid) ifname) = on_session sid (\<lambda>ss. Inr (map_capture (next_err ifname) ss)) s"
| "cap_live vm s (CvUsr1 interfaces) =
     (case updateListeners_captured interfaces (cd_pool s) (cd_listeners s) of
        Inl (Panic x) \<Rightarrow> s\<lparr>cd_result := Some (Panic x)\<rparr>
      | Inl (Err _) \<Rightarrow> s
      | Inr (p, sls) \<Rightarrow> s\<lparr>cd_pool := p, cd_listeners := sls\<rparr>)"
| "cap_live vm s (CvListen i r) = serve_listener i r s"
| "cap_live vm s (CvAcceptErr i) = s\<lparr>cd_pool := goroutine_ends (cd_pool s) i\<rparr>"
| "cap_live vm s (CvChannel handshake channelType acceptResult) = open_channel handshake channelType acceptResult s"
| "cap_live vm s (CvRequest sid type payload header open_handle setBPF pcap) =
     on_session sid
       (start_request type payload
          \<lparr>header_err = header, capture = capturePackets open_handle setBPF, live = [], pcap_err = pcap\<rparr> (cd_ring s)) s"
| "cap_live vm s (CvStream sid ifname err) = on_session sid (stream_packet ifname err) s"

definition cap_step :: "(RawInstruction list \<Rightarrow> bytes \<Rightarrow> nat) \<Rightarrow> Captured \<Rightarrow> cap_event \<Rightarrow> Captured \<times> unit list" where
  "cap_step vm s ev = (case cd_result s of None \<Rightarrow> (cap_live vm s ev, []) | Some _ \<Rightarrow> (s, []))"

section \<open>What a capture carries\<close>

definition of_iface :: "string \<Rightarrow> packet list \<Rightarrow> packet list" where
  "of_iface i ps = filter (\<lambda>p. fst p = i) ps"

lemma of_iface_simps [simp]:
  "of_iface i [] = []" "of_iface i (ps @ qs) = of_iface i ps @ of_iface i qs"
  "of_iface i (p # ps) = (if fst p = i then p # of_iface i ps else of_iface i ps)"
  by (simp_all add: of_iface_def)

text \<open>The frames of a history that an interface had to pass on.\<close>

fun wanted :: "string \<Rightarrow> cap_event \<Rightarrow> packet list" where
  "wanted i (CvArrive ifname frame) = (if ifname = i \<and> filter_expression frame then [(i, take 1500 frame)] else [])"
| "wanted i _ = []"

definition arrivals :: "string \<Rightarrow> cap_event list \<Rightarrow> packet list" where
  "arrivals i h = concat (map (wanted i) h)"

lemma arrivals_simps [simp]: "arrivals i [] = []" "arrivals i (h @ [e]) = arrivals i h @ wanted i e"
  by (simp_all add: arrivals_def)

text \<open>For every open interface, what was sent and what waits are the wanted frames so far, in order.\<close>

definition faithful :: "capture_state \<Rightarrow> packet list \<Rightarrow> cap_event list \<Rightarrow> bool" where
  "faithful cap sent h \<longleftrightarrow>
     (\<forall>i \<in> set (cap_open cap). of_iface i sent @ of_iface i (cap_queue cap) = arrivals i h)"

lemma faithful_opened: "faithful (opened names) [] []"
  by (simp add: faithful_def opened_def)

lemma faithful_silent: "faithful cap sent h \<Longrightarrow> (\<And>i. wanted i e = []) \<Longrightarrow> faithful cap sent (h @ [e])"
  by (simp add: faithful_def)

lemma faithful_arrive:
  assumes "classic_bpf vm" "faithful cap sent h"
  shows "faithful (arrive vm ifname frame cap) sent (h @ [CvArrive ifname frame])"
proof -
  have "vm instructions frame = (if filter_expression frame then 1500 else 0)"
    using assms(1) bpf_program by (simp add: classic_bpf_def)
  then show ?thesis using assms(2) by (auto simp: faithful_def arrive_def Let_def)
qed

lemma faithful_next_err: "faithful cap sent h \<Longrightarrow> faithful (next_err ifname cap) sent h"
proof -
  have "of_iface i (filter (\<lambda>p. fst p \<noteq> ifname) q) = of_iface i q" if "i \<noteq> ifname" for i q
    using that by (induction q) auto
  moreover assume "faithful cap sent h"
  ultimately show ?thesis by (simp add: faithful_def next_err_def)
qed

lemma of_iface_first:
  "List.find (\<lambda>p. fst p = i) q = Some p \<Longrightarrow>
   fst p = i \<and> of_iface i q = p # of_iface i (remove1 p q) \<and> (\<forall>j. j \<noteq> i \<longrightarrow> of_iface j (remove1 p q) = of_iface j q)"
  by (induction q) (auto split: if_splits)

lemma faithful_deliver:
  assumes "faithful cap sent h" "deliver ifname cap = Some (p, cap')"
  shows "faithful cap' (sent @ [p]) h"
proof -
  from assms(2) have p: "List.find (\<lambda>p. fst p = ifname) (cap_queue cap) = Some p"
    and cap': "cap' = cap\<lparr>cap_queue := remove1 p (cap_queue cap)\<rparr>"
    by (auto simp: deliver_def split: option.splits)
  have "of_iface j (sent @ [p]) @ of_iface j (remove1 p (cap_queue cap)) = of_iface j sent @ of_iface j (cap_queue cap)" for j
    using of_iface_first [OF p] by (cases "j = ifname") auto
  then show ?thesis using assms(1) unfolding faithful_def cap' by simp
qed

section \<open>The ring and the sessions\<close>

definition ring_tied :: "Captured \<Rightarrow> cap_event list \<Rightarrow> bool" where
  "ring_tied s h \<longleftrightarrow> (cd_result s = None \<longrightarrow>
     (\<exists>recorded. cd_ring s = ring_of 50000 recorded \<and> faithful (cd_main s) recorded h))"

definition stream_tied :: "nat \<Rightarrow> packet session_out list \<Rightarrow> Captured \<Rightarrow> cap_event list \<Rightarrow> bool" where
  "stream_tied sid base s h \<longleftrightarrow> (cd_result s = None \<longrightarrow> sid < length (cd_sessions s) \<and>
     (\<exists>sent cap. ss_out (cd_sessions s ! sid) = base @ map PcapPacket sent \<and>
        ss_capture (cd_sessions s ! sid) = Some cap \<and> faithful cap sent h))"

fun undisturbed :: "nat \<Rightarrow> cap_event \<Rightarrow> bool" where
  "undisturbed sid (CvStream s ifname (Some e)) = (s \<noteq> sid)"
| "undisturbed sid _ = True"

lemma on_session_fields [simp]:
  "cd_ring (on_session sid f s) = cd_ring s" "cd_main (on_session sid f s) = cd_main s"
  "length (cd_sessions (on_session sid f s)) = length (cd_sessions s)"
  "sid' \<noteq> sid \<Longrightarrow> cd_sessions (on_session sid f s) ! sid' = cd_sessions s ! sid'"
  "cd_result (on_session sid f s) = None \<Longrightarrow> cd_result s = None \<or> sid < length (cd_sessions s)"
  by (auto simp: on_session_def split: sum.split)

lemma on_session_same:
  "sid < length (cd_sessions s) \<Longrightarrow> f (cd_sessions s ! sid) = Inr ss \<Longrightarrow> cd_sessions (on_session sid f s) ! sid = ss"
  by (simp add: on_session_def)

lemma live_frame [simp]:
  "cd_ring (serve_listener i r s) = cd_ring s" "cd_main (serve_listener i r s) = cd_main s"
  "cd_sessions (serve_listener i r s) = cd_sessions s"
  "cd_ring (open_channel h t a s) = cd_ring s" "cd_main (open_channel h t a s) = cd_main s"
  "sid < length (cd_sessions s) \<Longrightarrow> cd_sessions (open_channel h t a s) ! sid = cd_sessions s ! sid"
  "sid < length (cd_sessions s) \<Longrightarrow> sid < length (cd_sessions (open_channel h t a s))"
  "cd_sessions (record_packet ifname s) = cd_sessions s"
  by (auto simp: serve_listener_def open_channel_def record_packet_def Let_def nth_append
      split: sum.split channel_outcome.split option.split)

lemma ring_tied_record:
  assumes "ring_tied s h" "cd_result s = None"
  shows "ring_tied (record_packet ifname s) (h @ [CvRecord ifname])"
proof -
  from assms obtain recorded where r: "cd_ring s = ring_of 50000 recorded" "faithful (cd_main s) recorded h"
    by (auto simp: ring_tied_def)
  show ?thesis
  proof (cases "deliver ifname (cd_main s)")
    case None
    then show ?thesis
      using r faithful_silent [OF r(2), of "CvRecord ifname"] by (auto simp: record_packet_def ring_tied_def)
  next
    case (Some x)
    then obtain p cap where d: "deliver ifname (cd_main s) = Some (p, cap)" by (cases x) simp
    have "writePacket p (cd_ring s) = Inr (ring_of 50000 (recorded @ [p]))" by (simp add: r(1) writePacket_ring)
    then show ?thesis
      using faithful_silent [OF faithful_deliver [OF r(2) d], of "CvRecord ifname"]
      by (auto simp: record_packet_def d ring_tied_def)
  qed
qed

lemma ring_step:
  assumes "ring_tied s h" "classic_bpf vm"
  shows "ring_tied (fst (cap_step vm s e)) (h @ [e])"
proof (cases "cd_result s")
  case None
  then obtain recorded where r: "cd_ring s = ring_of 50000 recorded" "faithful (cd_main s) recorded h"
    using assms(1) by (auto simp: ring_tied_def)
  have same: "ring_tied s' (h @ [e])" if "cd_ring s' = cd_ring s" "cd_main s' = cd_main s" "\<And>i. wanted i e = []" for s'
    using r faithful_silent [OF r(2) that(3)] that(1,2) by (auto simp: ring_tied_def)
  show ?thesis
  proof (cases e)
    case (CvArrive ifname frame)
    then show ?thesis
      using None r faithful_arrive [OF assms(2) r(2)] by (auto simp: cap_step_def ring_tied_def)
  next
    case (CvRecord ifname)
    then show ?thesis using None ring_tied_record [OF assms(1)] by (simp add: cap_step_def)
  next
    case (CvNextErr who ifname)
    show ?thesis
    proof (cases who)
      case (Some sid)
      then show ?thesis using None CvNextErr same by (simp add: cap_step_def)
    next
      case who: None
      show ?thesis
        using None CvNextErr who r faithful_silent [OF faithful_next_err [OF r(2)], of e]
        by (auto simp: cap_step_def ring_tied_def)
    qed
  qed (use None same in \<open>auto simp: cap_step_def split: sum.split fault.split prod.split\<close>)
qed (simp add: cap_step_def ring_tied_def)

lemma stream_tied_packet:
  assumes "stream_tied sid base s h" "cd_result s = None" "undisturbed sid (CvStream sid' ifname e)"
  shows "stream_tied sid base (on_session sid' (stream_packet ifname e) s) (h @ [CvStream sid' ifname e])"
proof -
  from assms(1,2) obtain sent cap where t: "sid < length (cd_sessions s)"
    "ss_out (cd_sessions s ! sid) = base @ map PcapPacket sent" "ss_capture (cd_sessions s ! sid) = Some cap"
    "faithful cap sent h" by (auto simp: stream_tied_def)
  note silent = faithful_silent [OF t(4), of "CvStream sid' ifname e", simplified]
  show ?thesis
  proof (cases "sid' = sid")
    case False
    then show ?thesis using t silent by (auto simp: stream_tied_def)
  next
    case True
    then have e: "e = None" using assms(3) by (cases e) auto
    show ?thesis
    proof (cases "deliver ifname cap")
      case None
      then have "stream_packet ifname e (cd_sessions s ! sid) = Inr (cd_sessions s ! sid)"
        by (simp add: stream_packet_def t(3))
      then show ?thesis using t True silent by (auto simp: stream_tied_def on_session_same)
    next
      case (Some x)
      then obtain p cap' where d: "deliver ifname cap = Some (p, cap')" by (cases x) simp
      then have "stream_packet ifname e (cd_sessions s ! sid) =
          Inr ((cd_sessions s ! sid)\<lparr>ss_out := base @ map PcapPacket (sent @ [p]), ss_capture := Some cap'\<rparr>)"
        by (simp add: stream_packet_def t(2,3) e)
      then show ?thesis
        using t(1) True faithful_silent [OF faithful_deliver [OF t(4) d], of "CvStream sid' ifname e"]
        unfolding stream_tied_def by (auto simp: on_session_same simp del: map_append)
    qed
  qed
qed

lemma stream_step:
  assumes "stream_tied sid base s h" "classic_bpf vm" "undisturbed sid e"
  shows "stream_tied sid base (fst (cap_step vm s e)) (h @ [e])"
proof (cases "cd_result s")
  case None
  then obtain sent cap where t: "sid < length (cd_sessions s)"
    "ss_out (cd_sessions s ! sid) = base @ map PcapPacket sent" "ss_capture (cd_sessions s ! sid) = Some cap"
    "faithful cap sent h" using assms(1) by (auto simp: stream_tied_def)
  have same: "stream_tied sid base s' (h @ [e])"
    if "sid < length (cd_sessions s')" "cd_sessions s' ! sid = cd_sessions s ! sid" "\<And>i. wanted i e = []" for s'
    using t faithful_silent [OF t(4) that(3)] that(1,2) by (auto simp: stream_tied_def)
  show ?thesis
  proof (cases e)
    case (CvArrive ifname frame)
    then show ?thesis
      using None t faithful_arrive [OF assms(2) t(4)] by (auto simp: cap_step_def stream_tied_def map_capture_def)
  next
    case (CvStream sid' ifname err)
    then show ?thesis using None stream_tied_packet [OF assms(1) None] assms(3) by (simp add: cap_step_def)
  next
    case (CvNextErr who ifname)
    show ?thesis
    proof (cases "who = Some sid")
      case True
      then show ?thesis
        using None CvNextErr t faithful_silent [OF faithful_next_err [OF t(4)], of e]
        by (auto simp: cap_step_def stream_tied_def on_session_same map_capture_def)
    next
      case False
      then show ?thesis using None CvNextErr same t(1) by (cases who) (auto simp: cap_step_def)
    qed
  next
    case (CvRequest sid' type payload header open_handle setBPF pcap)
    let ?f = "start_request type payload
          \<lparr>header_err = header, capture = capturePackets open_handle setBPF, live = [], pcap_err = pcap\<rparr> (cd_ring s)"
    have "cd_sessions (on_session sid' ?f s) ! sid = cd_sessions s ! sid"
      using t(1,3) by (cases "sid' = sid") (auto simp: on_session_same start_request_def)
    then show ?thesis using None CvRequest same t(1) by (simp add: cap_step_def)
  qed (use None same t(1) in \<open>auto simp: cap_step_def split: sum.split fault.split prod.split\<close>)
qed (simp add: cap_step_def stream_tied_def)

interpretation ring: history_machine "cap_step vm" "\<lambda>_. classic_bpf vm" ring_tied for vm
  by unfold_locales (rule ring_step)

interpretation stream: history_machine "cap_step vm" "\<lambda>e. classic_bpf vm \<and> undisturbed sid e" "stream_tied sid base"
  for vm sid base
  by unfold_locales (auto intro: stream_step)

lemma run_dead: "cd_result s = Some x \<Longrightarrow> fst (run (cap_step vm) s es) = s"
  by (induction es) (simp_all add: cap_step_def)

lemma ring_tied_start: "start_captured env = Inr s0 \<Longrightarrow> ring_tied s0 []"
  using logic_ring [of "[] :: packet list"]
  by (auto simp: start_captured_def bindR_eq_Inr ring_tied_def faithful_opened logic_ring_def)

lemma stream_tied_start:
  assumes "sid < length (cd_sessions s)" "ss_capture (cd_sessions s ! sid) = None" "4 \<le> length payload"
    and "capturePackets open_handle setBPF = Inr names" "cd_ring s = ring_of 50000 recorded" "cd_result s = None"
  shows "stream_tied sid (ss_out (cd_sessions s ! sid) @
      FileHeader 1600 # ReplyTrue # map PcapPacket (drop (length recorded - 50000) recorded))
    (fst (cap_step vm s (CvRequest sid ''exec'' payload None open_handle setBPF (\<lambda>_. None)))) []"
proof -
  let ?env = "\<lparr>header_err = None, capture = capturePackets open_handle setBPF, live = [], pcap_err = (\<lambda>_. None)\<rparr>"
  have "session_request ''exec'' payload ?env (cd_ring s) =
      (FileHeader 1600 # ReplyTrue # map PcapPacket (drop (length recorded - 50000) recorded @ live ?env), None)"
    using session_replays [OF _ assms(3), of recorded "cd_ring s" ?env names] logic_ring [of recorded] assms(4,5) by simp
  then have "start_request ''exec'' payload ?env (cd_ring s) (cd_sessions s ! sid) =
      Inr \<lparr>ss_out = ss_out (cd_sessions s ! sid) @
             FileHeader 1600 # ReplyTrue # map PcapPacket (drop (length recorded - 50000) recorded),
           ss_capture = Some (opened names)\<rparr>"
    using assms(2,4) by (simp add: start_request_def)
  then show ?thesis
    using assms(1,6) faithful_opened by (auto simp: cap_step_def stream_tied_def on_session_same)
qed

section \<open>Property\<close>


definition demo_captured :: "nat captured_env" where
  "demo_captured = \<lparr>ce_readFile = Inr [], ce_parsePrivateKey = (\<lambda>_. Inr 0), ce_interfaces = Inr [],
     ce_open_handle = (\<lambda>_. Inr ()), ce_setBPF = (\<lambda>_ _. Inr ())\<rparr>"


end
