(* ===== verification/CapturedSafety.thy ===== *)
theory CapturedSafety
  imports CapturedDaemon
begin

text \<open>
  What can bring \<open>captured\<close> down: over all its histories, only the signal that makes it close a listener
  whose socket is not there yet.
\<close>

section \<open>Updating the listeners\<close>

text \<open>A registered listener without a socket, of a host that is not wanted any more.\<close>

definition vanished_early :: "Pool \<Rightarrow> serverListener list \<Rightarrow> string list \<Rightarrow> bool" where
  "vanished_early p sls hosts \<longleftrightarrow>
     (\<exists>h i. map_of (listeners p) h = Some i \<and> h \<notin> set hosts \<and> \<not> sl_ln (sls ! i))"

definition tracked :: "Pool \<Rightarrow> serverListener list \<Rightarrow> bool" where
  "tracked p sls \<longleftrightarrow> wf_pool p \<and> length sls = created p"

lemma close_listeners_outcome:
  "close_listeners sls = (if list_all sl_ln sls then Inr () else Inl (Panic ''nil pointer dereference''))"
  by (induction sls) (simp_all add: serverListener_Close_def)

lemma updateListeners_captured_outcome:
  assumes "tracked p sls" "PrivateInterfaceAddrs interfaces = Inr hosts"
  shows "if vanished_early p sls hosts
    then updateListeners_captured interfaces p sls = Inl (Panic ''nil pointer dereference'')
    else \<exists>sls'. updateListeners_captured interfaces p sls = Inr (ListenAndServe p hosts, sls') \<and>
      tracked (ListenAndServe p hosts) sls'"
proof -
  obtain new xs where new: "serving (ListenAndServe p hosts) = serving p @ new"
    "created (ListenAndServe p hosts) = created p + length new"
    and xs: "closed (ListenAndServe p hosts) = closed p @ xs" "set xs = {i. \<exists>h. h \<notin> set hosts \<and> map_of (listeners p) h = Some i}"
    by (rule listen_appends)
  define sls' where "sls' = sls @ map (\<lambda>(host, _). listenerFor host) new"
  have "i < length sls" if "i \<in> set xs" for i
  proof -
    from that obtain h where "map_of (listeners p) h = Some i" by (auto simp: xs(2))
    then have "(h, i) \<in> set (serving p)" using assms(1) wf_poolD(3) by (simp add: tracked_def)
    then show ?thesis using assms(1) wf_poolD(4) by (simp add: tracked_def)
  qed
  then have old: "sls' ! i = sls ! i" if "i \<in> set xs" for i using that by (simp add: sls'_def nth_append)
  have "list_all sl_ln (map (\<lambda>i. sls' ! i) xs) \<longleftrightarrow> \<not> vanished_early p sls hosts"
    using old by (auto simp: list_all_iff vanished_early_def xs(2))
  moreover have "updateListeners_captured interfaces p sls =
      bindR (close_listeners (map (\<lambda>i. sls' ! i) xs)) (\<lambda>_. Inr (ListenAndServe p hosts, sls'))"
    using assms(2) by (simp add: updateListeners_captured_def new(1) xs(1) sls'_def Let_def)
  moreover have "tracked (ListenAndServe p hosts) sls'"
    using assms(1) wf_listen new(2) by (simp add: tracked_def sls'_def)
  ultimately show ?thesis by (simp add: close_listeners_outcome)
qed

section \<open>Error messages\<close>

text \<open>Every error has a text, so its last byte can be looked at.\<close>

lemma pcap_packets_text: "pcap_packets err i ps = (out, Some e) \<Longrightarrow> e \<noteq> ''''"
  by (induction ps arbitrary: i out) (auto split: option.splits prod.splits)

lemma session_request_text: "session_request type payload env prb = (out, Some e) \<Longrightarrow> e \<noteq> ''''"
  by (auto simp: session_request_def Let_def dest: pcap_packets_text
      split: if_splits option.splits sum.splits prod.splits)

lemma fail_request_Inr: "e \<noteq> '''' \<Longrightarrow> \<exists>ss'. fail_request e out ss = Inr ss'"
  by (simp add: fail_request_def error_line_def)

lemma start_request_Inr: "\<exists>ss'. start_request type payload env prb ss = Inr ss'"
proof (cases "ss_capture ss")
  case None
  obtain out e where "session_request type payload env prb = (out, e)" by (rule prod.exhaust)
  then show ?thesis
    using None fail_request_Inr [OF session_request_text [of type payload env prb out]]
    by (cases e) (simp_all add: start_request_def)
qed (simp add: start_request_def)

lemma stream_packet_Inr: "\<exists>ss'. stream_packet ifname err ss = Inr ss'"
proof (cases "ss_capture ss")
  case (Some cap)
  show ?thesis
  proof (cases "deliver ifname cap")
    case (Some x)
    obtain out e where "pcap_packets (\<lambda>_. err) 0 [fst x] = (out, e)" by (rule prod.exhaust)
    then show ?thesis
      using Some \<open>ss_capture ss = Some cap\<close> fail_request_Inr [OF pcap_packets_text [of "\<lambda>_. err" 0 "[fst x]" out]]
      by (cases e) (simp_all add: stream_packet_def split_beta)
  qed (simp add: stream_packet_def Some)
qed (simp add: stream_packet_def)

lemma on_session_alive:
  assumes "\<And>ss. \<exists>ss'. f ss = Inr ss'"
  shows "cd_result (on_session sid f s) = cd_result s \<and> cd_pool (on_session sid f s) = cd_pool s \<and>
    cd_listeners (on_session sid f s) = cd_listeners s"
proof -
  obtain ss' where "f (cd_sessions s ! sid) = Inr ss'" using assms by blast
  then show ?thesis by (simp add: on_session_def)
qed

section \<open>The invariant\<close>

definition captured_inv :: "Captured \<Rightarrow> bool" where
  "captured_inv s \<longleftrightarrow> tracked (cd_pool s) (cd_listeners s) \<and> cd_ring s \<noteq> []"

lemma record_packet_alive:
  assumes "cd_ring s \<noteq> []"
  shows "cd_result (record_packet ifname s) = cd_result s \<and> cd_ring (record_packet ifname s) \<noteq> [] \<and>
    cd_pool (record_packet ifname s) = cd_pool s \<and> cd_listeners (record_packet ifname s) = cd_listeners s"
  using assms by (auto simp: record_packet_def writePacket_def split: option.split list.split)

lemma tracked_ends: "tracked p sls \<Longrightarrow> tracked (goroutine_ends p i) sls"
  by (simp add: tracked_def wf_ends) (simp add: goroutine_ends_def)

lemma serve_listener_alive:
  assumes "tracked (cd_pool s) (cd_listeners s)"
  shows "cd_result (serve_listener i r s) = cd_result s \<and> cd_ring (serve_listener i r s) = cd_ring s \<and>
    tracked (cd_pool (serve_listener i r s)) (cd_listeners (serve_listener i r s))"
  using assms tracked_ends [OF assms, of i]
  by (auto simp: serve_listener_def Let_def split: sum.split) (simp_all add: tracked_def)

lemma open_channel_alive:
  "cd_result (open_channel h t a s) = cd_result s \<and> cd_pool (open_channel h t a s) = cd_pool s \<and>
   cd_listeners (open_channel h t a s) = cd_listeners s"
  by (auto simp: open_channel_def split: sum.split channel_outcome.split)

text \<open>One event: the invariant, and when it is fatal.\<close>

definition fatal :: "Captured \<Rightarrow> cap_event \<Rightarrow> bool" where
  "fatal s e \<longleftrightarrow> (\<exists>interfaces. e = CvUsr1 interfaces \<and>
     (case PrivateInterfaceAddrs interfaces of
        Inl (Panic _) \<Rightarrow> True
      | Inl (Err _) \<Rightarrow> False
      | Inr hosts \<Rightarrow> vanished_early (cd_pool s) (cd_listeners s) hosts))"

lemma usr1_outcome:
  assumes "captured_inv s" "cd_result s = None"
  shows "captured_inv (cap_live vm s (CvUsr1 interfaces)) \<and>
    (cd_result (cap_live vm s (CvUsr1 interfaces)) \<noteq> None \<longleftrightarrow> fatal s (CvUsr1 interfaces))"
proof (cases "PrivateInterfaceAddrs interfaces")
  case (Inl x)
  then show ?thesis using assms
    by (cases x) (auto simp: updateListeners_captured_def captured_inv_def fatal_def)
next
  case (Inr hosts)
  then show ?thesis
    using assms updateListeners_captured_outcome [OF _ Inr, of "cd_pool s" "cd_listeners s"]
    by (auto simp: captured_inv_def fatal_def split: if_splits)
qed

lemma live_outcome:
  assumes "captured_inv s" "cd_result s = None"
  shows "captured_inv (cap_live vm s e) \<and> (cd_result (cap_live vm s e) \<noteq> None \<longleftrightarrow> fatal s e)"
proof (cases e)
  case (CvUsr1 interfaces)
  then show ?thesis using usr1_outcome [OF assms] by simp
next
  case (CvNextErr who ifname)
  then show ?thesis
    using assms on_session_alive [of "\<lambda>ss. Inr (map_capture (next_err ifname) ss)"]
    by (cases who) (simp_all add: captured_inv_def fatal_def)
qed (use assms on_session_alive [OF start_request_Inr] on_session_alive [OF stream_packet_Inr] record_packet_alive
      serve_listener_alive open_channel_alive tracked_ends in \<open>auto simp: captured_inv_def fatal_def\<close>)

interpretation captured: run_machine "cap_step vm" captured_inv for vm
  by unfold_locales (auto simp: cap_step_def live_outcome split: option.split)

lemma captured_start: "start_captured env = Inr s0 \<Longrightarrow> captured_inv s0 \<and> cd_result s0 = None"
proof -
  assume s0: "start_captured env = Inr s0"
  then obtain p sls names where u: "updateListeners_captured (ce_interfaces env) NewPool [] = Inr (p, sls)"
    and eq: "s0 = \<lparr>cd_pool = p, cd_listeners = sls, cd_ring = newPacketRingBuffer 50000, cd_main = opened names,
          cd_sessions = [], cd_result = None\<rparr>"
    by (auto simp: start_captured_def bindR_eq_Inr)
  obtain hosts where "PrivateInterfaceAddrs (ce_interfaces env) = Inr hosts"
    using u by (auto simp: updateListeners_captured_def bindR_eq_Inr)
  moreover have "tracked NewPool []" by (simp add: tracked_def wf_pool_def NewPool_def)
  ultimately have "tracked p sls"
    using updateListeners_captured_outcome [of NewPool "[]" "ce_interfaces env" hosts] u by (auto split: if_splits)
  moreover have "newPacketRingBuffer 50000 \<noteq> ([] :: packet ring)" by (simp add: newPacketRingBuffer_def)
  ultimately show ?thesis by (simp add: captured_inv_def eq)
qed

section \<open>Property\<close>

text \<open>
  C23. Whatever frames arrive and whatever SSH clients do, a daemon that has started keeps running. It
  ends exactly at a SIGUSR1 at which a private address is gone whose listener is registered but has
  no socket yet (or reading the addresses panics); any other error is logged or answered.
\<close>

theorem captured_survives:
  assumes "start_captured env = Inr s0" "s = fst (run (cap_step vm) s0 es)" "cd_result s = None"
  shows "cd_result (fst (cap_step vm s e)) \<noteq> None \<longleftrightarrow>
    (\<exists>interfaces. e = CvUsr1 interfaces \<and>
       (case PrivateInterfaceAddrs interfaces of
          Inl (Panic _) \<Rightarrow> True
        | Inl (Err _) \<Rightarrow> False
        | Inr hosts \<Rightarrow> \<exists>h i. map_of (listeners (cd_pool s)) h = Some i \<and> h \<notin> set hosts \<and> \<not> sl_ln (cd_listeners s ! i)))"
proof -
  have "captured_inv s"
    unfolding assms(2) by (rule captured.run_inv) (use captured_start [OF assms(1)] in simp)
  then show ?thesis
    using live_outcome assms(3) unfolding fatal_def vanished_early_def by (simp add: cap_step_def)
qed

lemma captured_survives_witness:
  "\<exists>s0. start_captured demo_captured = Inr s0 \<and>
     cd_result (fst (cap_step (\<lambda>prog. bpf prog 0 0 0) (fst (run (cap_step (\<lambda>prog. bpf prog 0 0 0)) s0 [CvArrive ''lan0'' icmp6_frame])) (CvRecord ''lan0''))) = None"
proof -
  obtain s0 where s0: "start_captured demo_captured = Inr s0" "cd_result s0 = None"
    by (simp add: start_captured_def demo_captured_def newServer_def loadHostKey_def updateListeners_captured_def
        PrivateInterfaceAddrs_def interfaceAddrs_def capturePackets_def ListenAndServe_def NewPool_def Let_def)
  have "cd_result (fst (run (cap_step (\<lambda>prog. bpf prog 0 0 0)) s0 [CvArrive ''lan0'' icmp6_frame])) = None"
    by (simp add: s0(2) cap_step_def)
  from captured_survives [OF s0(1) refl this, of "CvRecord ''lan0''"] s0(1) show ?thesis by auto
qed

end
