(* ===== verification/FilterHalts.thy ===== *)
theory FilterHalts
  imports Captured
begin

text \<open>
  The filter program of \<open>cmd/captured\<close> one instruction at a time: why the kernel may run it on every
  packet. The conditions are those under which the kernel accepts a classic BPF program.
\<close>

section \<open>One instruction\<close>

datatype vm_state = Running nat nat nat | Returned nat | OutOfPacket | Stuck

definition loaded :: "nat option \<Rightarrow> (nat \<Rightarrow> vm_state) \<Rightarrow> vm_state" where
  "loaded v s = (case v of None \<Rightarrow> OutOfPacket | Some n \<Rightarrow> s n)"

definition exec :: "RawInstruction \<Rightarrow> bytes \<Rightarrow> nat \<Rightarrow> nat \<Rightarrow> nat \<Rightarrow> vm_state" where
  "exec i pkt pc a x =
     (if Code i = 40 then loaded (u16 pkt (K i)) (\<lambda>v. Running (pc + 1) v x)
      else if Code i = 48 then loaded (u8 pkt (K i)) (\<lambda>v. Running (pc + 1) v x)
      else if Code i = 72 then loaded (u16 pkt (x + K i)) (\<lambda>v. Running (pc + 1) v x)
      else if Code i = 177 then loaded (u8 pkt (K i)) (\<lambda>v. Running (pc + 1) a (4 * (v mod 16)))
      else if Code i = 21 then Running (pc + 1 + (if a = K i then Jt i else Jf i)) a x
      else if Code i = 69 then Running (pc + 1 + (if a AND K i \<noteq> 0 then Jt i else Jf i)) a x
      else if Code i = 6 then Returned (K i)
      else Stuck)"

fun vm_step :: "RawInstruction list \<Rightarrow> bytes \<Rightarrow> vm_state \<Rightarrow> vm_state" where
  "vm_step prog pkt (Running pc a x) = (if pc < length prog then exec (prog ! pc) pkt pc a x else Stuck)"
| "vm_step prog pkt s = s"

fun verdict :: "vm_state \<Rightarrow> nat" where
  "verdict (Returned n) = n"
| "verdict _ = 0"

fun halted :: "vm_state \<Rightarrow> bool" where
  "halted (Returned n) = True"
| "halted OutOfPacket = True"
| "halted _ = False"

section \<open>Programs that the kernel accepts\<close>

text \<open>An instruction with \<open>n\<close> instructions after it; a jump is relative to the next one.\<close>

definition acceptable :: "RawInstruction \<Rightarrow> nat \<Rightarrow> bool" where
  "acceptable i n \<longleftrightarrow> Code i = 6 \<or> Code i \<in> {40, 48, 72, 177} \<and> 0 < n \<or> Code i \<in> {21, 69} \<and> Jt i < n \<and> Jf i < n"

fun checked :: "RawInstruction list \<Rightarrow> bool" where
  "checked [] = True"
| "checked (i # prog) = (acceptable i (length prog) \<and> checked prog)"

lemma checked_nth: "checked prog \<Longrightarrow> pc < length prog \<Longrightarrow> acceptable (prog ! pc) (length prog - Suc pc)"
proof (induction prog arbitrary: pc)
  case (Cons i prog)
  then show ?case by (cases pc) auto
qed simp

lemma vm_step_halted: "halted s \<Longrightarrow> (vm_step prog pkt ^^ n) s = s"
  by (induction n) (cases s; auto)+

text \<open>An accepted program goes forward, inside the program, or halts.\<close>

lemma exec_checked:
  assumes "checked prog" "pc < length prog"
  shows "halted (exec (prog ! pc) pkt pc a x) \<or>
    (\<exists>pc' a' x'. exec (prog ! pc) pkt pc a x = Running pc' a' x' \<and> pc < pc' \<and> pc' < length prog)"
proof -
  let ?i = "prog ! pc"
  from checked_nth [OF assms] consider "Code ?i = 6" | "Code ?i \<in> {40, 48, 72, 177}" "pc + 1 < length prog"
    | "Code ?i \<in> {21, 69}" "pc + 1 + Jt ?i < length prog" "pc + 1 + Jf ?i < length prog"
    unfolding acceptable_def by (elim disjE conjE) linarith+
  then show ?thesis
  proof cases
    case 2
    then show ?thesis
      by (cases "u16 pkt (K ?i)"; cases "u8 pkt (K ?i)"; cases "u16 pkt (x + K ?i)") (auto simp: exec_def loaded_def)
  qed (auto simp: exec_def)
qed

lemma checked_halts:
  "checked prog \<Longrightarrow> pc < length prog \<Longrightarrow> length prog - pc \<le> n \<Longrightarrow> halted ((vm_step prog pkt ^^ n) (Running pc a x))"
proof (induction n arbitrary: pc a x)
  case (Suc n)
  then show ?case
    using exec_checked [OF Suc.prems(1,2), where pkt = pkt and a = a and x = x]
    by (auto simp: funpow_Suc_right vm_step_halted simp del: funpow.simps)
qed simp

lemma bpf_exec:
  "pc < length prog \<Longrightarrow> bpf prog pc a x pkt =
     (case exec (prog ! pc) pkt pc a x of Running pc' a' x' \<Rightarrow> bpf prog pc' a' x' pkt | s \<Rightarrow> verdict s)"
  by (subst bpf.simps) (simp add: exec_def loaded_def Let_def split: option.split)

lemma verdict_bpf:
  "halted ((vm_step prog pkt ^^ n) (Running pc a x)) \<Longrightarrow>
   verdict ((vm_step prog pkt ^^ n) (Running pc a x)) = bpf prog pc a x pkt"
proof (induction n arbitrary: pc a x)
  case (Suc n)
  have stuck: "(vm_step prog pkt ^^ m) Stuck = Stuck" for m by (induction m) auto
  show ?case
  proof (cases "pc < length prog")
    case True
    then show ?thesis
      using Suc vm_step_halted [where s = "exec (prog ! pc) pkt pc a x" and prog = prog and pkt = pkt and n = n]
      by (auto simp: funpow_Suc_right bpf_exec stuck simp del: funpow.simps split: vm_state.split)
  next
    case False
    then show ?thesis using Suc.prems by (simp add: funpow_Suc_right stuck del: funpow.simps)
  qed
qed simp

lemma checked_instructions: "checked instructions"
  by (simp add: instructions_def raw_def acceptable_def)

section \<open>Property\<close>

text \<open>
  C16. The filter program halts on every packet, however short, after at most as many instructions as
  it has: it returns, or a load outside of the packet ends it; it never jumps out of the program or
  meets an unknown instruction. Its verdict is the filter expression: 1500 bytes or none.
\<close>

theorem filter_halts:
  "let s = (vm_step instructions pkt ^^ length instructions) (Running 0 0 0) in
   halted s \<and> verdict s = (if filter_expression pkt then 1500 else 0)"
proof -
  have "0 < length instructions" by (simp add: length_instructions)
  from checked_halts [OF checked_instructions this] have h: "halted ((vm_step instructions pkt ^^ length instructions) (Running 0 0 0))"
    by simp
  show ?thesis using h verdict_bpf [OF h] by (simp add: bpf_program)
qed

end
