(* ===== verification/Netconfigd.thy ===== *)
theory Netconfigd
  imports NetconfigProps Multilisten
begin

text \<open>
  \<open>cmd/netconfigd/netconfigd.go\<close>: the daemon that applies the configuration, and its metrics, which
  accumulate the counters of the firewall. Both work on the same kernel objects: a scrape reads and
  resets a counter, \<open>Apply\<close> flushes the ruleset and installs it again with the counters it read.
  The state is the kernel (\<open>World\<close>, whose \<open>ruleset\<close> holds the counter objects), the metrics, the
  listeners, and the position in the loop of \<open>logic\<close>.
\<close>

section \<open>Metrics\<close>

record metric =
  m_name :: string
  m_family :: string
  m_obj :: "family \<times> string \<times> string"
  m_packets :: "64 word"
  m_bytes :: "64 word"

definition metrics0 :: "metric list" where
  "metrics0 =
     [\<lparr>m_name = ''filter_forward'', m_family = ''ipv4'', m_obj = (IPv4Family, ''filter'', ''fwded''), m_packets = 0, m_bytes = 0\<rparr>,
      \<lparr>m_name = ''filter_forward'', m_family = ''ipv6'', m_obj = (IPv6Family, ''filter'', ''fwded''), m_packets = 0, m_bytes = 0\<rparr>]"

text \<open>\<open>updateCounter\<close> with the answer of \<open>GetObjReset\<close>.\<close>

definition updateCounter :: "nf_obj list result \<Rightarrow> metric \<Rightarrow> metric" where
  "updateCounter getObjReset m =
     (case getObjReset of
        Inl _ \<Rightarrow> m
      | Inr objs \<Rightarrow>
          if length objs \<noteq> 1 then m
          else (case objs ! 0 of
                  ObjCounter co \<Rightarrow> m\<lparr>m_packets := m_packets m + of_nat (Packets co), m_bytes := m_bytes m + of_nat (Bytes co)\<rparr>
                | ObjOther \<Rightarrow> m))"

section \<open>The kernel's counters\<close>

text \<open>
  The kernel is a parameter: listing the counters of a family, listing and resetting them, and
  forwarding a packet of a given size. The counter objects are those of the ruleset.
\<close>

record nftables =
  GetObj :: "nf_msg list \<Rightarrow> family \<Rightarrow> nf_obj list result"
  GetObjReset :: "nf_msg list \<Rightarrow> family \<Rightarrow> nf_msg list \<times> nf_obj list result"
  forwards :: "nf_msg list \<Rightarrow> family \<Rightarrow> nat \<Rightarrow> nf_msg list"

definition counters :: "family \<Rightarrow> nf_msg list \<Rightarrow> CounterObj list" where
  "counters fam rs =
     concat (map (\<lambda>msg. case msg of AddObj co \<Rightarrow> if fst (co_table co) = fam then [co] else [] | _ \<Rightarrow> []) rs)"

definition nftables_ok :: "nftables \<Rightarrow> bool" where
  "nftables_ok nft \<longleftrightarrow>
     (\<forall>rs fam. GetObj nft rs fam = Inr (map ObjCounter (counters fam rs))) \<and>
     (\<forall>rs fam rs' r. GetObjReset nft rs fam = (rs', r) \<longrightarrow>
        (\<forall>other. other \<noteq> fam \<longrightarrow> counters other rs' = counters other rs) \<and>
        (case r of
           Inl _ \<Rightarrow> counters fam rs' = counters fam rs
         | Inr objs \<Rightarrow> objs = map ObjCounter (counters fam rs) \<and>
             counters fam rs' = map (\<lambda>co. co\<lparr>Packets := 0, Bytes := 0\<rparr>) (counters fam rs))) \<and>
     (\<forall>rs fam n.
        (\<forall>other. other \<noteq> fam \<longrightarrow> counters other (forwards nft rs fam n) = counters other rs) \<and>
        counters fam (forwards nft rs fam n) =
          map (\<lambda>co. co\<lparr>Packets := (Packets co + 1) mod 2 ^ 64, Bytes := (Bytes co + n) mod 2 ^ 64\<rparr>) (counters fam rs))"

section \<open>The daemon\<close>

datatype position_n = Applying | AwaitingUsr1 | ReturnedN "fault list"

record Netconfigd =
  nd_world :: World
  nd_metrics :: "metric list"
  nd_pool :: Pool
  nd_position :: position_n

datatype event_n =
  EvApply platform Dir
| EvUsr1 "NetIface list result" "string result"
| EvScrape nat bool
| EvForward family nat

datatype output_n = Signal string | HangupAll | Reported nat

definition updateListeners_netconfigd :: "NetIface list result \<Rightarrow> string result \<Rightarrow> Pool \<Rightarrow> Pool result" where
  "updateListeners_netconfigd interfaces net1 p = bindR (PrivateInterfaceAddrs interfaces) (listen_with_net1 net1 p)"

definition start_netconfigd :: "World \<Rightarrow> NetIface list result \<Rightarrow> string result \<Rightarrow> Netconfigd result" where
  "start_netconfigd w ifaces net1 =
     bindR (updateListeners_netconfigd ifaces net1 NewPool) (\<lambda>p.
       Inr \<lparr>nd_world = w, nd_metrics = metrics0, nd_pool = p, nd_position = Applying\<rparr>)"

text \<open>
  One round of the loop: whatever the outcome, dhcp4d gets a signal and all other processes a hangup.
\<close>

definition apply_round :: "nftables \<Rightarrow> platform \<Rightarrow> Dir \<Rightarrow> Netconfigd \<Rightarrow> Netconfigd \<times> output_n list" where
  "apply_round nft pf dir d =
     (case Apply (pf\<lparr>get_obj := GetObj nft (ruleset (nd_world d))\<rparr>) dir ''/'' (nd_world d) of
        (w', errs) \<Rightarrow>
          let d = d\<lparr>nd_world := w'\<rparr> in
          if crashed errs then (d\<lparr>nd_position := ReturnedN errs\<rparr>, [])
          else (d\<lparr>nd_position := (if errs = [] then AwaitingUsr1 else ReturnedN errs)\<rparr>,
                [Signal ''/user/dhcp4d'', HangupAll]))"

definition usr1_round :: "NetIface list result \<Rightarrow> string result \<Rightarrow> Netconfigd \<Rightarrow> Netconfigd" where
  "usr1_round ifaces net1 d =
     (case updateListeners_netconfigd ifaces net1 (nd_pool d) of
        Inl (Panic e) \<Rightarrow> d\<lparr>nd_position := ReturnedN [Panic e]\<rparr>
      | Inl (Err _) \<Rightarrow> d\<lparr>nd_position := Applying\<rparr>
      | Inr p \<Rightarrow> d\<lparr>nd_pool := p, nd_position := Applying\<rparr>)"

text \<open>The counter function of the \<open>i\<close>th metric, of its packets or of its bytes.\<close>

definition scrape :: "nftables \<Rightarrow> nat \<Rightarrow> bool \<Rightarrow> Netconfigd \<Rightarrow> Netconfigd \<times> output_n list" where
  "scrape nft i of_packets d =
     (if i < length (nd_metrics d) then
        (case GetObjReset nft (ruleset (nd_world d)) (fst (m_obj (nd_metrics d ! i))) of
           (rs, objs) \<Rightarrow>
             let m = updateCounter objs (nd_metrics d ! i) in
             (d\<lparr>nd_world := (nd_world d)\<lparr>ruleset := rs\<rparr>, nd_metrics := (nd_metrics d)[i := m]\<rparr>,
              [Reported (unat (if of_packets then m_packets m else m_bytes m))]))
      else (d, []))"

fun step_n :: "nftables \<Rightarrow> Netconfigd \<Rightarrow> event_n \<Rightarrow> Netconfigd \<times> output_n list" where
  "step_n nft d (EvApply pf dir) = (if nd_position d = Applying then apply_round nft pf dir d else (d, []))"
| "step_n nft d (EvUsr1 ifaces net1) = (if nd_position d = AwaitingUsr1 then (usr1_round ifaces net1 d, []) else (d, []))"
| "step_n nft d (EvScrape i p) = (case nd_position d of ReturnedN _ \<Rightarrow> (d, []) | _ \<Rightarrow> scrape nft i p d)"
| "step_n nft d (EvForward fam n) = (d\<lparr>nd_world := (nd_world d)\<lparr>ruleset := forwards nft (ruleset (nd_world d)) fam n\<rparr>\<rparr>, [])"

section \<open>No packet is lost\<close>

definition one_counter :: "nf_msg list \<Rightarrow> family \<Rightarrow> bool" where
  "one_counter rs fam \<longleftrightarrow> (\<exists>co. counters fam rs = [co] \<and> co_table co = (fam, ''filter''))"

lemma one_counter_nth:
  "one_counter rs fam \<longleftrightarrow> length (counters fam rs) = 1 \<and> co_table (counters fam rs ! 0) = (fam, ''filter'')"
  by (auto simp: one_counter_def length_Suc_conv)

definition at_most_one :: "Netconfigd \<Rightarrow> bool" where
  "at_most_one d \<longleftrightarrow> map m_obj (nd_metrics d) = map m_obj metrics0 \<and>
     (\<forall>fam. counters fam (ruleset (nd_world d)) = [] \<or> one_counter (ruleset (nd_world d)) fam)"

definition installed :: "Netconfigd \<Rightarrow> bool" where
  "installed d \<longleftrightarrow> map m_obj (nd_metrics d) = map m_obj metrics0 \<and> (\<forall>fam. one_counter (ruleset (nd_world d)) fam)"

definition framed :: "event_n \<Rightarrow> bool" where
  "framed e = (case e of EvApply pf dir \<Rightarrow> netlink_frame (pf_nl pf) | _ \<Rightarrow> True)"

definition metric_of :: "family \<Rightarrow> Netconfigd \<Rightarrow> metric" where
  "metric_of fam d = nd_metrics d ! (case fam of IPv4Family \<Rightarrow> 0 | IPv6Family \<Rightarrow> 1)"

text \<open>What has been counted for a family: in its metric and, since the last reset, in the kernel.\<close>

definition counted :: "bool \<Rightarrow> family \<Rightarrow> Netconfigd \<Rightarrow> 64 word" where
  "counted of_packets fam d =
     (if of_packets then m_packets (metric_of fam d) else m_bytes (metric_of fam d)) +
     sum_list (map (\<lambda>co. of_nat (if of_packets then Packets co else Bytes co)) (counters fam (ruleset (nd_world d))))"

definition traffic :: "bool \<Rightarrow> family \<Rightarrow> event_n \<Rightarrow> 64 word" where
  "traffic of_packets fam e =
     (case e of EvForward f n \<Rightarrow> if f = fam then (if of_packets then 1 else of_nat n) else 0 | _ \<Rightarrow> 0)"

lemma nftables_okD:
  assumes "nftables_ok nft"
  shows "GetObj nft rs fam = Inr (map ObjCounter (counters fam rs))"
    and "GetObjReset nft rs fam = (rs', r) \<Longrightarrow> other \<noteq> fam \<Longrightarrow> counters other rs' = counters other rs"
    and "GetObjReset nft rs fam = (rs', Inl e) \<Longrightarrow> counters fam rs' = counters fam rs"
    and "GetObjReset nft rs fam = (rs', Inr objs) \<Longrightarrow> objs = map ObjCounter (counters fam rs) \<and>
      counters fam rs' = map (\<lambda>co. co\<lparr>Packets := 0, Bytes := 0\<rparr>) (counters fam rs)"
    and "other \<noteq> fam \<Longrightarrow> counters other (forwards nft rs fam n) = counters other rs"
    and "counters fam (forwards nft rs fam n) =
      map (\<lambda>co. co\<lparr>Packets := (Packets co + 1) mod 2 ^ 64, Bytes := (Bytes co + n) mod 2 ^ 64\<rparr>) (counters fam rs)"
  using assms unfolding nftables_ok_def by (fastforce split: sum.splits)+

lemma counters_append [simp]: "counters fam (xs @ ys) = counters fam xs @ counters fam ys"
  by (simp add: counters_def)

lemma counters_entries [simp]: "counters fam (map (entry_rule put16 ifname) es) = []"
  by (induction es) (simp_all add: counters_def entry_rule_def split: prod.split)

lemma applyPortForwardings_rules:
  "applyPortForwardings put16 cfg ifname c = Inr c' \<Longrightarrow> counters fam c' = counters fam c"
  by (auto simp: applyPortForwardings_def forwardings_loop_eq split: json_file.splits option.splits)

lemma counters_add_filter:
  "counters fam (add_filter dflt getObj ifname c fam') =
     counters fam c @ counters fam [AddObj (getCounterObj dflt (getObj fam')
       \<lparr>co_table = (fam', ''filter''), co_name = ''fwded'', Bytes = 0, Packets = 0\<rparr>)]"
  by (simp add: add_filter_def Let_def counters_def)

text \<open>A committed ruleset has one counter per family, the one that was there before if there was one.\<close>

lemma getCounterObj_carries:
  assumes "co_table new = (fam, ''filter'')" "counters fam rs = [] \<or> one_counter rs fam"
  shows "co_table (getCounterObj dflt (Inr (map ObjCounter (counters fam rs))) new) = (fam, ''filter'')"
    and "one_counter rs fam \<Longrightarrow> [getCounterObj dflt (Inr (map ObjCounter (counters fam rs))) new] = counters fam rs"
  using assms by (auto simp: getCounterObj_def one_counter_def)

lemma counters_commit:
  assumes "firewall_msgs put16 dflt getObj cfg ifname = Inr msgs"
    and "\<And>fam. getObj fam = Inr (map ObjCounter (counters fam rs))"
    and "\<And>fam. counters fam rs = [] \<or> one_counter rs fam"
  shows "one_counter msgs fam \<and> (one_counter rs fam \<longrightarrow> counters fam msgs = counters fam rs)"
proof -
  define co where "co fam = getCounterObj dflt (getObj fam)
    \<lparr>co_table = (fam, ''filter''), co_name = ''fwded'', Bytes = 0, Packets = 0\<rparr>" for fam
  have co: "co_table (co fam) = (fam, ''filter'')" "one_counter rs fam \<Longrightarrow> [co fam] = counters fam rs" for fam
    using getCounterObj_carries [OF _ assms(3)] by (simp_all add: co_def assms(2))
  obtain c where c: "applyPortForwardings put16 cfg ifname
      [FlushRuleset, AddTable IPv4Family ''nat'', AddChain IPv4Family ''nat'' ''prerouting'' HookPrerouting ChainTypeNAT,
       AddChain IPv4Family ''nat'' ''postrouting'' HookPostrouting ChainTypeNAT,
       AddRule IPv4Family ''nat'' ''postrouting'' (masquerade ifname)] = Inr c"
    and msgs: "msgs = foldl (add_filter dflt getObj ifname)
      (c @ [AddTable IPv4Family ''filter'', AddTable IPv6Family ''filter'']) [IPv4Family, IPv6Family]"
    using assms(1) by (auto simp: firewall_msgs_def bindR_eq_Inr Let_def)
  have "counters fam c = []" for fam
    using applyPortForwardings_rules [OF c, of fam] by (simp add: counters_def)
  then have "counters fam msgs = [co fam]" for fam
    by (cases fam) (simp_all add: msgs counters_add_filter co_def [symmetric], simp_all add: counters_def co(1))
  then show ?thesis using co by (simp add: one_counter_def)
qed

lemma map_m_obj_update:
  "m_obj (updateCounter objs m) = m_obj m"
  by (auto simp: updateCounter_def split: sum.split nf_obj.split)

lemma apply_round_counters:
  assumes "nftables_ok nft" "netlink_frame (pf_nl pf)" "at_most_one d"
    and d'_def: "d' = fst (apply_round nft pf dir d)"
  shows "nd_metrics d' = nd_metrics d"
    and "counters fam (ruleset (nd_world d')) = counters fam (ruleset (nd_world d)) \<or>
      one_counter (ruleset (nd_world d')) fam \<and> \<not> one_counter (ruleset (nd_world d)) fam"
proof -
  let ?pf = "pf\<lparr>get_obj := GetObj nft (ruleset (nd_world d))\<rparr>"
  obtain w' errs where a: "Apply ?pf dir ''/'' (nd_world d) = (w', errs)" by (rule prod.exhaust)
  have d': "nd_metrics d' = nd_metrics d" "nd_world d' = w'"
    by (simp_all add: d'_def apply_round_def a Let_def)
  show "nd_metrics d' = nd_metrics d" by (rule d'(1))
  from Apply_ruleset [OF _ a] assms(2) consider "ruleset w' = ruleset (nd_world d)"
    | ifname where "firewall_msgs (pf_put16 pf) (default_counter pf) (GetObj nft (ruleset (nd_world d)))
        (f_forwardings dir) ifname = Inr (ruleset w')" by auto
  then show "counters fam (ruleset (nd_world d')) = counters fam (ruleset (nd_world d)) \<or>
      one_counter (ruleset (nd_world d')) fam \<and> \<not> one_counter (ruleset (nd_world d)) fam"
  proof cases
    case 2
    have "one_counter (ruleset w') fam \<and> (one_counter (ruleset (nd_world d)) fam \<longrightarrow>
        counters fam (ruleset w') = counters fam (ruleset (nd_world d)))"
      using counters_commit [OF 2 nftables_okD(1) [OF assms(1)]] assms(3) by (simp add: at_most_one_def)
    then show ?thesis unfolding d'(2) by blast
  qed (simp add: d')
qed

lemma scrape_counters:
  assumes "nftables_ok nft" "at_most_one d" and d'_def: "d' = fst (scrape nft i p d)"
  shows "map m_obj (nd_metrics d') = map m_obj (nd_metrics d)"
    and "one_counter (ruleset (nd_world d')) fam = one_counter (ruleset (nd_world d)) fam"
    and "counters fam (ruleset (nd_world d)) = [] \<Longrightarrow> counters fam (ruleset (nd_world d')) = []"
    and "counted b fam d' = counted b fam d"
proof -
  obtain fi objs rs where f: "fi = fst (m_obj (nd_metrics d ! i))" and
    r: "GetObjReset nft (ruleset (nd_world d)) fi = (rs, objs)"
    by (metis prod.exhaust)
  let ?m = "updateCounter objs (nd_metrics d ! i)"
  note ok = nftables_okD(2) [OF assms(1) r] nftables_okD(3,4) [OF assms(1)]
  have d': "d' = (if i < length (nd_metrics d)
      then d\<lparr>nd_world := (nd_world d)\<lparr>ruleset := rs\<rparr>, nd_metrics := (nd_metrics d)[i := ?m]\<rparr> else d)"
    using r by (simp add: d'_def scrape_def f [symmetric] Let_def)
  have len: "length (nd_metrics d) = 2"
    using assms(2) arg_cong [of "map m_obj (nd_metrics d)" _ length] by (force simp: at_most_one_def metrics0_def)
  have obj: "i < 2 \<Longrightarrow> m_obj (nd_metrics d ! i) = map m_obj metrics0 ! i"
    using assms(2) len by (metis at_most_one_def nth_map)
  have cs: "counters fam rs = counters fam (ruleset (nd_world d)) \<or>
      fam = fi \<and> objs = Inr (map ObjCounter (counters fam (ruleset (nd_world d)))) \<and>
      counters fam rs = map (\<lambda>co. co\<lparr>Packets := 0, Bytes := 0\<rparr>) (counters fam (ruleset (nd_world d)))" for fam
    using ok r by (cases "fam = fi"; cases objs) auto
  show "map m_obj (nd_metrics d') = map m_obj (nd_metrics d)"
    by (auto simp: d' map_update map_m_obj_update list_update_same_conv)
  show "one_counter (ruleset (nd_world d')) fam = one_counter (ruleset (nd_world d)) fam"
    using cs [of fam] by (auto simp: d' one_counter_nth)
  show "counters fam (ruleset (nd_world d)) = [] \<Longrightarrow> counters fam (ruleset (nd_world d')) = []"
    using cs [of fam] by (auto simp: d')
  let ?k = "case fam of IPv4Family \<Rightarrow> 0 :: nat | IPv6Family \<Rightarrow> 1"
  have k: "?k < 2" "i < 2 \<Longrightarrow> fi = fam \<longleftrightarrow> i = ?k"
    using obj by (cases fam; auto simp: f metrics0_def less_2_cases_iff)+
  consider "i \<ge> 2" | "i < 2" "fi \<noteq> fam" | "i < 2" "fi = fam" by linarith
  then show "counted b fam d' = counted b fam d"
  proof cases
    case 3
    from assms(2) have "counters fam (ruleset (nd_world d)) = [] \<or> (\<exists>co. counters fam (ruleset (nd_world d)) = [co])"
      by (auto simp: at_most_one_def one_counter_def)
    moreover have "case objs of Inl _ \<Rightarrow> counters fam rs = counters fam (ruleset (nd_world d))
        | Inr os \<Rightarrow> os = map ObjCounter (counters fam (ruleset (nd_world d))) \<and>
            counters fam rs = map (\<lambda>co. co\<lparr>Packets := 0, Bytes := 0\<rparr>) (counters fam (ruleset (nd_world d)))"
      using ok(2,3) r 3 by (auto split: sum.split)
    ultimately show ?thesis
      using 3 k len by (cases objs) (auto simp: d' counted_def metric_of_def updateCounter_def)
  qed (use k len cs [of fam] in \<open>simp_all add: d' counted_def metric_of_def\<close>)
qed

lemma of_nat_mod_2_64: "(of_nat (n mod 18446744073709551616) :: 64 word) = of_nat n"
  by (simp add: word_of_nat_eq_iff take_bit_eq_mod)

lemma forward_counters:
  assumes "nftables_ok nft" and d': "d' = fst (step_n nft d (EvForward f n))"
  shows "nd_metrics d' = nd_metrics d"
    and "one_counter (ruleset (nd_world d')) fam = one_counter (ruleset (nd_world d)) fam"
    and "counters fam (ruleset (nd_world d)) = [] \<Longrightarrow> counters fam (ruleset (nd_world d')) = []"
    and "one_counter (ruleset (nd_world d)) fam \<Longrightarrow> counted b fam d' = counted b fam d + traffic b fam (EvForward f n)"
proof -
  note ok = nftables_okD(5,6) [OF assms(1)]
  show "nd_metrics d' = nd_metrics d" by (simp add: d')
  show "one_counter (ruleset (nd_world d')) fam = one_counter (ruleset (nd_world d)) fam"
    by (cases "f = fam") (auto simp: d' one_counter_nth ok)
  show "counters fam (ruleset (nd_world d)) = [] \<Longrightarrow> counters fam (ruleset (nd_world d')) = []"
    by (cases "f = fam") (auto simp: d' ok)
  assume "one_counter (ruleset (nd_world d)) fam"
  then show "counted b fam d' = counted b fam d + traffic b fam (EvForward f n)"
    by (cases "f = fam") (auto simp: d' one_counter_def counted_def metric_of_def traffic_def ok of_nat_mod_2_64)
qed

lemma step_counters:
  assumes "nftables_ok nft" "at_most_one d" "framed e" and d': "d' = fst (step_n nft d e)"
  shows "map m_obj (nd_metrics d') = map m_obj (nd_metrics d)"
    and "one_counter (ruleset (nd_world d')) fam \<or> counters fam (ruleset (nd_world d')) = []"
    and "one_counter (ruleset (nd_world d)) fam \<Longrightarrow>
      one_counter (ruleset (nd_world d')) fam \<and> counted b fam d' = counted b fam d + traffic b fam e"
proof -
  from assms(2) have before: "counters fam (ruleset (nd_world d)) = [] \<or> one_counter (ruleset (nd_world d)) fam"
    by (simp add: at_most_one_def)
  have "map m_obj (nd_metrics d') = map m_obj (nd_metrics d) \<and>
    (one_counter (ruleset (nd_world d')) fam \<or> counters fam (ruleset (nd_world d')) = []) \<and>
    (one_counter (ruleset (nd_world d)) fam \<longrightarrow>
      one_counter (ruleset (nd_world d')) fam \<and> counted b fam d' = counted b fam d + traffic b fam e)"
  proof (cases e)
    case (EvApply pf dir)
    note a = apply_round_counters [OF assms(1) _ assms(2) refl, where pf = pf and dir = dir]
    show ?thesis
      using before a(1) a(2) [where fam = fam] assms(3)
      by (auto simp: d' EvApply framed_def traffic_def counted_def metric_of_def one_counter_nth)
  next
    case (EvUsr1 ifaces net1)
    then show ?thesis
      using before by (auto simp: d' usr1_round_def traffic_def counted_def metric_of_def split: sum.split fault.split)
  next
    case (EvScrape i p)
    note a = scrape_counters [OF assms(1,2) refl, where i = i and p = p]
    show ?thesis
      using before a(1) a(2) [where fam = fam] a(3) [where fam = fam] a(4) [where b = b and fam = fam]
      by (auto simp: d' EvScrape traffic_def split: position_n.split)
  next
    case (EvForward f n)
    note a = forward_counters [OF assms(1) refl, where d = d and f = f and n = n]
    show ?thesis
      using before a(1) a(2,3) [where fam = fam] a(4) [where fam = fam and b = b]
      by (auto simp: d' EvForward simp del: step_n.simps)
  qed
  then show "map m_obj (nd_metrics d') = map m_obj (nd_metrics d)"
    and "one_counter (ruleset (nd_world d')) fam \<or> counters fam (ruleset (nd_world d')) = []"
    and "one_counter (ruleset (nd_world d)) fam \<Longrightarrow>
      one_counter (ruleset (nd_world d')) fam \<and> counted b fam d' = counted b fam d + traffic b fam e"
    by auto
qed

lemma installed_at_most_one: "installed d \<Longrightarrow> at_most_one d"
  by (simp add: installed_def at_most_one_def)

interpretation nd: metered_machine "step_n nft" "\<lambda>d. nftables_ok nft \<and> installed d" framed "counted b fam" "traffic b fam"
  for nft b fam
proof unfold_locales
  fix d :: Netconfigd and e
  assume d: "nftables_ok nft \<and> installed d" "framed e"
  then have ok: "nftables_ok nft" and one: "one_counter (ruleset (nd_world d)) f" for f by (simp_all add: installed_def)
  note s = step_counters [OF ok installed_at_most_one [OF conjunct2 [OF d(1)]] d(2) refl]
  show "nftables_ok nft \<and> installed (fst (step_n nft d e))"
    using d(1) s(1) s(3) [OF one] by (simp add: installed_def)
  show "counted b fam (fst (step_n nft d e)) = counted b fam d + traffic b fam e"
    using s(3) [OF one, of fam b] by blast
qed

interpretation shape: guarded_machine "step_n nft" "\<lambda>_. True" framed "\<lambda>d. nftables_ok nft \<and> at_most_one d" "\<lambda>_. False"
  for nft
proof unfold_locales
  fix d :: Netconfigd and e
  assume d: "nftables_ok nft \<and> at_most_one d" "framed e"
  note s = step_counters [OF conjunct1 [OF d(1)] conjunct2 [OF d(1)] d(2) refl]
  show "nftables_ok nft \<and> at_most_one (fst (step_n nft d e))"
    unfolding at_most_one_def using d(1) s(1) s(2) by (auto simp: at_most_one_def)
qed simp_all

lemma sum_list_traffic:
  "sum_list (map (traffic True fam) es) = of_nat (length (filter (\<lambda>e. \<exists>n. e = EvForward fam n) es))"
  "sum_list (map (traffic False fam) es) =
     of_nat (sum_list (map (\<lambda>e. case e of EvForward f n \<Rightarrow> if f = fam then n else 0 | _ \<Rightarrow> 0) es))"
  by (induction es) (auto simp: traffic_def split: event_n.split)

lemma scrape_reports:
  assumes "nftables_ok nft" "installed d" "GetObjReset nft (ruleset (nd_world d)) fam = (rs, Inr objs)"
  shows "snd (scrape nft (case fam of IPv4Family \<Rightarrow> 0 | IPv6Family \<Rightarrow> 1) b d) = [Reported (unat (counted b fam d))]"
proof -
  let ?k = "case fam of IPv4Family \<Rightarrow> 0 :: nat | IPv6Family \<Rightarrow> 1"
  obtain co where co: "counters fam (ruleset (nd_world d)) = [co]"
    using assms(2) by (auto simp: installed_def one_counter_def)
  have len: "length (nd_metrics d) = 2"
    using assms(2) arg_cong [of "map m_obj (nd_metrics d)" _ length] by (force simp: installed_def metrics0_def)
  then have k: "?k < length (nd_metrics d)" by (cases fam) simp_all
  then have "m_obj (nd_metrics d ! ?k) = map m_obj metrics0 ! ?k"
    using assms(2) by (metis installed_def nth_map)
  then have "fst (m_obj (nd_metrics d ! ?k)) = fam" by (cases fam) (simp_all add: metrics0_def)
  moreover have "objs = [ObjCounter co]" using nftables_okD(4) [OF assms(1,3)] co by simp
  ultimately show ?thesis
    using k assms(3) co by (simp add: scrape_def updateCounter_def Let_def counted_def metric_of_def)
qed

section \<open>Properties\<close>


text \<open>
  The atomicity of a round matters: a scrape between the moment \<open>applyFirewall\<close> reads a counter and
  the moment it commits the ruleset makes the metric take what the kernel then gets back.
\<close>

lemma scrape_during_apply_counts_twice:
  assumes "nftables_ok nft" "\<And>fam. one_counter rs fam" "counters fam rs = [co]"
    and "GetObjReset nft rs fam = (rs', Inr objs)"
    and "firewall_msgs put16 dflt (GetObj nft rs) cfg ifname = Inr msgs"
  shows "m_packets (updateCounter (Inr objs) m) = m_packets m + of_nat (Packets co) \<and> counters fam msgs = [co]"
  using counters_commit [OF assms(5) nftables_okD(1) [OF assms(1)]] nftables_okD(4) [OF assms(1,4)] assms(2,3)
  by (simp add: updateCounter_def)

definition bump :: "family \<Rightarrow> (CounterObj \<Rightarrow> CounterObj) \<Rightarrow> nf_msg list \<Rightarrow> nf_msg list" where
  "bump fam f rs = map (\<lambda>msg. case msg of AddObj co \<Rightarrow> if fst (co_table co) = fam then AddObj (f co) else msg | _ \<Rightarrow> msg) rs"

lemma counters_bump:
  assumes "\<And>co. co_table (f co) = co_table co"
  shows "counters other (bump fam f rs) = (if other = fam then map f (counters fam rs) else counters other rs)"
  using assms by (induction rs) (auto simp: counters_def bump_def split: nf_msg.split)

definition plain_nft :: nftables where
  "plain_nft =
     \<lparr>GetObj = (\<lambda>rs fam. Inr (map ObjCounter (counters fam rs))),
      GetObjReset = (\<lambda>rs fam. (bump fam (\<lambda>co. co\<lparr>Packets := 0, Bytes := 0\<rparr>) rs, Inr (map ObjCounter (counters fam rs)))),
      forwards = (\<lambda>rs fam n. bump fam (\<lambda>co. co\<lparr>Packets := (Packets co + 1) mod 2 ^ 64, Bytes := (Bytes co + n) mod 2 ^ 64\<rparr>) rs)\<rparr>"

lemma plain_nft_ok: "nftables_ok plain_nft"
  by (simp add: nftables_ok_def plain_nft_def counters_bump)

definition old_ruleset :: "nf_msg list" where
  "old_ruleset = map (\<lambda>fam. AddObj \<lparr>co_table = (fam, ''filter''), co_name = ''fwded'', Bytes = 0, Packets = 0\<rparr>) [IPv4Family, IPv6Family]"


end
