(* ===== verification/Iface.thy ===== *)
theory Iface
  imports GoLib
begin

text \<open>
  \<open>networking/iface.go\<close>: interfaces and routes configured with ioctl(2), and \<open>networking/netlink.go\<close>:
  the listener for address changes. The kernel is a parameter: its state has type \<open>'k\<close>, a system call
  maps it to the next state; an ioctl also returns its argument as the kernel left it, and the errno.
\<close>

unbundle bit_operations_syntax

section \<open>The structures of ioctl\<close>

text \<open>Constants of package syscall on Linux.\<close>

definition AF_INET :: nat where "AF_INET = 2"
definition AF_NETLINK :: nat where "AF_NETLINK = 16"
definition SOCK_DGRAM :: nat where "SOCK_DGRAM = 2"
definition NETLINK_ROUTE :: nat where "NETLINK_ROUTE = 0"

datatype ioctl_request =
  SIOCSIFADDR | SIOCSIFNETMASK | SIOCSIFBRDADDR | SIOCGIFFLAGS | SIOCSIFFLAGS | SIOCADDRT | SIOCDELRT

definition IFF_UP :: "16 word" where "IFF_UP = 0x1"
definition IFF_RUNNING :: "16 word" where "IFF_RUNNING = 0x40"
definition RTF_UP :: "16 word" where "RTF_UP = 0x1"
definition RTF_GATEWAY :: "16 word" where "RTF_GATEWAY = 0x2"

record RawSockaddrInet4 =
  sa_Family :: nat
  sa_Addr :: bytes

record ifreqAddr =
  ia_name :: bytes
  ia_addr :: RawSockaddrInet4

record ifreqFlags =
  if_name :: bytes
  if_flags :: "16 word"

record rtentry =
  rt_dst4 :: RawSockaddrInet4
  rt_gateway4 :: RawSockaddrInet4
  rt_genmask :: RawSockaddrInet4
  rt_flags :: "16 word"

record 'k syscalls =
  sys_socket :: "'k \<Rightarrow> nat \<Rightarrow> nat \<Rightarrow> nat \<Rightarrow> 'k \<times> int result"
  sys_ioctl_addr :: "'k \<Rightarrow> int \<Rightarrow> ioctl_request \<Rightarrow> ifreqAddr \<Rightarrow> 'k \<times> nat"
  sys_ioctl_flags :: "'k \<Rightarrow> int \<Rightarrow> ioctl_request \<Rightarrow> ifreqFlags \<Rightarrow> 'k \<times> ifreqFlags \<times> nat"
  sys_ioctl_route :: "'k \<Rightarrow> int \<Rightarrow> ioctl_request \<Rightarrow> rtentry \<Rightarrow> 'k \<times> nat"
  sys_close :: "'k \<Rightarrow> int \<Rightarrow> 'k \<times> nat"
  sys_bind :: "'k \<Rightarrow> int \<Rightarrow> nat \<Rightarrow> nat \<Rightarrow> 'k \<times> unit result"
  sys_read :: "'k \<Rightarrow> int \<Rightarrow> nat \<Rightarrow> 'k \<times> bytes result"
  sys_pagesize :: nat

section \<open>Configsocket\<close>

record Configsocket =
  cs_fd :: int
  cs_name :: bytes

definition NewConfigSocket :: "'k syscalls \<Rightarrow> string \<Rightarrow> 'k \<Rightarrow> 'k \<times> Configsocket result" where
  "NewConfigSocket sys iface k =
     (case sys_socket sys k AF_INET SOCK_DGRAM 0 of
        (k', Inl e) \<Rightarrow> (k', Inl e)
      | (k', Inr fd) \<Rightarrow> (k', Inr \<lparr>cs_fd = fd, cs_name = go_copy (replicate 16 0) (go_bytes iface)\<rparr>))"

definition Close_socket :: "'k syscalls \<Rightarrow> Configsocket \<Rightarrow> 'k \<Rightarrow> 'k \<times> nat" where
  "Close_socket sys cs k = sys_close sys k (cs_fd cs)"

definition inet4 :: "bytes \<Rightarrow> RawSockaddrInet4" where
  "inet4 addr = \<lparr>sa_Family = AF_INET, sa_Addr = go_copy (replicate 4 0) addr\<rparr>"

definition ioctl_addr :: "'k syscalls \<Rightarrow> Configsocket \<Rightarrow> ioctl_request \<Rightarrow> bytes \<Rightarrow> 'k \<Rightarrow> 'k \<times> nat" where
  "ioctl_addr sys cs request addr k =
     sys_ioctl_addr sys k (cs_fd cs) request \<lparr>ia_name = cs_name cs, ia_addr = inet4 addr\<rparr>"

definition SetAddress :: "'k syscalls \<Rightarrow> Configsocket \<Rightarrow> bytes \<Rightarrow> 'k \<Rightarrow> 'k \<times> nat" where
  "SetAddress sys cs addr = ioctl_addr sys cs SIOCSIFADDR addr"

definition SetNetmask :: "'k syscalls \<Rightarrow> Configsocket \<Rightarrow> bytes \<Rightarrow> 'k \<Rightarrow> 'k \<times> nat" where
  "SetNetmask sys cs addr = ioctl_addr sys cs SIOCSIFNETMASK addr"

definition SetBroadcast :: "'k syscalls \<Rightarrow> Configsocket \<Rightarrow> bytes \<Rightarrow> 'k \<Rightarrow> 'k \<times> nat" where
  "SetBroadcast sys cs addr = ioctl_addr sys cs SIOCSIFBRDADDR addr"

definition Up :: "'k syscalls \<Rightarrow> Configsocket \<Rightarrow> 'k \<Rightarrow> 'k \<times> nat" where
  "Up sys cs k =
     (case sys_ioctl_flags sys k (cs_fd cs) SIOCGIFFLAGS \<lparr>if_name = cs_name cs, if_flags = 0\<rparr> of
        (k', req, errno) \<Rightarrow>
          if errno \<noteq> 0 then (k', errno)
          else
            let req = req\<lparr>if_flags := if_flags req OR IFF_UP\<rparr>;
                req = req\<lparr>if_flags := if_flags req OR IFF_RUNNING\<rparr>
            in (case sys_ioctl_flags sys k' (cs_fd cs) SIOCSIFFLAGS req of (k'', _, errno) \<Rightarrow> (k'', errno)))"

definition route_request :: "bytes \<Rightarrow> bytes \<Rightarrow> bytes \<Rightarrow> rtentry" where
  "route_request dst gateway genmask =
     \<lparr>rt_dst4 = inet4 dst, rt_gateway4 = inet4 gateway, rt_genmask = inet4 genmask,
      rt_flags = RTF_UP OR RTF_GATEWAY\<rparr>"

definition AddRoute :: "'k syscalls \<Rightarrow> Configsocket \<Rightarrow> bytes \<Rightarrow> bytes \<Rightarrow> bytes \<Rightarrow> 'k \<Rightarrow> 'k \<times> nat" where
  "AddRoute sys cs dst gateway genmask k =
     sys_ioctl_route sys k (cs_fd cs) SIOCADDRT (route_request dst gateway genmask)"

definition DelRoute :: "'k syscalls \<Rightarrow> Configsocket \<Rightarrow> bytes \<Rightarrow> bytes \<Rightarrow> bytes \<Rightarrow> 'k \<Rightarrow> 'k \<times> nat" where
  "DelRoute sys cs dst gateway genmask k =
     sys_ioctl_route sys k (cs_fd cs) SIOCDELRT (route_request dst gateway genmask)"

section \<open>netlink.go\<close>

record netlinkListener =
  nl_fd :: int
  nl_buf :: nat

text \<open>\<open>1 << (RTNLGRP_IPV4_IFADDR - 1) | 1 << (RTNLGRP_IPV6_IFADDR - 1)\<close>; the groups are 5 and 9.\<close>

definition ifaddr_groups :: nat where
  "ifaddr_groups = push_bit (5 - 1) 1 OR push_bit (9 - 1) 1"

definition listenNetlink :: "'k syscalls \<Rightarrow> 'k \<Rightarrow> 'k \<times> netlinkListener result" where
  "listenNetlink sys k =
     (case sys_socket sys k AF_NETLINK SOCK_DGRAM NETLINK_ROUTE of
        (k', Inl e) \<Rightarrow> (k', Inl (prefixed ''socket(AF_NETLINK, SOCK_DGRAM, NETLINK_ROUTE)'' e))
      | (k', Inr fd) \<Rightarrow>
          (case sys_bind sys k' fd AF_NETLINK ifaddr_groups of
             (k'', Inl e) \<Rightarrow> (k'', Inl (prefixed ''bind'' e))
           | (k'', Inr _) \<Rightarrow> (k'', Inr \<lparr>nl_fd = fd, nl_buf = sys_pagesize sys\<rparr>)))"

definition ReadMsgs :: "'k syscalls \<Rightarrow> (bytes \<Rightarrow> 'm list result) \<Rightarrow> netlinkListener \<Rightarrow> 'k \<Rightarrow> 'k \<times> 'm list result" where
  "ReadMsgs sys parse l k =
     (case sys_read sys k (nl_fd l) (nl_buf l) of
        (k', Inl e) \<Rightarrow> (k', Inl (prefixed ''Read'' e))
      | (k', Inr b) \<Rightarrow> (k', case parse b of Inl e \<Rightarrow> Inl (prefixed ''ParseNetlinkMessage'' e) | Inr msgs \<Rightarrow> Inr msgs))"

section \<open>What the kernel promises\<close>

record device =
  d_addr :: bytes
  d_mask :: bytes
  d_broadcast :: bytes
  d_flags :: "16 word"

text \<open>The name of a request is a C string: it ends at its first zero byte (or at the end of the field).\<close>

definition c_string :: "bytes \<Rightarrow> string" where
  "c_string bs = go_string (takeWhile (\<lambda>b. b \<noteq> 0) bs)"

definition set_address :: "ioctl_request \<Rightarrow> bytes \<Rightarrow> device \<Rightarrow> device" where
  "set_address request a d =
     (case request of
        SIOCSIFADDR \<Rightarrow> d\<lparr>d_addr := a\<rparr>
      | SIOCSIFNETMASK \<Rightarrow> d\<lparr>d_mask := a\<rparr>
      | SIOCSIFBRDADDR \<Rightarrow> d\<lparr>d_broadcast := a\<rparr>
      | _ \<Rightarrow> d)"

text \<open>
  netdevice(7): a request that succeeds concerns the named device only; SIOCGIFFLAGS returns the
  flags in the request; opening a socket changes no device.
\<close>

definition netdevice_ok :: "'k syscalls \<Rightarrow> ('k \<Rightarrow> string \<Rightarrow> device option) \<Rightarrow> bool" where
  "netdevice_ok sys dev \<longleftrightarrow>
     (\<forall>k domain typ proto k' r. sys_socket sys k domain typ proto = (k', r) \<longrightarrow> dev k' = dev k) \<and>
     (\<forall>k fd request req k'. sys_ioctl_addr sys k fd request req = (k', 0) \<longrightarrow>
        dev k' = (dev k)(c_string (ia_name req) :=
          map_option (set_address request (sa_Addr (ia_addr req))) (dev k (c_string (ia_name req))))) \<and>
     (\<forall>k fd req k' req'. sys_ioctl_flags sys k fd SIOCGIFFLAGS req = (k', req', 0) \<longrightarrow>
        dev k' = dev k \<and> if_name req' = if_name req \<and>
        map_option d_flags (dev k (c_string (if_name req))) = Some (if_flags req')) \<and>
     (\<forall>k fd req k' req'. sys_ioctl_flags sys k fd SIOCSIFFLAGS req = (k', req', 0) \<longrightarrow>
        dev k' = (dev k)(c_string (if_name req) :=
          map_option (d_flags_update (\<lambda>_. if_flags req)) (dev k (c_string (if_name req)))))"

lemma netdevice_okD:
  assumes "netdevice_ok sys dev"
  shows "sys_socket sys k domain typ proto = (k', r) \<Longrightarrow> dev k' = dev k"
    and "sys_ioctl_addr sys k fd request req = (k', 0) \<Longrightarrow>
      dev k' = (dev k)(c_string (ia_name req) :=
        map_option (set_address request (sa_Addr (ia_addr req))) (dev k (c_string (ia_name req))))"
    and "sys_ioctl_flags sys k fd SIOCGIFFLAGS freq = (k', freq', 0) \<Longrightarrow>
      dev k' = dev k \<and> if_name freq' = if_name freq \<and>
      map_option d_flags (dev k (c_string (if_name freq))) = Some (if_flags freq')"
    and "sys_ioctl_flags sys k fd SIOCSIFFLAGS freq = (k', freq', 0) \<Longrightarrow>
      dev k' = (dev k)(c_string (if_name freq) :=
        map_option (d_flags_update (\<lambda>_. if_flags freq)) (dev k (c_string (if_name freq))))"
  using assms unfolding netdevice_ok_def by - (elim conjE, metis)+

lemma c_string_copy:
  assumes "length s < 16" "char_of (0 :: nat) \<notin> set s"
  shows "c_string (go_copy (replicate 16 0) (go_bytes s)) = s"
proof -
  have nz: "(of_nat (of_char c) :: byte) \<noteq> 0" if "c \<in> set s" for c
  proof
    assume "(of_nat (of_char c) :: byte) = 0"
    then have "256 dvd (of_char c :: nat)" by (simp add: word_of_nat_eq_0_iff)
    moreover have "(of_char c :: nat) < 256" by simp
    ultimately have "(of_char c :: nat) = 0" by (metis dvd_imp_le gr0I not_le)
    then have "c = char_of (0 :: nat)" by (metis char_of_char)
    then show False using that assms(2) by simp
  qed
  have "takeWhile (\<lambda>b. b \<noteq> 0) (go_bytes s @ drop (length s) (replicate 16 0)) = go_bytes s"
    using nz assms(1) by (subst takeWhile_append2) (auto simp: go_bytes_def)
  then show ?thesis
    using assms(1) by (auto simp: c_string_def go_copy_def go_bytes_def go_string_def unat_of_nat intro: map_idI)
qed

section \<open>Properties\<close>

lemma inet4_addr:
  "length a = 4 \<Longrightarrow> sa_Addr (inet4 a) = a"
  "length b = 16 \<Longrightarrow> To4 b \<noteq> [] \<Longrightarrow> sa_Addr (inet4 b) = [0, 0, 0, 0]"
proof -
  assume "length b = 16" "To4 b \<noteq> []"
  then have "take 12 b = v4InV6Prefix" by (auto simp: To4_def split: if_splits)
  from arg_cong [OF this, of "take 4"] have "take 4 b = take 4 v4InV6Prefix" by simp
  also have "\<dots> = [0, 0, 0, 0]" by (simp add: v4InV6Prefix_def numeral_eq_Suc)
  finally have "take 4 b = [0, 0, 0, 0]" .
  then show "sa_Addr (inet4 b) = [0, 0, 0, 0]" using \<open>length b = 16\<close> by (simp add: inet4_def go_copy_def)
qed (simp add: inet4_def)

text \<open>
  C39. An interface configured with a socket (address, netmask, broadcast address, up) has exactly the
  addresses that were given as four bytes, and is up and running with its other flags kept; no other
  interface changes. But an IPv4 address in its 16-byte form (what \<open>net.ParseIP\<close> and \<open>net.IPv4\<close>
  return) is configured as 0.0.0.0.
\<close>

theorem interface_brought_up:
  assumes "netdevice_ok sys dev" "length iface < 16" "char_of (0 :: nat) \<notin> set iface"
    and "NewConfigSocket sys iface k = (k0, Inr cs)" "SetAddress sys cs addr k0 = (k1, 0)"
      "SetNetmask sys cs netmask k1 = (k2, 0)" "SetBroadcast sys cs brd k2 = (k3, 0)" "Up sys cs k3 = (k4, 0)"
    and "length netmask = 4" "length brd = 4" "length addr = 4 \<or> length addr = 16 \<and> To4 addr \<noteq> []"
  shows "\<exists>d. dev k iface = Some d \<and> dev k4 = (dev k)(iface \<mapsto>
    \<lparr>d_addr = (if length addr = 4 then addr else [0, 0, 0, 0]), d_mask = netmask, d_broadcast = brd,
     d_flags = d_flags d OR 0x41\<rparr>)"
proof -
  note ok = netdevice_okD [OF assms(1)]
  obtain fd where cs: "cs = \<lparr>cs_fd = fd, cs_name = go_copy (replicate 16 0) (go_bytes iface)\<rparr>"
    and k0: "dev k0 = dev k"
    using assms(4) ok(1) by (force simp: NewConfigSocket_def split: prod.splits sum.splits)
  have name: "c_string (cs_name cs) = iface" by (simp add: cs c_string_copy assms(2,3))
  have k1: "dev k1 = (dev k)(iface := map_option (d_addr_update (\<lambda>_. sa_Addr (inet4 addr))) (dev k iface))"
    using ok(2) [of k0 fd SIOCSIFADDR _ k1] assms(5) name k0
    by (simp add: SetAddress_def ioctl_addr_def cs set_address_def [abs_def])
  have k2: "dev k2 = (dev k1)(iface := map_option (d_mask_update (\<lambda>_. netmask)) (dev k1 iface))"
    using ok(2) [of k1 fd SIOCSIFNETMASK _ k2] assms(6,9) name inet4_addr(1)
    by (simp add: SetNetmask_def ioctl_addr_def cs set_address_def [abs_def])
  have k3: "dev k3 = (dev k2)(iface := map_option (d_broadcast_update (\<lambda>_. brd)) (dev k2 iface))"
    using ok(2) [of k2 fd SIOCSIFBRDADDR _ k3] assms(7,10) name inet4_addr(1)
    by (simp add: SetBroadcast_def ioctl_addr_def cs set_address_def [abs_def])
  obtain k' req where get: "sys_ioctl_flags sys k3 fd SIOCGIFFLAGS \<lparr>if_name = cs_name cs, if_flags = 0\<rparr> = (k', req, 0)"
    and set: "\<exists>req'. sys_ioctl_flags sys k' fd SIOCSIFFLAGS
        (req\<lparr>if_flags := (if_flags req OR IFF_UP) OR IFF_RUNNING\<rparr>) = (k4, req', 0)"
    using assms(8) by (force simp: Up_def cs Let_def split: prod.splits if_splits)
  obtain d where d: "dev k3 iface = Some d" "if_flags req = d_flags d" "if_name req = cs_name cs" "dev k' = dev k3"
    using ok(3) [OF get] name by auto
  have k4: "dev k4 = (dev k3)(iface \<mapsto> d\<lparr>d_flags := d_flags d OR 0x41\<rparr>)"
    using set ok(4) name d by (auto simp: IFF_UP_def IFF_RUNNING_def or.assoc)
  show ?thesis
    using d(1) assms(11) inet4_addr unfolding k4 k3 k2 k1 by (cases "dev k iface") auto
qed

text \<open>A kernel with one device \<open>lan0\<close>, whose state is the device.\<close>

definition lan0_only :: "device \<Rightarrow> string \<Rightarrow> device option" where
  "lan0_only d = [''lan0'' \<mapsto> d]"

definition one_device :: "device syscalls" where
  "one_device =
     \<lparr>sys_socket = (\<lambda>d _ _ _. (d, Inr 3)),
      sys_ioctl_addr = (\<lambda>d _ request req.
        if c_string (ia_name req) = ''lan0'' then (set_address request (sa_Addr (ia_addr req)) d, 0) else (d, 19)),
      sys_ioctl_flags = (\<lambda>d _ request req.
        if c_string (if_name req) \<noteq> ''lan0'' then (d, req, 19)
        else if request = SIOCGIFFLAGS then (d, req\<lparr>if_flags := d_flags d\<rparr>, 0)
        else (d\<lparr>d_flags := if_flags req\<rparr>, req, 0)),
      sys_ioctl_route = (\<lambda>d _ _ _. (d, 0)), sys_close = (\<lambda>d _. (d, 0)), sys_bind = (\<lambda>d _ _ _. (d, Inr ())),
      sys_read = (\<lambda>d _ _. (d, Inr [])), sys_pagesize = 4096\<rparr>"

lemma one_device_ok: "netdevice_ok one_device lan0_only"
  by (auto simp: netdevice_ok_def one_device_def lan0_only_def fun_eq_iff split: if_splits)

lemma interface_brought_up_witness:
  "\<exists>cs k1 k2 k3 k4 d0. NewConfigSocket one_device ''lan0'' d0 = (d0, Inr cs) \<and>
     SetAddress one_device cs (IPv4 192 168 42 1) d0 = (k1, 0) \<and> SetNetmask one_device cs [255, 255, 255, 0] k1 = (k2, 0) \<and>
     SetBroadcast one_device cs [192, 168, 42, 255] k2 = (k3, 0) \<and> Up one_device cs k3 = (k4, 0) \<and>
     d_addr k4 = [0, 0, 0, 0] \<and> d_flags k4 = 0x1041"
proof -
  have nul: "char_of (0 :: nat) \<notin> set ''lan0''" by (simp add: char_of_def)
  let ?d = "\<lparr>d_addr = [], d_mask = [], d_broadcast = [], d_flags = 0x1000\<rparr>"
  obtain cs where cs: "NewConfigSocket one_device ''lan0'' ?d = (?d, Inr cs)" and "c_string (cs_name cs) = ''lan0''"
    using c_string_copy [of "''lan0''", OF _ nul] by (simp add: NewConfigSocket_def one_device_def)
  then obtain k1 k2 k3 k4 where r: "SetAddress one_device cs (IPv4 192 168 42 1) ?d = (k1, 0)"
    "SetNetmask one_device cs [255, 255, 255, 0] k1 = (k2, 0)" "SetBroadcast one_device cs [192, 168, 42, 255] k2 = (k3, 0)"
    "Up one_device cs k3 = (k4, 0)"
    by (simp add: SetAddress_def SetNetmask_def SetBroadcast_def ioctl_addr_def Up_def one_device_def Let_def)
  have "lan0_only k4 ''lan0'' = Some \<lparr>d_addr = [0, 0, 0, 0], d_mask = [255, 255, 255, 0],
      d_broadcast = [192, 168, 42, 255], d_flags = 0x1000 OR 0x41\<rparr>"
    using interface_brought_up [OF one_device_ok _ nul cs r]
    by (auto simp: lan0_only_def To4_def IPv4_def v4InV6Prefix_def)
  then have "k4 = \<lparr>d_addr = [0, 0, 0, 0], d_mask = [255, 255, 255, 0], d_broadcast = [192, 168, 42, 255], d_flags = 0x1041\<rparr>"
    by (simp add: lan0_only_def)
  then have "d_addr k4 = [0, 0, 0, 0] \<and> d_flags k4 = 0x1041" by simp
  with cs r show ?thesis by blast
qed

end
