(* ===== verification/WireGuard.thy ===== *)
theory WireGuard
  imports NetconfigProps
begin

text \<open>
  What \<open>applyWireGuard\<close> leaves behind, errors included: the devices of the file up to the first
  failure, each with the whole of its configuration.
\<close>

section \<open>The kernel's side\<close>

abbreviation link_names :: "World \<Rightarrow> string set" where
  "link_names w \<equiv> l_name ` set (links w)"

text \<open>Adding a link adds it and keeps the others and all devices; EEXIST means that there is one.\<close>

definition link_add_ok :: "netlink \<Rightarrow> wgctrl \<Rightarrow> bool" where
  "link_add_ok nl cl \<longleftrightarrow>
     (\<forall>w w' n. nl_call nl (LinkAdd ''wireguard'' n) w = Inr w' \<longrightarrow>
        link_names w' = insert n (link_names w) \<and> wg_devices w' = wg_devices w) \<and>
     (\<forall>w e n. nl_call nl (LinkAdd ''wireguard'' n) w = Inl e \<and> wg_exists cl n \<longrightarrow> n \<in> link_names w)"

section \<open>A configured device\<close>

definition allowed_ip :: "string \<Rightarrow> address \<Rightarrow> bool" where
  "allowed_ip s a \<longleftrightarrow> (\<exists>net. ParseCIDR s = Inr net \<and> a = network_of net)"

definition peer_for :: "wgctrl \<Rightarrow> wireguardPeer \<Rightarrow> bytes \<times> bytes option \<times> address list \<Rightarrow> bool" where
  "peer_for cl p c \<longleftrightarrow>
     (case c of (key, addr, ips) \<Rightarrow> wg_key cl (PublicKey p) = Inr key \<and>
        (case addr of None \<Rightarrow> Endpoint p = '''' | Some a \<Rightarrow> Endpoint p \<noteq> '''' \<and> wg_resolve cl (Endpoint p) = Inr a) \<and>
        list_all2 allowed_ip (AllowedIPs p) ips)"

definition device_for ::
    "wgctrl \<Rightarrow> wireguardInterface \<Rightarrow> string \<times> bytes \<times> int \<times> (bytes \<times> bytes option \<times> address list) list \<Rightarrow> bool" where
  "device_for cl iface dev \<longleftrightarrow>
     (case dev of (name, key, port, peers) \<Rightarrow> name = wg_Name iface \<and> wg_key cl (PrivateKey iface) = Inr key \<and>
        port = wg_Port iface \<and> list_all2 (peer_for cl) (Peers iface) peers)"

lemma wg_ips_Inr: "wg_ips ips = Inr as \<Longrightarrow> list_all2 allowed_ip ips as"
  by (induction ips arbitrary: as) (auto simp: bindR_eq_Inr allowed_ip_def simp del: split_paired_Ex)

lemma wg_peers_Inr: "wg_peers cl ps = Inr cs \<Longrightarrow> list_all2 (peer_for cl) ps cs"
  by (induction ps arbitrary: cs) (auto simp: bindR_eq_Inr peer_for_def wg_ips_Inr split: if_splits)

section \<open>One interface, all interfaces\<close>

lemma add_wg_link_outcome:
  assumes "link_add_ok nl cl" "add_wg_link nl cl n w = (w1, r)"
  shows "case r of Inl _ \<Rightarrow> w1 = w | Inr _ \<Rightarrow> link_names w1 = insert n (link_names w) \<and> wg_devices w1 = wg_devices w"
proof (cases "nl_call nl (LinkAdd ''wireguard'' n) w")
  case (Inl e)
  then have "wg_exists cl n \<Longrightarrow> n \<in> link_names w" using assms(1) unfolding link_add_ok_def by blast
  then show ?thesis using Inl assms(2) by (auto simp: add_wg_link_def perform_def split: if_splits)
next
  case (Inr w2)
  then have "link_names w2 = insert n (link_names w) \<and> wg_devices w2 = wg_devices w"
    using assms(1) unfolding link_add_ok_def by blast
  then show ?thesis using Inr assms(2) by (auto simp: add_wg_link_def perform_def)
qed

lemma apply_wg_outcome:
  assumes "link_add_ok nl cl" "apply_wg nl cl iface w = (w', r)"
  shows "link_names w \<subseteq> link_names w' \<and>
    (case r of
       Inl _ \<Rightarrow> wg_devices w' = wg_devices w
     | Inr _ \<Rightarrow> wg_Name iface \<in> link_names w' \<and> (\<exists>dev. device_for cl iface dev \<and> wg_devices w' = wg_devices w @ [dev]))"
proof -
  obtain w1 r1 where add: "add_wg_link nl cl (wg_Name iface) w = (w1, r1)" by (rule prod.exhaust)
  note added = add_wg_link_outcome [OF assms(1) add]
  show ?thesis
  proof (cases r1)
    case (Inl e)
    then have "w' = w" "r = Inl e" using assms(2) add added by (auto simp: apply_wg_def bindIO_def)
    then show ?thesis by simp
  next
    case (Inr u)
    then show ?thesis
      using assms(2) add added
      by (auto simp: apply_wg_def bindIO_def liftIO_def device_for_def wg_peers_Inr split: sum.splits)
  qed
qed

lemma each_wg_outcome:
  assumes "link_add_ok nl cl" "eachIO (apply_wg nl cl) ifaces w = (w', r)"
  shows "link_names w \<subseteq> link_names w' \<and>
    (\<exists>k devs. k \<le> length ifaces \<and> (r = Inr () \<longleftrightarrow> k = length ifaces) \<and>
       list_all2 (device_for cl) (take k ifaces) devs \<and> wg_devices w' = wg_devices w @ devs \<and>
       wg_Name ` set (take k ifaces) \<subseteq> link_names w')"
  using assms(2)
proof (induction ifaces arbitrary: w)
  case Nil
  then show ?case by (auto simp: retIO_def)
next
  case (Cons iface ifaces)
  obtain w1 r1 where step: "apply_wg nl cl iface w = (w1, r1)" by (cases "apply_wg nl cl iface w")
  note one = apply_wg_outcome [OF assms(1) step]
  show ?case
  proof (cases r1)
    case (Inl e)
    then have "w' = w1" "r = Inl e" using Cons.prems step by (auto simp: bindIO_def)
    then show ?thesis using one Inl by (intro conjI exI [of _ 0] exI [of _ "[]"]) auto
  next
    case (Inr u)
    then have "eachIO (apply_wg nl cl) ifaces w1 = (w', r)" using Cons.prems step by (simp add: bindIO_def)
    from Cons.IH [OF this] obtain k devs where k: "k \<le> length ifaces" "r = Inr () \<longleftrightarrow> k = length ifaces"
      "list_all2 (device_for cl) (take k ifaces) devs" "wg_devices w' = wg_devices w1 @ devs"
      "wg_Name ` set (take k ifaces) \<subseteq> link_names w'" "link_names w1 \<subseteq> link_names w'" by blast
    obtain dev where dev: "device_for cl iface dev" "wg_devices w1 = wg_devices w @ [dev]" "wg_Name iface \<in> link_names w1"
      using one Inr by auto
    have "link_names w \<subseteq> link_names w'" using one k(6) by blast
    then show ?thesis
      using k dev by (intro conjI exI [of _ "Suc k"] exI [of _ "dev # devs"]) auto
  qed
qed

section \<open>Property\<close>


definition demo_wg :: wgctrl where
  "demo_wg = \<lparr>wg_handles = Inr (), wg_exists = (\<lambda>_. False),
     wg_key = (\<lambda>s. if s = '''' then Inl (Err ''wgtypes: incorrect key size'') else Inr [1]),
     wg_resolve = (\<lambda>_. Inl (Err ''no such host'')), wg_configure = (\<lambda>_ _ _ _. Inr ())\<rparr>"

definition demo_tunnel :: "string \<Rightarrow> wireguardInterface" where
  "demo_tunnel key = \<lparr>wg_Name = ''wg0'', PrivateKey = key, wg_Port = 51820, Peers = []\<rparr>"


end
