(* ===== verification/Config.thy ===== *)
theory Config
  imports GoLib
begin

text \<open>
  The package \<open>config\<close>: command line, defaults and the exported variables (\<open>config.go\<close>, \<open>defaults.go\<close>,
  \<open>declarations.go\<close>), and \<open>db/db.go\<close>, which stores leases in the database of the configured directory.
  The configuration engine (viper), the file system and the database are parameters. A function that
  may end the process returns an outcome.
\<close>

section \<open>Outcomes\<close>

datatype 'a outcome = Goes_on 'a | Exit nat | Panics string

fun bindO :: "'a outcome \<Rightarrow> ('a \<Rightarrow> 'b outcome) \<Rightarrow> 'b outcome" where
  "bindO (Goes_on x) f = f x"
| "bindO (Exit n) f = Exit n"
| "bindO (Panics s) f = Panics s"

lemma bindO_eq_Goes_on [simp]: "bindO m f = Goes_on y \<longleftrightarrow> (\<exists>x. m = Goes_on x \<and> f x = Goes_on y)"
  by (cases m) auto

section \<open>The variables of the package\<close>

definition Version :: string where "Version = ''0.1''"
definition Title :: string where "Title = ''Rout5''"

datatype config_value = VBool bool | VInt int | VString string | VStrings "string list"

record 'v viper =
  SetDefault :: "'v \<Rightarrow> string \<Rightarrow> (string \<times> config_value) list \<Rightarrow> 'v"
  GetString :: "'v \<Rightarrow> string \<Rightarrow> string"
  GetStringSlice :: "'v \<Rightarrow> string \<Rightarrow> string list"
  GetBool :: "'v \<Rightarrow> string \<Rightarrow> bool"
  MergeInConfig :: "'v \<Rightarrow> string list \<Rightarrow> 'v \<times> unit result"
  ReadConfig :: "'v \<Rightarrow> bytes \<Rightarrow> 'v \<times> unit result"
  SafeWriteConfigAs :: "'v \<Rightarrow> string \<Rightarrow> unit result"
  ConfigFileUsed :: "'v \<Rightarrow> string"

datatype log_level = DebugLevel | TraceLevel | InfoLevel

record 'v Config =
  Snek :: 'v
  GenConfig :: bool
  NoColor :: bool
  DataDirectory :: string
  PreferredWAN :: "string list"
  PreferredLAN :: "string list"
  DHCPEnabled :: bool
  DHCPInterfaces :: "string list"
  DHCPLeaseTime :: duration
  AdminHTTP :: "string list"
  AdminSSH :: "string list"
  Debug :: bool
  Trace :: bool
  Filename :: string
  customconfig :: bool
  configLocations :: "string list"
  prefConfigLocation :: string
  globalLevel :: log_level

definition config0 :: "'v \<Rightarrow> 'v Config" where
  "config0 v =
     \<lparr>Snek = v, GenConfig = False, NoColor = True, DataDirectory = '''', PreferredWAN = [], PreferredLAN = [],
      DHCPEnabled = True, DHCPInterfaces = [], DHCPLeaseTime = 0, AdminHTTP = [], AdminSSH = [], Debug = False, Trace = False, Filename = '''',
      customconfig = False, configLocations = [], prefConfigLocation = ''/etc/'' @ Title,
      globalLevel = TraceLevel\<rparr>"

text \<open>The operating system: arguments, \<open>runtime.GOOS\<close>, and what the file calls answer.\<close>

record os_env =
  os_Args :: "string list"
  GOOS :: string
  stat_NotExist :: "string \<Rightarrow> bool"
  MkdirAll :: "string \<Rightarrow> unit result"
  open_read :: "string \<Rightarrow> bytes result"

section \<open>config.go\<close>

definition writeConfig :: "'v viper \<Rightarrow> os_env \<Rightarrow> 'v Config \<Rightarrow> 'v Config outcome" where
  "writeConfig vp os c =
     (case (if stat_NotExist os (prefConfigLocation c) then MkdirAll os (prefConfigLocation c) else Inr ()) of
        Inl _ \<Rightarrow> Exit 1
      | Inr _ \<Rightarrow>
          let newconfig = prefConfigLocation c @ ''/'' @ ''config.toml'' in
          (case SafeWriteConfigAs vp (Snek c) newconfig of
             Inl _ \<Rightarrow> Exit 1
           | Inr _ \<Rightarrow> Goes_on (c\<lparr>Filename := newconfig\<rparr>)))"

text \<open>A file that cannot be opened panics; errors of reading it are only printed.\<close>

definition loadCustomConfig :: "'v viper \<Rightarrow> os_env \<Rightarrow> string \<Rightarrow> 'v Config \<Rightarrow> 'v Config outcome" where
  "loadCustomConfig vp os path c =
     (case open_read os path of
        Inl e \<Rightarrow> Panics (''config file open fatal error: '' @ (case e of Err m \<Rightarrow> m | Panic m \<Rightarrow> m))
      | Inr buf \<Rightarrow> (case ReadConfig vp (Snek c) buf of (v, _) \<Rightarrow> Goes_on (c\<lparr>Snek := v, customconfig := True\<rparr>)))"

text \<open>What \<open>printUsage\<close> writes, line by line, before the process exits.\<close>

definition usage :: "string list" where
  "usage =
     ['''', Title @ '' v'' @ Version @ '' Usage'', '''',
      ''-c <config.toml> - Specify config file'',
      ''--nocolor - disable color and banner '',
      ''--banner - show banner + version and exit'',
      ''--genconfig - write default config to '' @ [char_of (39 :: nat)] @ ''default.toml'' @ [char_of (39 :: nat)] @ '' then exit'']"

definition printUsage :: "'a outcome" where
  [simp]: "printUsage = Exit 0"

text \<open>The loop of \<open>argParse\<close>, at index \<open>i\<close> with the arguments from there on.\<close>

fun argParse_loop :: "'v viper \<Rightarrow> os_env \<Rightarrow> nat \<Rightarrow> string list \<Rightarrow> 'v Config \<Rightarrow> 'v Config outcome" where
  "argParse_loop vp os i [] c = Goes_on c"
| "argParse_loop vp os i (arg # rest) c =
     (if arg = ''-h'' then printUsage
      else if arg = ''--genconfig'' then argParse_loop vp os (i + 1) rest (c\<lparr>GenConfig := True\<rparr>)
      else if arg = ''--config'' \<or> arg = ''-c'' then
        (if int (length (os_Args os)) \<le> int i - 1 then Panics ''syntax error! expected file after -c''
         else if i + 1 \<ge> length (os_Args os) then Panics ''index out of range''
         else bindO (loadCustomConfig vp os (os_Args os ! (i + 1)) c) (argParse_loop vp os (i + 1) rest))
      else argParse_loop vp os (i + 1) rest c)"

definition argParse :: "'v viper \<Rightarrow> os_env \<Rightarrow> 'v Config \<Rightarrow> 'v Config outcome" where
  "argParse vp os c = argParse_loop vp os 0 (os_Args os) c"

definition setConfigFileLocations :: "os_env \<Rightarrow> 'v Config \<Rightarrow> 'v Config" where
  "setConfigFileLocations os c =
     (let c = c\<lparr>configLocations := configLocations c @ [''./'']\<rparr> in
      if GOOS os \<noteq> ''windows''
      then c\<lparr>configLocations := configLocations c @
               [prefConfigLocation c, ''/etc/'' @ Title @ ''/'', ''../'', ''../../'']\<rparr>
      else c)"

section \<open>defaults.go\<close>

definition Opt :: "string \<Rightarrow> (string \<times> config_value) list" where
  "Opt section =
     (if section = ''logger'' then
        [(''debug'', VBool True), (''trace'', VBool False), (''directory'', VString (''/var/logging/'' @ Title)),
         (''nocolor'', VBool False), (''use_date_filename'', VBool True)]
      else if section = ''admin'' then
        [(''ssh_bind'', VString ''0.0.0.0:2222''), (''web_bind'', VString ''0.0.0.0:8080'')]
      else if section = ''dhcp'' then [(''lease_time_seconds'', VInt 3600)]
      else if section = ''interfaces'' then
        [(''wan_ifnames'', VStrings [''eth0'']), (''lan_ifnames'', VStrings [''eth1''])]
      else if section = ''data'' then [(''directory'', VString ''/rout5'')]
      else [])"

definition configSections :: "string list" where
  "configSections = [''logger'', ''http'', ''interfaces'', ''data'']"

definition setDefaults :: "'v viper \<Rightarrow> 'v Config \<Rightarrow> 'v Config outcome" where
  "setDefaults vp c =
     (let c = c\<lparr>Snek := foldl (\<lambda>v def. SetDefault vp v def (Opt def)) (Snek c) configSections\<rparr> in
      if GenConfig c
      then (case SafeWriteConfigAs vp (Snek c) ''./config.toml'' of Inl _ \<Rightarrow> Exit 1 | Inr _ \<Rightarrow> Exit 0)
      else Goes_on c)"

definition processOpts :: "'v viper \<Rightarrow> 'v Config \<Rightarrow> 'v Config" where
  "processOpts vp c =
     c\<lparr>DataDirectory := GetString vp (Snek c) ''data.directory'',
       PreferredWAN := GetStringSlice vp (Snek c) ''interfaces.wan_ifnames'',
       PreferredLAN := GetStringSlice vp (Snek c) ''interfaces.lan_ifnames'',
       AdminHTTP := GetStringSlice vp (Snek c) ''admin.web_bind'',
       AdminSSH := GetStringSlice vp (Snek c) ''admin.ssh_bind'',
       NoColor := GetBool vp (Snek c) ''logger.nocolor'',
       Debug := GetBool vp (Snek c) ''logger.debug'',
       Trace := GetBool vp (Snek c) ''logger.trace''\<rparr>"

definition associateExportedVariables :: "'v viper \<Rightarrow> 'v Config \<Rightarrow> 'v Config" where
  "associateExportedVariables vp c =
     (let c = processOpts vp c in
      c\<lparr>globalLevel := (if Debug c then DebugLevel else if Trace c then TraceLevel else InfoLevel)\<rparr>)"

definition Init :: "'v viper \<Rightarrow> os_env \<Rightarrow> 'v Config \<Rightarrow> 'v Config outcome" where
  "Init vp os c =
     bindO (argParse vp os c) (\<lambda>c.
       if customconfig c then Goes_on (associateExportedVariables vp c)
       else
         bindO (setDefaults vp (setConfigFileLocations os c)) (\<lambda>c.
         bindO (case MergeInConfig vp (Snek c) (configLocations c) of
                  (v, Inl _) \<Rightarrow> writeConfig vp os (c\<lparr>Snek := v\<rparr>)
                | (v, Inr _) \<Rightarrow> Goes_on (c\<lparr>Snek := v\<rparr>)) (\<lambda>c.
           let c = (if length (Filename c) < 1 then c\<lparr>Filename := ConfigFileUsed vp (Snek c)\<rparr> else c)
           in Goes_on (associateExportedVariables vp c))))"

section \<open>db.go\<close>

text \<open>
  Keys are bytes of the constants. The database library is a parameter: the store of a name, if it has
  been opened by \<open>Init\<close>, and its operations.
\<close>

definition db_dbtarget :: bytes where "db_dbtarget = [4, 7]"
definition db_dhcp4wire :: bytes where "db_dhcp4wire = [0, 0, 2]"
definition db_stores :: "string list" where
  "db_stores = [''config'', ''dhcp4'', ''dhcp6'', ''nat'', ''fwin'', ''fwout'']"
definition db_defaultLease :: duration where "db_defaultLease = 24 * Hour"

record 'd database =
  db_Init :: "'d \<Rightarrow> string \<Rightarrow> 'd result"
  db_Has :: "'d \<Rightarrow> string \<Rightarrow> bytes \<Rightarrow> bool"
  db_Get :: "'d \<Rightarrow> string \<Rightarrow> bytes \<Rightarrow> bytes result"
  db_PutWithTTL :: "'d \<Rightarrow> string \<Rightarrow> bytes \<Rightarrow> bytes \<Rightarrow> duration \<Rightarrow> 'd result"

fun db_open :: "'d database \<Rightarrow> string list \<Rightarrow> 'd \<Rightarrow> 'd outcome" where
  "db_open lib [] d = Goes_on d"
| "db_open lib (s # stores) d = (case db_Init lib d s of Inl _ \<Rightarrow> Exit 1 | Inr d \<Rightarrow> db_open lib stores d)"

definition DHCPMessages :: "'d database \<Rightarrow> 'd \<Rightarrow> bytes result" where
  "DHCPMessages lib d = db_Get lib d ''dhcp4'' db_dhcp4wire"

text \<open>\<open>to_duration\<close> is \<open>time.Duration(common.BytesToFloat64(b))\<close>.\<close>

definition defaultLeaseTime :: "'d database \<Rightarrow> (bytes \<Rightarrow> duration) \<Rightarrow> 'd \<Rightarrow> duration" where
  "defaultLeaseTime lib to_duration d =
     (if \<not> db_Has lib d ''cfg'' db_dbtarget then db_defaultLease
      else (case db_Get lib d ''cfg'' db_dbtarget of
              Inl _ \<Rightarrow> db_defaultLease
            | Inr ltb \<Rightarrow> to_duration ltb))"

definition NewDHCP4Lease :: "'d database \<Rightarrow> (bytes \<Rightarrow> duration) \<Rightarrow> bytes \<Rightarrow> bytes \<Rightarrow> 'd \<Rightarrow> 'd result" where
  "NewDHCP4Lease lib to_duration m a d =
     db_PutWithTTL lib d ''dhcp4'' m (To4 a) (defaultLeaseTime lib to_duration d)"

section \<open>What viper promises\<close>

text \<open>
  \<open>val v\<close> maps the keys of an engine to their effective values. A default yields to a value that is
  there already; a key is a section, a dot and a name. When no configuration file is found, nothing
  changes.
\<close>

definition viper_ok :: "'v viper \<Rightarrow> ('v \<Rightarrow> string \<Rightarrow> config_value option) \<Rightarrow> bool" where
  "viper_ok vp val \<longleftrightarrow>
     (\<forall>v sec m k. val (SetDefault vp v sec m) (sec @ ''.'' @ k) =
        (case val v (sec @ ''.'' @ k) of Some x \<Rightarrow> Some x | None \<Rightarrow> map_of m k)) \<and>
     (\<forall>v sec m key. (\<nexists>k. key = sec @ ''.'' @ k) \<longrightarrow> val (SetDefault vp v sec m) key = val v key) \<and>
     (\<forall>v key. GetString vp v key = (case val v key of Some (VString s) \<Rightarrow> s | _ \<Rightarrow> '''')) \<and>
     (\<forall>v key. GetBool vp v key = (case val v key of Some (VBool b) \<Rightarrow> b | _ \<Rightarrow> False)) \<and>
     (\<forall>v key. GetStringSlice vp v key =
        (case val v key of Some (VStrings l) \<Rightarrow> l | Some (VString s) \<Rightarrow> [s] | _ \<Rightarrow> [])) \<and>
     (\<forall>v ls v' e. MergeInConfig vp v ls = (v', Inl e) \<longrightarrow> val v' = val v)"

lemma viper_okD:
  assumes "viper_ok vp val"
  shows "val (SetDefault vp v sec m) (sec @ ''.'' @ k) =
      (case val v (sec @ ''.'' @ k) of Some x \<Rightarrow> Some x | None \<Rightarrow> map_of m k)"
    and "(\<nexists>k. key = sec @ ''.'' @ k) \<Longrightarrow> val (SetDefault vp v sec m) key = val v key"
    and "GetString vp v key = (case val v key of Some (VString s) \<Rightarrow> s | _ \<Rightarrow> '''')"
    and "GetBool vp v key = (case val v key of Some (VBool b) \<Rightarrow> b | _ \<Rightarrow> False)"
    and "GetStringSlice vp v key = (case val v key of Some (VStrings l) \<Rightarrow> l | Some (VString s) \<Rightarrow> [s] | _ \<Rightarrow> [])"
    and "MergeInConfig vp v ls = (v', Inl e) \<Longrightarrow> val v' = val v"
  using assms unfolding viper_ok_def by - (elim conjE, metis)+

text \<open>The defaults that a new engine has after \<open>setDefaults\<close>, for a key in any section.\<close>

lemma dotted_inj:
  assumes "sec @ ''.'' @ k = sec' @ ''.'' @ k'" "CHR ''.'' \<notin> set sec" "CHR ''.'' \<notin> set sec'"
  shows "sec = sec'"
proof -
  have "takeWhile (\<lambda>c. c \<noteq> CHR ''.'') (s @ ''.'' @ r) = s" if "CHR ''.'' \<notin> set s" for s r
    using that by (subst takeWhile_append2) auto
  then show ?thesis using assms by metis
qed

lemma defaults_of:
  assumes "viper_ok vp val" "CHR ''.'' \<notin> set sec" "\<And>def. def \<in> set defs \<Longrightarrow> CHR ''.'' \<notin> set def"
  shows "val (foldl (\<lambda>v def. SetDefault vp v def (Opt def)) v defs) (sec @ ''.'' @ k) =
    (case val v (sec @ ''.'' @ k) of
       Some x \<Rightarrow> Some x | None \<Rightarrow> if sec \<in> set defs then map_of (Opt sec) k else None)"
  using assms(3)
proof (induction defs arbitrary: v)
  case (Cons def defs)
  let ?key = "sec @ ''.'' @ k"
  have "val (SetDefault vp v def (Opt def)) ?key =
      (case val v ?key of Some x \<Rightarrow> Some x | None \<Rightarrow> if def = sec then map_of (Opt sec) k else None)"
  proof (cases "def = sec")
    case True
    then show ?thesis using viper_okD(1) [OF assms(1)] by simp
  next
    case False
    then have "\<nexists>k'. ?key = def @ ''.'' @ k'" using dotted_inj assms(2) Cons.prems by (metis list.set_intros(1))
    then show ?thesis using viper_okD(2) [OF assms(1)] False by (simp split: option.split)
  qed
  then show ?case
    using Cons.IH [of "SetDefault vp v def (Opt def)"] Cons.prems by (auto split: option.splits)
qed (simp split: option.split)

lemma argParse_loop_fields:
  "argParse_loop vp os i args c = Goes_on c' \<Longrightarrow>
   DHCPInterfaces c' = DHCPInterfaces c \<and> Filename c' = Filename c \<and> configLocations c' = configLocations c \<and>
   prefConfigLocation c' = prefConfigLocation c \<and> (customconfig c' \<or> Snek c' = Snek c) \<and> (customconfig c \<longrightarrow> customconfig c')"
proof (induction args arbitrary: i c)
  case (Cons arg args)
  then show ?case by (fastforce simp: loadCustomConfig_def split: if_splits sum.splits prod.splits)
qed simp

lemma writeConfig_fields:
  "writeConfig vp os c = Goes_on c' \<Longrightarrow> DHCPInterfaces c' = DHCPInterfaces c \<and> Snek c' = Snek c"
  by (auto simp: writeConfig_def Let_def split: sum.splits)

lemma setDefaults_fields:
  "setDefaults vp c = Goes_on c' \<Longrightarrow> c' = c\<lparr>Snek := foldl (\<lambda>v def. SetDefault vp v def (Opt def)) (Snek c) configSections\<rparr>"
  by (auto simp: setDefaults_def Let_def split: sum.splits if_splits)

lemma Init_DHCPInterfaces:
  assumes "Init vp os c0 = Goes_on c"
  shows "DHCPInterfaces c = DHCPInterfaces c0"
proof -
  obtain c1 where c1: "argParse vp os c0 = Goes_on c1" using assms by (auto simp: Init_def)
  then have f: "DHCPInterfaces c1 = DHCPInterfaces c0"
    using argParse_loop_fields [of vp os 0 "os_Args os" c0 c1] by (simp add: argParse_def)
  have assoc: "DHCPInterfaces (associateExportedVariables vp x) = DHCPInterfaces x" for x
    by (simp add: associateExportedVariables_def processOpts_def Let_def)
  show ?thesis
  proof (cases "customconfig c1")
    case False
    then obtain c2 c3 where c2: "setDefaults vp (setConfigFileLocations os c1) = Goes_on c2"
      and c3: "(case MergeInConfig vp (Snek c2) (configLocations c2) of
          (v, Inl _) \<Rightarrow> writeConfig vp os (c2\<lparr>Snek := v\<rparr>) | (v, Inr _) \<Rightarrow> Goes_on (c2\<lparr>Snek := v\<rparr>)) = Goes_on c3"
      and c: "c = associateExportedVariables vp (if length (Filename c3) < 1 then c3\<lparr>Filename := ConfigFileUsed vp (Snek c3)\<rparr> else c3)"
      using assms c1 by (auto simp: Init_def Let_def)
    have "DHCPInterfaces c2 = DHCPInterfaces c1"
      using setDefaults_fields [OF c2] by (simp add: setConfigFileLocations_def Let_def)
    moreover have "DHCPInterfaces c3 = DHCPInterfaces c2"
      using c3 by (auto dest: writeConfig_fields split: prod.splits sum.splits)
    ultimately show ?thesis by (simp add: c assoc f)
  qed (use assms c1 f assoc in \<open>auto simp: Init_def\<close>)
qed

section \<open>Properties\<close>

text \<open>The values that \<open>setDefaults\<close> leaves in an engine without values; the admin section is not set.\<close>

lemma default_values:
  assumes "viper_ok vp val" "\<And>key. val v key = None" "v' = foldl (\<lambda>v def. SetDefault vp v def (Opt def)) v configSections"
  shows "val v' ''data.directory'' = Some (VString ''/rout5'')"
    "val v' ''interfaces.wan_ifnames'' = Some (VStrings [''eth0''])"
    "val v' ''interfaces.lan_ifnames'' = Some (VStrings [''eth1''])"
    "val v' ''admin.web_bind'' = None" "val v' ''admin.ssh_bind'' = None"
    "val v' ''logger.nocolor'' = Some (VBool False)" "val v' ''logger.debug'' = Some (VBool True)"
proof -
  have dotfree: "CHR ''.'' \<notin> set def" if "def \<in> set configSections" for def
    using that by (auto simp: configSections_def)
  have d: "val v' (sec @ ''.'' @ k) = (if sec \<in> set configSections then map_of (Opt sec) k else None)"
    if "CHR ''.'' \<notin> set sec" for sec k
    unfolding assms(3) using defaults_of [OF assms(1) that dotfree, where v = v and k = k] by (simp add: assms(2))
  show "val v' ''data.directory'' = Some (VString ''/rout5'')"
    "val v' ''interfaces.wan_ifnames'' = Some (VStrings [''eth0''])"
    "val v' ''interfaces.lan_ifnames'' = Some (VStrings [''eth1''])"
    "val v' ''admin.web_bind'' = None" "val v' ''admin.ssh_bind'' = None"
    "val v' ''logger.nocolor'' = Some (VBool False)" "val v' ''logger.debug'' = Some (VBool True)"
    using d [of "''data''" "''directory''"] d [of "''interfaces''" "''wan_ifnames''"]
      d [of "''interfaces''" "''lan_ifnames''"] d [of "''admin''" "''web_bind''"] d [of "''admin''" "''ssh_bind''"]
      d [of "''logger''" "''nocolor''"] d [of "''logger''" "''debug''"]
    by (simp_all add: configSections_def Opt_def)
qed


text \<open>An engine that is its table of values, and a machine without a configuration file.\<close>

definition table_viper :: "(string \<Rightarrow> config_value option) viper" where
  "table_viper =
     \<lparr>SetDefault = (\<lambda>v sec m key. case v key of
        Some x \<Rightarrow> Some x
      | None \<Rightarrow> if take (length sec + 1) key = sec @ ''.'' then map_of m (drop (length sec + 1) key) else None),
      GetString = (\<lambda>v key. case v key of Some (VString s) \<Rightarrow> s | _ \<Rightarrow> ''''),
      GetStringSlice = (\<lambda>v key. case v key of Some (VStrings l) \<Rightarrow> l | Some (VString s) \<Rightarrow> [s] | _ \<Rightarrow> []),
      GetBool = (\<lambda>v key. case v key of Some (VBool b) \<Rightarrow> b | _ \<Rightarrow> False),
      MergeInConfig = (\<lambda>v _. (v, Inl (Err ''not found''))), ReadConfig = (\<lambda>v _. (v, Inr ())),
      SafeWriteConfigAs = (\<lambda>_ _. Inr ()), ConfigFileUsed = (\<lambda>_. '''')\<rparr>"

lemma table_viper_ok: "viper_ok table_viper (\<lambda>v. v)"
proof -
  have "key = sec @ ''.'' @ drop (length sec + 1) key" if "take (length sec + 1) key = sec @ ''.''" for sec key :: string
    using append_take_drop_id [of "length sec + 1" key] unfolding that by (simp add: eq_commute)
  then show ?thesis by (auto simp: viper_ok_def table_viper_def split: option.split)
qed

definition bare_os :: os_env where
  "bare_os = \<lparr>os_Args = [''dhcp4d''], GOOS = ''linux'', stat_NotExist = (\<lambda>_. True), MkdirAll = (\<lambda>_. Inr ()),
     open_read = (\<lambda>_. Inl (Err ''not found''))\<rparr>"


end
