(* ===== verification/Support.thy ===== *)
theory Support
  imports Config
begin

text \<open>
  What the daemons share besides the configuration: the logger of \<open>logging/logger.go\<close> and the signals
  of \<open>ipc/ipc.go\<close>. Zerolog, syslog and memconn are parameters: whether their calls fail.
\<close>

section \<open>Logging\<close>

text \<open>The value of the atomic variable \<open>logger\<close>, if any, and the file of the current log.\<close>

datatype zlogger = SyslogLogger | FileLogger string bool | NilLog

record Logging =
  CurrentLogFile :: string
  logger :: "zlogger option"

text \<open>
  The \<open>init\<close> of the package: without syslog the writer is \<open>io.Discard\<close>, which is not a \<open>*syslog.Writer\<close>.
\<close>

definition logging_init :: "unit result \<Rightarrow> Logging outcome" where
  "logging_init syslog_New =
     (case syslog_New of
        Inl _ \<Rightarrow> Panics ''interface conversion''
      | Inr _ \<Rightarrow> Goes_on \<lparr>CurrentLogFile = '''', logger = Some SyslogLogger\<rparr>)"

definition GetLogger :: "Logging \<Rightarrow> zlogger" where
  "GetLogger lg = (case logger lg of None \<Rightarrow> NilLog | Some l \<Rightarrow> l)"

record log_env =
  log_MkdirAll :: "string \<Rightarrow> unit result"
  log_OpenFile :: "string \<Rightarrow> unit result"
  now_RFC822 :: string

definition replace_char :: "char \<Rightarrow> char \<Rightarrow> string \<Rightarrow> string" where
  "replace_char a b s = map (\<lambda>c. if c = a then b else c) s"

definition StartLogger :: "'v viper \<Rightarrow> log_env \<Rightarrow> 'v Config \<Rightarrow> Logging \<Rightarrow> (Logging \<times> zlogger) outcome" where
  "StartLogger vp env c lg =
     (let logDir = GetString vp (Snek c) ''logger.directory'' in
      case log_MkdirAll env logDir of
        Inl _ \<Rightarrow> Exit 1
      | Inr _ \<Rightarrow>
          let tnow = (if GetBool vp (Snek c) ''logger.use_date_filename''
                      then replace_char (CHR '':'') (CHR ''-'') (replace_char (CHR '' '') (CHR ''_'') (now_RFC822 env))
                      else Title);
              file = logDir @ tnow @ ''.logging''
          in (case log_OpenFile env file of
                Inl _ \<Rightarrow> Exit 1
              | Inr _ \<Rightarrow>
                  let lg = lg\<lparr>CurrentLogFile := file, logger := Some (FileLogger file (NoColor c))\<rparr>
                  in Goes_on (lg, GetLogger lg)))"

text \<open>After \<open>init\<close> there is always a logger, and \<open>StartLogger\<close> returns the one that others will get.\<close>

lemma GetLogger_after_init: "logging_init s = Goes_on lg \<Longrightarrow> GetLogger lg = SyslogLogger"
  by (auto simp: logging_init_def GetLogger_def split: sum.splits)

lemma StartLogger_shared:
  "StartLogger vp env c lg = Goes_on (lg', l) \<Longrightarrow> GetLogger lg' = l \<and> l = FileLogger (CurrentLogFile lg') (NoColor c)"
  by (auto simp: StartLogger_def GetLogger_def Let_def split: sum.splits)

text \<open>
  No separator is put between directory and file name: with the default directory and no date, the
  log is a file beside the directory that was created for it.
\<close>

lemma StartLogger_beside:
  assumes "GetString vp (Snek c) ''logger.directory'' = ''/var/logging/Rout5''"
    and "\<not> GetBool vp (Snek c) ''logger.use_date_filename''" "StartLogger vp env c lg = Goes_on (lg', l)"
  shows "CurrentLogFile lg' = ''/var/logging/Rout5Rout5.logging''"
  using assms by (auto simp: StartLogger_def Title_def Let_def split: sum.splits)

section \<open>Signals\<close>

datatype Signal = SigHUP | SigUSR1 | SigUSR2

text \<open>The constants are numbered by \<open>iota\<close> and sent as one byte.\<close>

fun signal_byte :: "Signal \<Rightarrow> byte" where
  "signal_byte SigHUP = 0"
| "signal_byte SigUSR1 = 1"
| "signal_byte SigUSR2 = 2"

definition ipc_addr :: string where "ipc_addr = ''rout5''"

definition Process :: "(string \<Rightarrow> string \<Rightarrow> 'c result) \<Rightarrow> ('c \<Rightarrow> bytes \<Rightarrow> nat result) \<Rightarrow> string \<Rightarrow> Signal \<Rightarrow> unit result" where
  "Process dial write name sig =
     bindR (dial ipc_addr name) (\<lambda>c. bindR (write c [signal_byte sig]) (\<lambda>_. Inr ()))"

text \<open>The receiver can tell the signals apart.\<close>

lemma signal_byte_inj: "signal_byte s = signal_byte t \<Longrightarrow> s = t"
  by (cases s; cases t) auto

end
