(* ===== verification/PcapReplay.thy ===== *)
theory PcapReplay
  imports Dhcp4ClientProps
begin

text \<open>
  \<open>testing/pcapreplayer/pcapreplayer.go\<close>: connections that replay a recording of packets and record
  what is sent to them, and the DHCPv4 client run over such a connection, which is the test
  \<open>TestDHCP4\<close>. The files are a map from paths to contents. The package \<open>pcapgo\<close> (with the type
  \<open>'r\<close> of its reader's position) and \<open>gopacket\<close> are parameters, and so are the errors of the file
  system.
\<close>

section \<open>Packets\<close>

text \<open>The layers of \<open>gopacket\<close> that are written; a UDP layer knows the layer its checksum covers.\<close>

datatype glayer =
  Ethernet (SrcMAC: bytes) (DstMAC: bytes) (EthernetType: nat)
| IPv4Layer (ip4_Version: nat) (ip4_TTL: nat) (ip4_Protocol: nat) (ip4_SrcIP: bytes) (ip4_DstIP: bytes)
| IPv6Layer (ip6_Version: nat) (ip6_TrafficClass: nat) (ip6_NextHeader: nat) (ip6_HopLimit: nat)
    (ip6_SrcIP: bytes) (ip6_DstIP: bytes)
| UDPLayer (udp_SrcPort: nat) (udp_DstPort: nat) (udp_network: "glayer option")
| PayloadLayer bytes

type_synonym files = "string \<Rightarrow> bytes option"

text \<open>
  \<open>ReadPacketData\<close> reads the next packet of a file from a position, \<open>WriteFileHeader\<close> and
  \<open>WritePacket\<close> give the new contents of the file. \<open>SerializeLayers\<close> gives what is in the buffer
  afterwards: its error is not looked at.
\<close>

record 'r pcap_env =
  open_error :: "string \<Rightarrow> string option"
  mkdir_error :: "string \<Rightarrow> string option"
  create_error :: "string \<Rightarrow> string option"
  filepath_Dir :: "string \<Rightarrow> string"
  pcapgo_NewReader :: "bytes \<Rightarrow> string + 'r"
  ReadPacketData :: "bytes \<Rightarrow> 'r \<Rightarrow> (string + bytes) \<times> 'r"
  WriteFileHeader :: "nat \<Rightarrow> nat \<Rightarrow> bytes \<Rightarrow> string option \<times> bytes"
  WritePacket :: "nat \<Rightarrow> nat \<Rightarrow> bytes \<Rightarrow> bytes \<Rightarrow> string option \<times> bytes"
  eth_LayerPayload :: "bytes \<Rightarrow> bytes option"
  udp_LayerPayload :: "bytes \<Rightarrow> bytes option"
  SerializeLayers :: "bool \<Rightarrow> bool \<Rightarrow> glayer list \<Rightarrow> bytes"

section \<open>Opening the recordings\<close>

text \<open>A \<open>*pcapgo.Reader\<close> is a file and the position in it, a \<open>*pcapgo.Writer\<close> a file.\<close>

type_synonym 'r reader = "(string \<times> 'r) option"

definition os_Open :: "'r pcap_env \<Rightarrow> files \<Rightarrow> string \<Rightarrow> string + bytes" where
  "os_Open env fs p =
     (case open_error env p of
        Some e \<Rightarrow> Inl e
      | None \<Rightarrow> (case fs p of None \<Rightarrow> Inl ''no such file or directory'' | Some b \<Rightarrow> Inr b))"

definition pcapopen ::
    "'r pcap_env \<Rightarrow> string \<Rightarrow> string \<Rightarrow> files \<Rightarrow> ('r reader \<times> string option \<times> string option) \<times> files" where
  "pcapopen env input output_path fs =
     (case os_Open env fs input of
        Inl e \<Rightarrow> ((None, None, Some e), fs)
      | Inr f \<Rightarrow>
          (case pcapgo_NewReader env f of
             Inl e \<Rightarrow> ((None, None, Some e), fs)
           | Inr r \<Rightarrow>
               if output_path \<noteq> '''' then
                 (case mkdir_error env (filepath_Dir env output_path) of
                    Some e \<Rightarrow> ((None, None, Some e), fs)
                  | None \<Rightarrow>
                      (case create_error env output_path of
                         Some e \<Rightarrow> ((None, None, Some e), fs)
                       | None \<Rightarrow>
                           (case WriteFileHeader env 1600 1 [] of
                              (Some e, b) \<Rightarrow> ((None, None, Some e), fs(output_path \<mapsto> b))
                            | (None, b) \<Rightarrow> ((Some (input, r), Some output_path, None), fs(output_path \<mapsto> b)))))
               else ((Some (input, r), None, None), fs)))"

section \<open>Reading\<close>

definition copy_into :: "bytes \<Rightarrow> bytes \<Rightarrow> bytes" where
  "copy_into buf src = take (length buf) src @ drop (length src) buf"

lemma length_copy_into [simp]: "length (copy_into buf src) = length buf"
  by (simp add: copy_into_def)

lemma take_copy_into: "length src \<le> length buf \<Longrightarrow> take (length src) (copy_into buf src) = src"
  by (simp add: copy_into_def)

text \<open>The next packet of a reader; the method of a nil reader panics.\<close>

definition next_packet :: "'r pcap_env \<Rightarrow> files \<Rightarrow> 'r reader \<Rightarrow> ((string + bytes) \<times> 'r reader) result" where
  "next_packet env fs rd =
     (case rd of
        None \<Rightarrow> Inl (Panic ''nil pointer dereference'')
      | Some (p, r) \<Rightarrow>
          (case ReadPacketData env (case fs p of None \<Rightarrow> [] | Some b \<Rightarrow> b) r of (d, r') \<Rightarrow> Inr (d, Some (p, r'))))"

definition replay_ip :: bytes where "replay_ip = ParseIP ''192.168.23.1''"

text \<open>The results are the length, the address and the error; a nil \<open>net.IP\<close> is the empty list.\<close>

definition readFrom ::
    "'r pcap_env \<Rightarrow> files \<Rightarrow> 'r reader \<Rightarrow> bytes \<Rightarrow> ((nat \<times> bytes \<times> string option) \<times> bytes \<times> 'r reader) result" where
  "readFrom env fs rd buf =
     bindR (next_packet env fs rd) (\<lambda>(d, rd').
       case d of
         Inl e \<Rightarrow> Inr ((0, [], Some e), buf, rd')
       | Inr data \<Rightarrow>
           (case udp_LayerPayload env data of
              None \<Rightarrow> Inr ((0, [], Some ''pcap contained unexpected non-UDP packet''), buf, rd')
            | Some payload \<Rightarrow> Inr ((length payload, replay_ip, None), copy_into buf payload, rd')))"

section \<open>Writing\<close>

definition mustParseMAC :: "string \<Rightarrow> bytes result" where
  "mustParseMAC s = (case ParseMAC s of Inl _ \<Rightarrow> Inl (Panic ''invalid MAC address'') | Inr hw \<Rightarrow> Inr hw)"

definition ethernet_type :: "glayer \<Rightarrow> nat" where
  "ethernet_type ip = (case ip of IPv4Layer _ _ _ _ _ \<Rightarrow> 0x0800 | IPv6Layer _ _ _ _ _ _ \<Rightarrow> 0x86DD | _ \<Rightarrow> 0)"

definition SetNetworkLayerForChecksum :: "glayer \<Rightarrow> glayer \<Rightarrow> glayer" where
  "SetNetworkLayerForChecksum udp ip =
     (case udp of UDPLayer s d _ \<Rightarrow> UDPLayer s d (Some ip) | l \<Rightarrow> l)"

definition pcapwrite ::
    "'r pcap_env \<Rightarrow> string \<Rightarrow> glayer \<Rightarrow> glayer \<Rightarrow> bytes \<Rightarrow> files \<Rightarrow> (string option \<times> files) result" where
  "pcapwrite env w ip udp b fs =
     (let udp = SetNetworkLayerForChecksum udp ip in
      bindR (mustParseMAC ''00:00:5E:00:53:00'') (\<lambda>src.
      bindR (mustParseMAC ''33:33:00:01:00:02'') (\<lambda>dst.
        let got = SerializeLayers env True True [Ethernet src dst (ethernet_type ip), ip, udp, PayloadLayer b];
            (e, contents) = WritePacket env (length got) (length got) got (case fs w of None \<Rightarrow> [] | Some f \<Rightarrow> f)
        in Inr (map_option (\<lambda>e. ''pcap.WritePacket(): '' @ e) e, fs(w \<mapsto> contents)))))"

section \<open>The connections\<close>

text \<open>The two types have the same fields. Their deadlines, local address and \<open>Close\<close> do nothing.\<close>

record 'r packetConn =
  pcapr :: "'r reader"
  pcapw :: "string option"

type_synonym 'r dhcp4conn = "'r packetConn"

definition NewPacketConn :: "'r pcap_env \<Rightarrow> string \<Rightarrow> string \<Rightarrow> files \<Rightarrow> ('r packetConn \<times> string option) \<times> files" where
  "NewPacketConn env input output_path fs =
     (let ((r, w, err), fs) = pcapopen env input output_path fs in ((\<lparr>pcapr = r, pcapw = w\<rparr>, err), fs))"

definition NewDHCP4Conn :: "'r pcap_env \<Rightarrow> string \<Rightarrow> string \<Rightarrow> files \<Rightarrow> ('r dhcp4conn \<times> string option) \<times> files" where
  "NewDHCP4Conn env input output_path fs =
     (let ((r, w, err), fs) = pcapopen env input output_path fs in ((\<lparr>pcapr = r, pcapw = w\<rparr>, err), fs))"

definition packetConn_ip :: glayer where
  "packetConn_ip = IPv6Layer 6 0 17 1 (ParseIP ''fe80::200:5eff:fe00:5300'') (ParseIP ''ff02::1:2'')"

definition packetConn_WriteTo ::
    "'r pcap_env \<Rightarrow> 'r packetConn \<Rightarrow> bytes \<Rightarrow> files \<Rightarrow> ((nat \<times> string option) \<times> files) result" where
  "packetConn_WriteTo env c b fs =
     (case pcapw c of
        None \<Rightarrow> Inr ((length b, None), fs)
      | Some w \<Rightarrow>
          bindR (pcapwrite env w packetConn_ip (UDPLayer 546 547 None) b fs) (\<lambda>(err, fs). Inr ((length b, err), fs)))"

definition dhcp4conn_ip :: glayer where
  "dhcp4conn_ip = IPv4Layer 4 255 17 (ParseIP ''0.0.0.0'') (ParseIP ''255.255.255.255'')"

definition dhcp4conn_WriteTo ::
    "'r pcap_env \<Rightarrow> 'r dhcp4conn \<Rightarrow> bytes \<Rightarrow> files \<Rightarrow> ((nat \<times> string option) \<times> files) result" where
  "dhcp4conn_WriteTo env c b fs =
     (case pcapw c of
        None \<Rightarrow> Inr ((length b, None), fs)
      | Some w \<Rightarrow>
          bindR (pcapwrite env w dhcp4conn_ip (UDPLayer 68 67 None) b fs) (\<lambda>(err, fs). Inr ((length b, err), fs)))"

text \<open>An address is a \<open>*net.IPAddr\<close> with its IP, or nil.\<close>

definition packetConn_ReadFrom ::
    "'r pcap_env \<Rightarrow> files \<Rightarrow> 'r packetConn \<Rightarrow> bytes \<Rightarrow>
     ((nat \<times> bytes option \<times> string option) \<times> bytes \<times> 'r packetConn) result" where
  "packetConn_ReadFrom env fs c buf =
     bindR (readFrom env fs (pcapr c) buf) (\<lambda>((l, ip, err), buf, rd). Inr ((l, Some ip, err), buf, c\<lparr>pcapr := rd\<rparr>))"

definition dhcp4conn_ReadFrom ::
    "'r pcap_env \<Rightarrow> files \<Rightarrow> 'r dhcp4conn \<Rightarrow> bytes \<Rightarrow>
     ((nat \<times> bytes option \<times> string option) \<times> bytes \<times> 'r dhcp4conn) result" where
  "dhcp4conn_ReadFrom env fs c buf =
     bindR (next_packet env fs (pcapr c)) (\<lambda>(d, rd').
       let c = c\<lparr>pcapr := rd'\<rparr> in
       case d of
         Inl e \<Rightarrow> Inr ((0, None, Some e), buf, c)
       | Inr data \<Rightarrow>
           (case eth_LayerPayload env data of
              None \<Rightarrow> Inr ((0, None, Some ''pcap contained unexpected non-IPv4 packet''), buf, c)
            | Some payload \<Rightarrow> Inr ((length payload, Some replay_ip, None), copy_into buf payload, c)))"

text \<open>The methods that keep \<open>net.PacketConn\<close> satisfied.\<close>

definition packetConn_LocalAddr :: "'r packetConn \<Rightarrow> bytes option" where "packetConn_LocalAddr c = None"
definition packetConn_Close :: "'r packetConn \<Rightarrow> 'r packetConn \<times> string option" where
  "packetConn_Close c = (c, None)"
definition packetConn_SetDeadline :: "'r packetConn \<Rightarrow> time \<Rightarrow> 'r packetConn \<times> string option" where
  "packetConn_SetDeadline c t = (c, None)"
definition dhcp4conn_LocalAddr :: "'r dhcp4conn \<Rightarrow> bytes option" where "dhcp4conn_LocalAddr c = None"
definition dhcp4conn_Close :: "'r dhcp4conn \<Rightarrow> 'r dhcp4conn \<times> string option" where
  "dhcp4conn_Close c = (c, None)"
definition dhcp4conn_SetDeadline :: "'r dhcp4conn \<Rightarrow> time \<Rightarrow> 'r dhcp4conn \<times> string option" where
  "dhcp4conn_SetDeadline c t = (c, None)"

end
