(* ===== verification/PcapReplayProps.thy ===== *)
theory PcapReplayProps
  imports PcapReplay
begin

text \<open>
  What a recording is good for: the messages sent over a connection of \<open>pcapreplayer\<close> come back
  when the file that was written is replayed, in the same order, and then the end of the file. The
  DHCPv4 connection hands back more than was sent, and a short buffer makes both return a length
  that the buffer does not have.
\<close>

section \<open>Sequences of calls\<close>

fun send_all ::
    "(bytes \<Rightarrow> files \<Rightarrow> ((nat \<times> string option) \<times> files) result) \<Rightarrow> bytes list \<Rightarrow> files \<Rightarrow>
     ((nat \<times> string option) list \<times> files) result" where
  "send_all write [] fs = Inr ([], fs)"
| "send_all write (b # bs) fs =
     bindR (write b fs) (\<lambda>(x, fs). bindR (send_all write bs fs) (\<lambda>(xs, fs). Inr (x # xs, fs)))"

text \<open>Each read is into a new buffer; what the caller takes out of it is its first \<open>n\<close> bytes.\<close>

fun receive_all ::
    "('c \<Rightarrow> bytes \<Rightarrow> ((nat \<times> bytes option \<times> string option) \<times> bytes \<times> 'c) result) \<Rightarrow> nat \<Rightarrow> nat \<Rightarrow> 'c \<Rightarrow>
     ((bytes \<times> string option) list \<times> 'c) result" where
  "receive_all read room 0 c = Inr ([], c)"
| "receive_all read room (Suc k) c =
     bindR (read c (replicate room 0)) (\<lambda>((n, a, err), buf, c).
     bindR (receive_all read room k c) (\<lambda>(xs, c). Inr ((take n buf, err) # xs, c)))"

section \<open>The pcap format\<close>

text \<open>Reading the file from a position gives these packets and then the end of the file.\<close>

fun reads_back :: "'r pcap_env \<Rightarrow> bytes \<Rightarrow> 'r \<Rightarrow> bytes list \<Rightarrow> bool" where
  "reads_back env f r [] \<longleftrightarrow> fst (ReadPacketData env f r) = Inl ''EOF''"
| "reads_back env f r (p # ps) \<longleftrightarrow>
     fst (ReadPacketData env f r) = Inr p \<and> reads_back env f (snd (ReadPacketData env f r)) ps"

text \<open>
  What \<open>pcapgo\<close> documents: the file that its writer makes of some packets within the snap length is
  read back as these packets. \<open>written f ps\<close> says that \<open>f\<close> is such a file.
\<close>

definition pcap_laws :: "'r pcap_env \<Rightarrow> (bytes \<Rightarrow> bytes list \<Rightarrow> bool) \<Rightarrow> bool" where
  "pcap_laws env written \<longleftrightarrow>
     (\<exists>f. WriteFileHeader env 1600 1 [] = (None, f) \<and> written f []) \<and>
     (\<forall>f ps p. written f ps \<and> length p \<le> 1600 \<longrightarrow>
        (\<exists>f'. WritePacket env (length p) (length p) p f = (None, f') \<and> written f' (ps @ [p]))) \<and>
     (\<forall>f ps. written f ps \<longrightarrow> (\<exists>r. pcapgo_NewReader env f = Inr r \<and> reads_back env f r ps))"

definition frame :: "glayer \<Rightarrow> glayer \<Rightarrow> bytes \<Rightarrow> glayer list" where
  "frame ip udp b =
     [Ethernet [0, 0, 0x5E, 0, 0x53, 0] [0x33, 0x33, 0, 1, 0, 2] (ethernet_type ip), ip,
      SetNetworkLayerForChecksum udp ip, PayloadLayer b]"

definition frame_bytes :: "'r pcap_env \<Rightarrow> glayer \<Rightarrow> glayer \<Rightarrow> bytes \<Rightarrow> bytes" where
  "frame_bytes env ip udp b = SerializeLayers env True True (frame ip udp b)"

lemma MAC_addresses:
  "mustParseMAC ''00:00:5E:00:53:00'' = Inr [0, 0, 0x5E, 0, 0x53, 0]"
  "mustParseMAC ''33:33:00:01:00:02'' = Inr [0x33, 0x33, 0, 1, 0, 2]"
  by (simp_all add: mustParseMAC_def ParseMAC_def fromHex_def)

lemma pcapwrite_frame:
  "pcapwrite env w ip udp b fs =
     (let got = SerializeLayers env True True (frame ip udp b);
          (e, contents) = WritePacket env (length got) (length got) got (case fs w of None \<Rightarrow> [] | Some f \<Rightarrow> f)
      in Inr (map_option (\<lambda>e. ''pcap.WritePacket(): '' @ e) e, fs(w \<mapsto> contents)))"
  by (simp add: pcapwrite_def MAC_addresses frame_def ethernet_type_def Let_def)

lemma pcapopen_record:
  assumes "pcap_laws env written" "pcapopen env input out fs = ((r, w, None), fs')" "out \<noteq> ''''"
  shows "w = Some out \<and> (\<exists>f. fs' out = Some f \<and> written f [])"
proof -
  obtain f where f: "WriteFileHeader env 1600 1 [] = (None, f)" "written f []"
    using assms(1) by (auto simp: pcap_laws_def)
  show ?thesis
    using assms(2,3) f by (auto simp: pcapopen_def split: sum.splits option.splits)
qed

lemma pcapopen_replay:
  assumes "pcap_laws env written" "fs p = Some f" "written f ps" "open_error env p = None"
  shows "\<exists>r. pcapopen env p '''' fs = ((Some (p, r), None, None), fs) \<and> reads_back env f r ps"
proof -
  obtain r where "pcapgo_NewReader env f = Inr r" "reads_back env f r ps"
    using assms(1,3) unfolding pcap_laws_def by blast
  then show ?thesis using assms(2,4) by (simp add: pcapopen_def os_Open_def)
qed

section \<open>The contract of a connection\<close>

locale replay_conn =
  fixes env :: "'r pcap_env"
    and ip :: glayer
    and udp :: glayer
    and deliver :: "bytes \<Rightarrow> bytes option"
    and WriteTo :: "'r packetConn \<Rightarrow> bytes \<Rightarrow> files \<Rightarrow> ((nat \<times> string option) \<times> files) result"
    and ReadFrom :: "files \<Rightarrow> 'r packetConn \<Rightarrow> bytes \<Rightarrow>
      ((nat \<times> bytes option \<times> string option) \<times> bytes \<times> 'r packetConn) result"
  assumes WriteTo_record:
      "pcapw c = Some w \<Longrightarrow> WriteTo c b fs = bindR (pcapwrite env w ip udp b fs) (\<lambda>(e, fs). Inr ((length b, e), fs))"
    and ReadFrom_packet:
      "next_packet env fs (pcapr c) = Inr (Inr data, rd) \<Longrightarrow> deliver data = Some p \<Longrightarrow>
       \<exists>a. ReadFrom fs c buf = Inr ((length p, a, None), copy_into buf p, c\<lparr>pcapr := rd\<rparr>)"
    and ReadFrom_end:
      "next_packet env fs (pcapr c) = Inr (Inl e, rd) \<Longrightarrow>
       \<exists>a. ReadFrom fs c buf = Inr ((0, a, Some e), buf, c\<lparr>pcapr := rd\<rparr>)"
begin

abbreviation sent_frame :: "bytes \<Rightarrow> bytes" where
  "sent_frame b \<equiv> frame_bytes env ip udp b"

lemma sends:
  assumes laws: "pcap_laws env written" and c: "pcapw c = Some w"
  shows "\<lbrakk>fs w = Some f; written f ps; \<forall>b \<in> set bs. length (sent_frame b) \<le> 1600\<rbrakk> \<Longrightarrow>
    \<exists>fs' f'. send_all (WriteTo c) bs fs = Inr (map (\<lambda>b. (length b, None)) bs, fs') \<and> fs' w = Some f' \<and>
      written f' (ps @ map sent_frame bs) \<and> (\<forall>p. p \<noteq> w \<longrightarrow> fs' p = fs p)"
proof (induction bs arbitrary: fs f ps)
  case (Cons b bs)
  obtain f1 where f1: "WritePacket env (length (sent_frame b)) (length (sent_frame b)) (sent_frame b) f = (None, f1)"
    "written f1 (ps @ [sent_frame b])"
    using laws Cons.prems unfolding pcap_laws_def by (meson list.set_intros(1))
  have wr: "WriteTo c b fs = Inr ((length b, None), fs(w \<mapsto> f1))"
    using f1(1) Cons.prems(1) by (simp add: WriteTo_record [OF c] pcapwrite_frame frame_bytes_def Let_def)
  have "\<exists>fs' f'. send_all (WriteTo c) bs (fs(w \<mapsto> f1)) = Inr (map (\<lambda>b. (length b, None)) bs, fs') \<and> fs' w = Some f' \<and>
      written f' ((ps @ [sent_frame b]) @ map sent_frame bs) \<and> (\<forall>p. p \<noteq> w \<longrightarrow> fs' p = (fs(w \<mapsto> f1)) p)"
    by (rule Cons.IH) (use Cons.prems(3) f1(2) in simp_all)
  then obtain fs' f' where "send_all (WriteTo c) bs (fs(w \<mapsto> f1)) = Inr (map (\<lambda>b. (length b, None)) bs, fs')"
    "fs' w = Some f'" "written f' ((ps @ [sent_frame b]) @ map sent_frame bs)"
    "\<forall>p. p \<noteq> w \<longrightarrow> fs' p = (fs(w \<mapsto> f1)) p" by blast
  then show ?case by (intro exI [of _ fs'] exI [of _ f']) (simp add: wr)
qed simp

lemma receives:
  assumes "fs p = Some f"
  shows "\<lbrakk>pcapr c = Some (p, r); reads_back env f r (ps @ rest); map deliver ps = map Some ms;
      \<forall>m \<in> set ms. length m \<le> room\<rbrakk> \<Longrightarrow>
    \<exists>r'. receive_all (ReadFrom fs) room (length ps) c = Inr (map (\<lambda>m. (m, None)) ms, c\<lparr>pcapr := Some (p, r')\<rparr>) \<and>
      reads_back env f r' rest"
proof (induction ps arbitrary: c r ms)
  case Nil
  then show ?case by (intro exI [of _ r]) simp
next
  case (Cons d ps)
  then obtain m ms' where ms: "ms = m # ms'" "deliver d = Some m" "map deliver ps = map Some ms'" by (cases ms) auto
  obtain r1 where r1: "ReadPacketData env f r = (Inr d, r1)" "reads_back env f r1 (ps @ rest)"
    using Cons.prems(2) by (cases "ReadPacketData env f r") auto
  have "next_packet env fs (pcapr c) = Inr (Inr d, Some (p, r1))"
    using Cons.prems(1) r1 assms by (simp add: next_packet_def)
  from ReadFrom_packet [OF this ms(2)] obtain a where
    read: "ReadFrom fs c (replicate room 0) = Inr ((length m, a, None), copy_into (replicate room 0) m, c\<lparr>pcapr := Some (p, r1)\<rparr>)"
    by blast
  from Cons.IH [of "c\<lparr>pcapr := Some (p, r1)\<rparr>" r1 ms'] r1(2) ms Cons.prems(4)
  obtain r' where "receive_all (ReadFrom fs) room (length ps) (c\<lparr>pcapr := Some (p, r1)\<rparr>) =
      Inr (map (\<lambda>m. (m, None)) ms', c\<lparr>pcapr := Some (p, r')\<rparr>)" "reads_back env f r' rest" by auto
  then show ?case using ms Cons.prems(4)
    by (intro exI [of _ r']) (simp add: read take_copy_into)
qed

lemma at_end:
  assumes "fs p = Some f" "pcapr c = Some (p, r)" "fst (ReadPacketData env f r) = Inl ''EOF''"
  shows "\<exists>a c'. ReadFrom fs c buf = Inr ((0, a, Some ''EOF''), buf, c')"
proof -
  obtain r' where "next_packet env fs (pcapr c) = Inr (Inl ''EOF'', Some (p, r'))"
    using assms by (cases "ReadPacketData env f r") (simp add: next_packet_def)
  then show ?thesis using ReadFrom_end by blast
qed

text \<open>Recording and replaying: \<open>got b\<close> is what comes back of \<open>b\<close>.\<close>

lemma replays:
  assumes laws: "pcap_laws env written"
    and opened: "pcapopen env input out fs = ((r, w, None), fs1)" "out \<noteq> ''''" "open_error env out = None"
    and fits: "\<forall>b \<in> set bs. length (sent_frame b) \<le> 1600 \<and> deliver (sent_frame b) = Some (got b) \<and> length (got b) \<le> room"
  shows "\<exists>fs2 r1 c2 a c3.
    send_all (WriteTo \<lparr>pcapr = r, pcapw = w\<rparr>) bs fs1 = Inr (map (\<lambda>b. (length b, None)) bs, fs2) \<and>
    pcapopen env out '''' fs2 = ((Some (out, r1), None, None), fs2) \<and>
    receive_all (ReadFrom fs2) room (length bs) \<lparr>pcapr = Some (out, r1), pcapw = None\<rparr> =
      Inr (map (\<lambda>b. (got b, None)) bs, c2) \<and>
    ReadFrom fs2 c2 buf = Inr ((0, a, Some ''EOF''), buf, c3)"
proof -
  let ?c = "\<lparr>pcapr = r, pcapw = w\<rparr>"
  obtain f where f: "pcapw ?c = Some out" "fs1 out = Some f" "written f []"
    using pcapopen_record [OF laws opened(1,2)] by auto
  obtain fs2 f2 where sent: "send_all (WriteTo ?c) bs fs1 = Inr (map (\<lambda>b. (length b, None)) bs, fs2)"
    "fs2 out = Some f2" "written f2 (map sent_frame bs)"
    using sends [where written = written and w = out and fs = fs1 and f = f and ps = "[]" and bs = bs, OF laws f] fits by auto
  obtain r1 where r1: "pcapopen env out '''' fs2 = ((Some (out, r1), None, None), fs2)" "reads_back env f2 r1 (map sent_frame bs)"
    using pcapopen_replay [where written = written and p = out and fs = fs2 and f = f2, OF laws sent(2,3) opened(3)] by blast
  have "map deliver (map sent_frame bs) = map Some (map got bs)" "\<forall>m \<in> set (map got bs). length m \<le> room"
    using fits by auto
  from receives [where p = out and fs = fs2 and f = f2 and r = r1 and ps = "map sent_frame bs" and rest = "[]" and ms = "map got bs"
      and c = "\<lparr>pcapr = Some (out, r1), pcapw = None\<rparr>", OF sent(2) _ _ this] r1(2) obtain r2 where
    r2: "receive_all (ReadFrom fs2) room (length bs) \<lparr>pcapr = Some (out, r1), pcapw = None\<rparr> =
      Inr (map (\<lambda>b. (got b, None)) bs, \<lparr>pcapr = Some (out, r2), pcapw = None\<rparr>)"
    "fst (ReadPacketData env f2 r2) = Inl ''EOF''" by (auto simp: comp_def)
  obtain a c3 where "ReadFrom fs2 \<lparr>pcapr = Some (out, r2), pcapw = None\<rparr> buf = Inr ((0, a, Some ''EOF''), buf, c3)"
    using at_end [where p = out and fs = fs2 and f = f2 and r = r2 and c = "\<lparr>pcapr = Some (out, r2), pcapw = None\<rparr>" and buf = buf] sent(2) r2(2) by auto
  then show ?thesis using sent(1) r1(1) r2(1) by blast
qed

lemma short_buffer:
  assumes "next_packet env fs (pcapr c) = Inr (Inr data, rd)" "deliver data = Some p"
  shows "\<exists>n a buf' c'. ReadFrom fs c buf = Inr ((n, a, None), buf', c') \<and>
    (n \<le> length buf' \<longleftrightarrow> length p \<le> length buf)"
  using ReadFrom_packet [OF assms, of buf] by (metis length_copy_into)

end

interpretation pc: replay_conn env packetConn_ip "UDPLayer 546 547 None" "udp_LayerPayload env"
    "packetConn_WriteTo env" "packetConn_ReadFrom env"
  for env :: "'r pcap_env"
  by unfold_locales (simp_all add: packetConn_WriteTo_def packetConn_ReadFrom_def readFrom_def)

interpretation dc: replay_conn env dhcp4conn_ip "UDPLayer 68 67 None" "eth_LayerPayload env"
    "dhcp4conn_WriteTo env" "dhcp4conn_ReadFrom env"
  for env :: "'r pcap_env"
  by unfold_locales (simp_all add: dhcp4conn_WriteTo_def dhcp4conn_ReadFrom_def Let_def)

section \<open>A pcap library\<close>

text \<open>
  The file format in its big-endian form: a header of 24 bytes, then each packet after a record
  header of 16 bytes. The layers are serialised without checksums, the addresses cut to their size.
\<close>

definition pcap_header :: bytes where
  "pcap_header = [0xA1, 0xB2, 0xC3, 0xD4, 0, 2, 0, 4] @ replicate 8 0 @ be_bytes4 1600 @ be_bytes4 1"

definition pcap_packet :: "bytes \<Rightarrow> bytes" where
  "pcap_packet p = replicate 8 0 @ be_bytes4 (length p) @ be_bytes4 (length p) @ p"

definition pcap_read :: "bytes \<Rightarrow> nat \<Rightarrow> (string + bytes) \<times> nat" where
  "pcap_read f off =
     (let r = drop off f; n = be_val (take 4 (drop 8 r)) in
      if r = [] then (Inl ''EOF'', off)
      else if length r < 16 then (Inl ''unexpected EOF'', off)
      else if n > 1600 then (Inl ''capture length exceeds snap length'', off)
      else if length r < 16 + n then (Inl ''unexpected EOF'', off)
      else (Inr (take n (drop 16 r)), off + 16 + n))"

definition u16_bytes :: "nat \<Rightarrow> bytes" where "u16_bytes n = [of_nat (n div 256), of_nat n]"

definition fit :: "nat \<Rightarrow> bytes \<Rightarrow> bytes" where "fit n bs = take n (bs @ replicate n 0)"

fun serialize :: "glayer list \<Rightarrow> bytes" where
  "serialize [] = []"
| "serialize (Ethernet src dst t # ls) = fit 6 dst @ fit 6 src @ u16_bytes t @ serialize ls"
| "serialize (IPv4Layer v ttl proto src dst # ls) =
     (let p = serialize ls in
      [of_nat (16 * v + 5), 0] @ u16_bytes (20 + length p) @ [0, 0, 0, 0, of_nat ttl, of_nat proto, 0, 0] @
      fit 4 (To4 src) @ fit 4 (To4 dst) @ p)"
| "serialize (IPv6Layer v tc nh hl src dst # ls) =
     (let p = serialize ls in
      [of_nat (16 * v), 0, 0, 0] @ u16_bytes (length p) @ [of_nat nh, of_nat hl] @ fit 16 src @ fit 16 dst @ p)"
| "serialize (UDPLayer s d _ # ls) =
     (let p = serialize ls in u16_bytes s @ u16_bytes d @ u16_bytes (8 + length p) @ [0, 0] @ p)"
| "serialize (PayloadLayer b # ls) = b @ serialize ls"

definition plain_pcap :: "nat pcap_env" where
  "plain_pcap =
     \<lparr>open_error = (\<lambda>_. None), mkdir_error = (\<lambda>_. None), create_error = (\<lambda>_. None), filepath_Dir = (\<lambda>p. ''/tmp''),
      pcapgo_NewReader = (\<lambda>f. if length f < 24 then Inl ''unexpected EOF'' else Inr 24),
      ReadPacketData = pcap_read,
      WriteFileHeader = (\<lambda>snap link f. (None, f @ pcap_header)),
      WritePacket = (\<lambda>cl l p f. (None, f @ pcap_packet p)),
      eth_LayerPayload = (\<lambda>p. if length p < 14 then None else Some (drop 14 p)),
      udp_LayerPayload = (\<lambda>p. if length p < 62 then None else Some (drop 62 p)),
      SerializeLayers = (\<lambda>fix_lengths checksums ls. serialize ls)\<rparr>"

definition pcap_image :: "bytes \<Rightarrow> bytes list \<Rightarrow> bool" where
  "pcap_image f ps \<longleftrightarrow> f = pcap_header @ concat (map pcap_packet ps) \<and> (\<forall>p \<in> set ps. length p \<le> 1600)"

lemma plain_pcap_fields [simp]:
  "ReadPacketData plain_pcap = pcap_read"
  "pcapgo_NewReader plain_pcap f = (if length f < 24 then Inl ''unexpected EOF'' else Inr 24)"
  "WriteFileHeader plain_pcap n l f = (None, f @ pcap_header)"
  "WritePacket plain_pcap n m p f = (None, f @ pcap_packet p)"
  "eth_LayerPayload plain_pcap p = (if length p < 14 then None else Some (drop 14 p))"
  "udp_LayerPayload plain_pcap p = (if length p < 62 then None else Some (drop 62 p))"
  "SerializeLayers plain_pcap x y = serialize" "open_error plain_pcap q = None" "mkdir_error plain_pcap q = None"
  "create_error plain_pcap q = None"
  by (simp_all add: plain_pcap_def)

lemma length_fit [simp]: "length (fit n bs) = n"
  by (simp add: fit_def)

lemma length_u16_bytes [simp]: "length (u16_bytes n) = 2"
  by (simp add: u16_bytes_def)

lemma length_pcap_header [simp]: "length pcap_header = 24"
  by (simp add: pcap_header_def)

lemma pcap_read_packet:
  assumes "length p \<le> 1600"
  shows "pcap_read (pre @ pcap_packet p @ rest) (length pre) = (Inr p, length pre + 16 + length p)"
proof -
  have "be_val (be_bytes4 (length p)) = length p" using assms by (simp add: be_val_be_bytes4)
  then show ?thesis using assms by (simp add: pcap_read_def pcap_packet_def)
qed

lemma pcap_reads_back:
  "\<forall>p \<in> set ps. length p \<le> 1600 \<Longrightarrow> reads_back plain_pcap (pre @ concat (map pcap_packet ps)) (length pre) ps"
proof (induction ps arbitrary: pre)
  case Nil
  then show ?case by (simp add: pcap_read_def)
next
  case (Cons p ps)
  have "length pre + 16 + length p = length (pre @ pcap_packet p)" by (simp add: pcap_packet_def)
  moreover have "reads_back plain_pcap (pre @ pcap_packet p @ concat (map pcap_packet ps)) (length (pre @ pcap_packet p)) ps"
    using Cons.IH [of "pre @ pcap_packet p"] Cons.prems by simp
  ultimately have "reads_back plain_pcap (pre @ pcap_packet p @ concat (map pcap_packet ps)) (length pre + 16 + length p) ps"
    by (simp only:)
  then show ?case using Cons.prems pcap_read_packet [of p pre] by (simp del: length_append)
qed

lemma plain_pcap_laws: "pcap_laws plain_pcap pcap_image"
  unfolding pcap_laws_def pcap_image_def
  using pcap_reads_back [of _ pcap_header] by auto

section \<open>Properties\<close>

text \<open>
  What \<open>gopacket\<close> documents of a packet within the size of an Ethernet frame: with lengths fixed, the
  headers take 62 (IPv6) or 42 (IPv4) bytes, and decoding finds the payload of the layer.
\<close>

definition udp_laws :: "'r pcap_env \<Rightarrow> bool" where
  "udp_laws env \<longleftrightarrow>
     (\<forall>b. length b \<le> 1538 \<longrightarrow>
        length (frame_bytes env packetConn_ip (UDPLayer 546 547 None) b) = 62 + length b \<and>
        udp_LayerPayload env (frame_bytes env packetConn_ip (UDPLayer 546 547 None) b) = Some b)"

definition ip_packet :: "'r pcap_env \<Rightarrow> bytes \<Rightarrow> bytes" where
  "ip_packet env b = SerializeLayers env True True (tl (frame dhcp4conn_ip (UDPLayer 68 67 None) b))"

definition eth_laws :: "'r pcap_env \<Rightarrow> bool" where
  "eth_laws env \<longleftrightarrow>
     (\<forall>b. 18 \<le> length b \<and> length b \<le> 1558 \<longrightarrow>
        length (ip_packet env b) = 28 + length b \<and>
        length (frame_bytes env dhcp4conn_ip (UDPLayer 68 67 None) b) = 42 + length b \<and>
        eth_LayerPayload env (frame_bytes env dhcp4conn_ip (UDPLayer 68 67 None) b) =
          Some (ip_packet env b))"

lemma NewPacketConn_iff:
  "NewPacketConn env input out fs = ((c, err), fs') \<longleftrightarrow>
     (\<exists>r w. pcapopen env input out fs = ((r, w, err), fs') \<and> c = \<lparr>pcapr = r, pcapw = w\<rparr>)"
  by (cases "pcapopen env input out fs") (auto simp: NewPacketConn_def)

lemma NewDHCP4Conn_iff: "NewDHCP4Conn env input out fs = NewPacketConn env input out fs"
  by (simp add: NewDHCP4Conn_def NewPacketConn_def)

text \<open>
  C29. What is sent over a recording DHCPv6 connection comes back from its file: every message of at
  most 1538 bytes is accepted, and a connection that replays the file returns the messages with their
  lengths, in order, and then the end of the file.
\<close>

theorem packetConn_replay:
  assumes "pcap_laws env written" "udp_laws env"
    and "NewPacketConn env input out fs = ((c, None), fs1)" "out \<noteq> ''''" "open_error env out = None"
    and "\<forall>b \<in> set bs. length b \<le> 1538 \<and> length b \<le> room"
  shows "\<exists>fs2 c1 c2 a c3.
    send_all (packetConn_WriteTo env c) bs fs1 = Inr (map (\<lambda>b. (length b, None)) bs, fs2) \<and>
    NewPacketConn env out '''' fs2 = ((c1, None), fs2) \<and>
    receive_all (packetConn_ReadFrom env fs2) room (length bs) c1 = Inr (map (\<lambda>b. (b, None)) bs, c2) \<and>
    packetConn_ReadFrom env fs2 c2 buf = Inr ((0, a, Some ''EOF''), buf, c3)"
proof -
  obtain r w where c: "pcapopen env input out fs = ((r, w, None), fs1)" "c = \<lparr>pcapr = r, pcapw = w\<rparr>"
    using assms(3) by (auto simp: NewPacketConn_iff)
  have "\<forall>b \<in> set bs. length (frame_bytes env packetConn_ip (UDPLayer 546 547 None) b) \<le> 1600 \<and> udp_LayerPayload env (frame_bytes env packetConn_ip (UDPLayer 546 547 None) b) = Some b \<and> length b \<le> room"
    using assms(2,6) by (auto simp: udp_laws_def)
  from pc.replays [OF assms(1) c(1) assms(4,5) this, of buf] show ?thesis
    unfolding NewPacketConn_iff c(2) by blast
qed

text \<open>
  A DHCPv4 connection does not hand back what was sent: \<open>WriteTo\<close> takes its argument as the
  payload of a UDP packet, \<open>ReadFrom\<close> returns the payload of the Ethernet frame, so that every message
  comes back behind 28 bytes of IPv4 and UDP header.
\<close>

lemma dhcp4conn_replay:
  assumes "pcap_laws env written" "eth_laws env"
    and "NewDHCP4Conn env input out fs = ((c, None), fs1)" "out \<noteq> ''''" "open_error env out = None"
    and "\<forall>b \<in> set bs. 18 \<le> length b \<and> length b \<le> 1558 \<and> length b + 28 \<le> room"
  shows "\<exists>fs2 c1 c2 a c3.
    send_all (dhcp4conn_WriteTo env c) bs fs1 = Inr (map (\<lambda>b. (length b, None)) bs, fs2) \<and>
    NewDHCP4Conn env out '''' fs2 = ((c1, None), fs2) \<and>
    receive_all (dhcp4conn_ReadFrom env fs2) room (length bs) c1 = Inr (map (\<lambda>b. (ip_packet env b, None)) bs, c2) \<and>
    (\<forall>b \<in> set bs. length (ip_packet env b) = length b + 28) \<and>
    dhcp4conn_ReadFrom env fs2 c2 buf = Inr ((0, a, Some ''EOF''), buf, c3)"
proof -
  obtain r w where c: "pcapopen env input out fs = ((r, w, None), fs1)" "c = \<lparr>pcapr = r, pcapw = w\<rparr>"
    using assms(3) by (auto simp: NewPacketConn_iff NewDHCP4Conn_iff)
  have fits: "\<forall>b \<in> set bs. length (frame_bytes env dhcp4conn_ip (UDPLayer 68 67 None) b) \<le> 1600 \<and>
      eth_LayerPayload env (frame_bytes env dhcp4conn_ip (UDPLayer 68 67 None) b) = Some (ip_packet env b) \<and> length (ip_packet env b) \<le> room"
    and "\<forall>b \<in> set bs. length (ip_packet env b) = length b + 28"
    using assms(2,6) by (auto simp: eth_laws_def)
  with dc.replays [OF assms(1) c(1) assms(4,5) fits, of buf] show ?thesis
    unfolding NewPacketConn_iff NewDHCP4Conn_iff c(2) by blast
qed

lemma plain_udp_laws: "udp_laws plain_pcap"
  by (simp add: udp_laws_def frame_bytes_def frame_def SetNetworkLayerForChecksum_def packetConn_ip_def Let_def)

lemma plain_eth_laws: "eth_laws plain_pcap"
  by (simp add: eth_laws_def ip_packet_def frame_bytes_def frame_def SetNetworkLayerForChecksum_def dhcp4conn_ip_def Let_def)

definition demo_files :: files where
  "demo_files = [''fiber7.pcap'' \<mapsto> pcap_header]"

lemma demo_open:
  "NewPacketConn plain_pcap ''fiber7.pcap'' ''dhcp.pcap'' demo_files =
     ((\<lparr>pcapr = Some (''fiber7.pcap'', 24), pcapw = Some ''dhcp.pcap''\<rparr>, None), demo_files(''dhcp.pcap'' \<mapsto> pcap_header))"
  by (simp add: NewPacketConn_def pcapopen_def os_Open_def demo_files_def)

lemmas demo_open4 = demo_open [folded NewDHCP4Conn_iff]

lemma packetConn_replay_witness:
  "\<exists>fs2 c1 c2. NewPacketConn plain_pcap ''dhcp.pcap'' '''' fs2 = ((c1, None), fs2) \<and>
     receive_all (packetConn_ReadFrom plain_pcap fs2) 8192 (length [[1, 2, 3], [4 :: byte]]) c1 =
       Inr (map (\<lambda>b. (b, None)) [[1, 2, 3], [4]], c2)"
proof -
  have "\<forall>b \<in> set [[1, 2, 3], [4 :: byte]]. length b \<le> 1538 \<and> length b \<le> 8192" by simp
  from packetConn_replay [where buf = "[]", OF plain_pcap_laws plain_udp_laws demo_open list.distinct(2) plain_pcap_fields(8) this]
  show ?thesis by blast
qed

lemma dhcp4conn_replay_witness:
  "\<exists>fs2 c1 c2. NewDHCP4Conn plain_pcap ''dhcp.pcap'' '''' fs2 = ((c1, None), fs2) \<and>
     receive_all (dhcp4conn_ReadFrom plain_pcap fs2) 8192 (length [replicate 300 (7 :: byte)]) c1 =
       Inr (map (\<lambda>b. (ip_packet plain_pcap b, None)) [replicate 300 7], c2) \<and>
     (\<forall>b \<in> set [replicate 300 7]. length (ip_packet plain_pcap b) = length b + 28)"
proof -
  have "\<forall>b \<in> set [replicate 300 (7 :: byte)]. 18 \<le> length b \<and> length b \<le> 1558 \<and> length b + 28 \<le> 8192" by simp
  from dhcp4conn_replay [where buf = "[]", OF plain_pcap_laws plain_eth_laws demo_open4 list.distinct(2) plain_pcap_fields(8) this]
  show ?thesis by blast
qed

end
