(* ===== verification/ReplayClient.thy ===== *)
theory ReplayClient
  imports PcapReplayProps
begin

text \<open>
  The DHCPv4 client run over a connection that replays a recording, as \<open>dhcp4_test.go\<close> does: which
  recordings make it obtain a lease, and with which configuration.
\<close>

text \<open>
  \<open>dhcp4.Read\<close> of the package \<open>rtr7/dhcp4\<close> reads one packet from the connection and decodes it:
  \<open>decode\<close> is its decoder.
\<close>

definition received :: "(bytes \<Rightarrow> DHCPv4 option) \<Rightarrow> bytes \<times> string option \<Rightarrow> read4" where
  "received decode = (\<lambda>(m, err).
     case err of
       Some e \<Rightarrow> Failed (OtherErr e)
     | None \<Rightarrow> (case decode m of None \<Rightarrow> NotDhcp | Some p \<Rightarrow> Packet p))"

text \<open>The environment of a client whose connection accepts every packet and delivers these reads.\<close>

definition replay_env4 :: "time \<Rightarrow> read4 list \<Rightarrow> read4 list \<Rightarrow> env4" where
  "replay_env4 now in1 in2 =
     \<lparr>listen4 = None, uname = Inr [0], now4 = now, write_discover = None, in_offer = in1, write_request = None,
      in_ack = in2, write_release = None\<rparr>"

text \<open>Packets that a client waiting with \<open>stop\<close> passes over.\<close>

definition skipped :: "(bytes \<Rightarrow> DHCPv4 option) \<Rightarrow> (DHCPv4 \<Rightarrow> bool) \<Rightarrow> bytes list \<Rightarrow> bool" where
  "skipped decode stop ms \<longleftrightarrow> (\<forall>m \<in> set ms. \<forall>p. decode m = Some p \<longrightarrow> \<not> stop p)"

lemma first_answer_received:
  assumes "skipped decode stop ms" "decode m = Some p"
  shows "first_answer stop p (map (received decode) (map (\<lambda>m. (m, None)) (ms @ [m])))"
  unfolding first_answer_def
proof (intro exI conjI)
  show "map (received decode) (map (\<lambda>m. (m, None)) (ms @ [m])) =
      map (\<lambda>m. received decode (m, None)) ms @ Packet p # []"
    using assms(2) by (simp add: received_def)
  show "\<forall>r \<in> set (map (\<lambda>m. received decode (m, None)) ms). r = NotDhcp \<or> (\<exists>q. r = Packet q \<and> \<not> stop q)"
    using assms(1) by (auto simp: skipped_def received_def split: option.splits)
qed

lemma ObtainOrRenew_exchange:
  assumes "ready c" "Ack c = None" "write_discover env = None" "write_request env = None"
    and "offers lib (next_xid c) l" "first_answer (offers lib (next_xid c)) l (in_offer env)"
    and "acks lib (Xid l) ack" "first_answer (\<lambda>q. acks lib (Xid l) q \<or> naks lib (Xid l) q) ack (in_ack env)"
    and "mask_ok (l4_Netmask (LeaseFromACK lib ack))"
  shows "ObtainOrRenew lib env c =
    Inr (drawn c\<lparr>err4 := None, Ack := Some ack, cfg4 := new_config (LeaseFromACK lib ack) (now4 env) ack (cfg4 c)\<rparr>,
      [discover_packet lib c (next_xid c), request_packet lib c l], True)"
proof -
  have l: "offered lib env c = Inr l" using assms by (simp add: offered_iff)
  then have "exchange lib env c = Inr ack" using assms unfolding exchange_iff by blast
  moreover have "take_lease (LeaseFromACK lib ack) (now4 env) ack (cfg4 c) =
      Inr (new_config (LeaseFromACK lib ack) (now4 env) ack (cfg4 c))"
    using assms(9) by (simp add: take_lease_iff)
  ultimately show ?thesis
    using l assms(2) by (simp add: ObtainOrRenew_ready [OF assms(1)] exchange_sent_def discovers_def)
qed

text \<open>
  C28. The client obtains its lease from a recording of Ethernet frames in which, after packets that are
  no DHCPOFFER of its transaction, there is one, and after packets that are no DHCPACK or DHCPNAK of it
  a DHCPACK. It reads exactly these packets, and its configuration is the one of the DHCPACK.
\<close>

theorem replay_obtains:
  assumes "fs p = Some f" "pcapr conn = Some (p, r)" "reads_back env f r (frames1 @ frames2 @ rest)"
    and "map (eth_LayerPayload env) frames1 = map Some (pre @ [m1])"
    and "map (eth_LayerPayload env) frames2 = map Some (mid @ [m2])"
    and "\<forall>m \<in> set (pre @ [m1] @ mid @ [m2]). length m \<le> room"
    and "ready c" "Ack c = None" "decode m1 = Some l" "decode m2 = Some ack"
    and "offers lib (next_xid c) l" "skipped decode (offers lib (next_xid c)) pre"
    and "acks lib (Xid l) ack" "skipped decode (\<lambda>q. acks lib (Xid l) q \<or> naks lib (Xid l) q) mid"
    and "mask_ok (l4_Netmask (LeaseFromACK lib ack))"
  shows "\<exists>xs conn1 ys conn2 c'.
    receive_all (dhcp4conn_ReadFrom env fs) room (length pre + 1) conn = Inr (xs, conn1) \<and>
    receive_all (dhcp4conn_ReadFrom env fs) room (length mid + 1) conn1 = Inr (ys, conn2) \<and>
    ObtainOrRenew lib (replay_env4 now (map (received decode) xs) (map (received decode) ys)) c =
      Inr (c', [discover_packet lib c (next_xid c), request_packet lib c l], True) \<and>
    err4 c' = None \<and> Ack c' = Some ack \<and> cfg4 c' = new_config (LeaseFromACK lib ack) now ack (cfg4 c)"
proof -
  have n: "length frames1 = length pre + 1" "length frames2 = length mid + 1"
    using arg_cong [OF assms(4), of length] arg_cong [OF assms(5), of length] by simp_all
  obtain r1 where r1: "receive_all (dhcp4conn_ReadFrom env fs) room (length pre + 1) conn =
      Inr (map (\<lambda>m. (m, None)) (pre @ [m1]), conn\<lparr>pcapr := Some (p, r1)\<rparr>)" "reads_back env f r1 (frames2 @ rest)"
    using dc.receives [where fs = fs and p = p and f = f and room = room, OF assms(1,2,3,4)] assms(6) n by auto
  obtain r2 where r2: "receive_all (dhcp4conn_ReadFrom env fs) room (length mid + 1) (conn\<lparr>pcapr := Some (p, r1)\<rparr>) =
      Inr (map (\<lambda>m. (m, None)) (mid @ [m2]), conn\<lparr>pcapr := Some (p, r2)\<rparr>)"
    using dc.receives [where fs = fs and p = p and f = f and room = room and c = "conn\<lparr>pcapr := Some (p, r1)\<rparr>",
        OF assms(1) _ r1(2) assms(5)] assms(6) n by auto
  let ?env = "replay_env4 now (map (received decode) (map (\<lambda>m. (m, None)) (pre @ [m1])))
      (map (received decode) (map (\<lambda>m. (m, None)) (mid @ [m2])))"
  have "ObtainOrRenew lib ?env c =
    Inr (drawn c\<lparr>err4 := None, Ack := Some ack, cfg4 := new_config (LeaseFromACK lib ack) (now4 ?env) ack (cfg4 c)\<rparr>,
      [discover_packet lib c (next_xid c), request_packet lib c l], True)"
    using first_answer_received [OF assms(12,9)] first_answer_received [OF assms(14,10)] assms(7,8,11,13,15)
    by (intro ObtainOrRenew_exchange) (simp_all add: replay_env4_def)
  then show ?thesis using r1(1) r2 by (auto simp: replay_env4_def)
qed

text \<open>A recording in the format of \<open>plain_pcap\<close>, and a decoder that knows its packets.\<close>

definition demo_decode :: "bytes \<Rightarrow> DHCPv4 option" where
  "demo_decode m =
     (if m = [type_code MsgOffer] then Some (server_packet MsgOffer)
      else if m = [type_code MsgAck] then Some (server_packet MsgAck) else None)"

definition demo_frame :: "bytes \<Rightarrow> bytes" where "demo_frame m = replicate 14 0 @ m"

definition demo_recording :: files where
  "demo_recording =
     [''fiber7.pcap'' \<mapsto> pcap_header @ concat (map pcap_packet (map demo_frame [[9], [2], [2], [5], [7]]))]"

lemma demo_reads:
  "reads_back plain_pcap (pcap_header @ concat (map pcap_packet (map demo_frame [[9], [2], [2], [5], [7]]))) 24
     ([demo_frame [9], demo_frame [2]] @ [demo_frame [2], demo_frame [5]] @ [demo_frame [7]])"
  using pcap_reads_back [of "map demo_frame [[9], [2], [2], [5], [7]]" pcap_header] by (simp add: demo_frame_def)

lemma demo_payloads:
  "map (eth_LayerPayload plain_pcap) [demo_frame a, demo_frame b] = map Some ([a] @ [b])"
  by (simp add: demo_frame_def)

lemma demo_skipped:
  "skipped demo_decode (offers plain_dhcp4 (next_xid demo_client4)) [[9]]"
  "skipped demo_decode (\<lambda>q. acks plain_dhcp4 (Xid (server_packet MsgOffer)) q \<or>
      naks plain_dhcp4 (Xid (server_packet MsgOffer)) q) [[2]]"
  by (simp_all add: skipped_def demo_decode_def demo_answers)

lemma replay_obtains_witness:
  "\<exists>xs conn1 ys conn2 c'.
    receive_all (dhcp4conn_ReadFrom plain_pcap demo_recording) 8192 2 \<lparr>pcapr = Some (''fiber7.pcap'', 24), pcapw = None\<rparr> =
      Inr (xs, conn1) \<and>
    receive_all (dhcp4conn_ReadFrom plain_pcap demo_recording) 8192 2 conn1 = Inr (ys, conn2) \<and>
    ObtainOrRenew plain_dhcp4 (replay_env4 0 (map (received demo_decode) xs) (map (received demo_decode) ys)) demo_client4 =
      Inr (c', [discover_packet plain_dhcp4 demo_client4 (next_xid demo_client4),
                request_packet plain_dhcp4 demo_client4 (server_packet MsgOffer)], True) \<and>
    err4 c' = None \<and> Ack c' = Some (server_packet MsgAck)"
proof -
  have f: "demo_recording ''fiber7.pcap'' =
      Some (pcap_header @ concat (map pcap_packet (map demo_frame [[9], [2], [2], [5], [7]])))"
    by (simp add: demo_recording_def)
  have c: "pcapr \<lparr>pcapr = Some (''fiber7.pcap'', 24), pcapw = None\<rparr> = Some (''fiber7.pcap'', 24 :: nat)" by simp
  have room: "\<forall>m \<in> set ([[9]] @ [[2]] @ [[2]] @ [[5 :: byte]]). length m \<le> 8192" by simp
  have two: "length [[9 :: byte]] + 1 = 2" "length [[2 :: byte]] + 1 = 2" by simp_all
  have msgs: "demo_decode [2] = Some (server_packet MsgOffer)" "demo_decode [5] = Some (server_packet MsgAck)"
    by (simp_all add: demo_decode_def)
  have ack: "offers plain_dhcp4 (next_xid demo_client4) (server_packet MsgOffer)"
    "acks plain_dhcp4 (Xid (server_packet MsgOffer)) (server_packet MsgAck)"
    "mask_ok (l4_Netmask (LeaseFromACK plain_dhcp4 (server_packet MsgAck)))"
    by (simp_all add: demo_answers mask_ok_def)
  show ?thesis
    using replay_obtains [where fs = demo_recording and p = "''fiber7.pcap''" and now = 0,
        OF f c demo_reads demo_payloads demo_payloads room demo_ready demo_answers(3) msgs
          ack(1) demo_skipped(1) ack(2) demo_skipped(2) ack(3)]
    unfolding two by blast
qed

end
