(* ===== verification/FilterGen.thy ===== *)
theory FilterGen
  imports Captured Config
begin

text \<open>
  \<open>cmd/captured/filterexpr.go\<close>: the program that \<open>go generate\<close> runs to write
  \<open>GENERATED_filterexpr.go\<close>. libpcap's compiler, \<open>go/format\<close> and the atomic writing of a file are
  parameters.
\<close>

section \<open>The generator\<close>

definition nl :: char where "nl = CHR 0x0A"
definition dquote :: char where "dquote = CHR 0x22"

definition expression :: string where
  "expression = ''icmp6 or (udp and (port 67 or port 68 or port 546 or port 547))''"

text \<open>\<open>Fprintf(w, "{%d, %d, %d, %d},\n", ...)\<close>\<close>

definition instruction_line :: "RawInstruction \<Rightarrow> string" where
  "instruction_line i =
     ''{'' @ itoa (Code i) @ '', '' @ itoa (Jt i) @ '', '' @ itoa (Jf i) @ '', '' @ itoa (K i) @ ''},'' @ [nl]"

text \<open>The error, and what has been written to \<open>w\<close>: the package clause even when the compiler fails.\<close>

definition gen :: "(nat \<Rightarrow> nat \<Rightarrow> string \<Rightarrow> string + RawInstruction list) \<Rightarrow> string option \<times> string" where
  "gen compile =
     (let out = ''package main'' @ [nl] in
      case compile 1 1500 expression of
        Inl e \<Rightarrow> (Some e, out)
      | Inr prog \<Rightarrow>
          (None,
           out @ ''import '' @ [dquote] @ ''golang.org/x/net/bpf'' @ [dquote, nl] @
           ''var instructions = []bpf.RawInstruction{'' @ [nl] @ concat (map instruction_line prog) @ ''}''))"

text \<open>\<open>main\<close>: the file that is written, or the exit status of \<open>log.Fatal\<close>.\<close>

definition gen_main ::
    "(nat \<Rightarrow> nat \<Rightarrow> string \<Rightarrow> string + RawInstruction list) \<Rightarrow> (string \<Rightarrow> string + string) \<Rightarrow>
     (string \<Rightarrow> string \<Rightarrow> nat \<Rightarrow> string option) \<Rightarrow> (string \<times> string) outcome" where
  "gen_main compile format_source writeFile =
     (case gen compile of
        (Some e, _) \<Rightarrow> Exit 1
      | (None, buffer) \<Rightarrow>
          (case format_source buffer of
             Inl e \<Rightarrow> Exit 1
           | Inr gofmt \<Rightarrow>
               (case writeFile ''GENERATED_filterexpr.go'' gofmt 420 of
                  Some e \<Rightarrow> Exit 1
                | None \<Rightarrow> Goes_on (''GENERATED_filterexpr.go'', gofmt))))"

section \<open>Reading the generated file\<close>

text \<open>The elements of the composite literal: the lines that start with a brace, up to indentation.\<close>

definition blank :: "char \<Rightarrow> bool" where
  "blank c \<longleftrightarrow> c = CHR '' '' \<or> c = CHR 0x09"

definition read_instruction :: "string \<Rightarrow> RawInstruction option" where
  "read_instruction l =
     (case dropWhile blank l of
        [] \<Rightarrow> None
      | c # r \<Rightarrow>
          if c \<noteq> CHR ''{'' then None
          else (case map (\<lambda>w. dec_val (dropWhile blank w)) (split_on CHR '','' (takeWhile (\<lambda>d. d \<noteq> CHR ''}'') r)) of
                  [code, t, f, k] \<Rightarrow> Some \<lparr>Code = code, Jt = t, Jf = f, K = k\<rparr>
                | _ \<Rightarrow> None))"

definition read_program :: "string \<Rightarrow> RawInstruction list" where
  "read_program file = List.map_filter read_instruction (split_on nl file)"

definition instruction_text :: "RawInstruction \<Rightarrow> string" where
  "instruction_text i = itoa (Code i) @ '', '' @ itoa (Jt i) @ '', '' @ itoa (Jf i) @ '', '' @ itoa (K i)"

lemma instruction_line_text: "instruction_line i = (CHR ''{'' # instruction_text i @ ''},'') @ nl # []"
  by (simp add: instruction_line_def instruction_text_def)

lemma is_digit_not:
  "is_digit c \<Longrightarrow> c \<noteq> CHR '',''" "is_digit c \<Longrightarrow> c \<noteq> CHR ''}''" "is_digit c \<Longrightarrow> c \<noteq> nl" "is_digit c \<Longrightarrow> \<not> blank c"
  by (auto simp: is_digit_def nl_def blank_def)

lemma itoa_char: "c \<in> set (itoa n) \<Longrightarrow> is_digit c"
  using itoa_digits [of n] by (simp add: list_all_iff)

lemma dropWhile_blank_itoa: "dropWhile blank (itoa n) = itoa n"
  by (cases "itoa n") (use itoa_char [of _ n] is_digit_not(4) in auto)

lemma comma_free: "CHR '','' \<notin> set (itoa n)" "CHR '','' \<notin> set (CHR '' '' # itoa n)"
  using itoa_char is_digit_not(1) by auto

lemma instruction_text_chars: "CHR ''}'' \<notin> set (instruction_text i)" "nl \<notin> set (instruction_text i)"
  using itoa_char is_digit_not(2,3) by (auto simp: instruction_text_def nl_def)

lemma split_instruction:
  "split_on CHR '','' (instruction_text i) =
     [itoa (Code i), CHR '' '' # itoa (Jt i), CHR '' '' # itoa (Jf i), CHR '' '' # itoa (K i)]"
  using comma_free by (simp add: instruction_text_def split_on_append split_on_single)

lemma read_instruction_line: "read_instruction (CHR ''{'' # instruction_text i @ ''},'') = Some i"
proof -
  have "takeWhile (\<lambda>d. d \<noteq> CHR ''}'') (instruction_text i @ ''},'') = instruction_text i"
    using instruction_text_chars(1) [of i] by (subst takeWhile_append2) auto
  then show ?thesis
    by (simp add: read_instruction_def blank_def [of "CHR ''{''"] split_instruction dropWhile_blank_itoa)
      (simp add: blank_def dropWhile_blank_itoa)
qed

lemma read_program_lines:
  "read_program (concat (map instruction_line prog) @ ''}'') = prog"
proof (induction prog)
  case Nil
  then show ?case by (simp add: read_program_def read_instruction_def blank_def nl_def List.map_filter_simps)
next
  case (Cons i prog)
  have eq: "concat (map instruction_line (i # prog)) @ ''}'' =
      (CHR ''{'' # instruction_text i @ ''},'') @ nl # (concat (map instruction_line prog) @ ''}'')"
    by (simp add: instruction_line_text)
  have "nl \<notin> set (CHR ''{'' # instruction_text i @ ''},'')"
    using instruction_text_chars(2) [of i] by (auto simp: nl_def)
  then have "split_on nl (concat (map instruction_line (i # prog)) @ ''}'') =
      (CHR ''{'' # instruction_text i @ ''},'') # split_on nl (concat (map instruction_line prog) @ ''}'')"
    unfolding eq by (rule split_on_append)
  then show ?case
    using Cons.IH read_instruction_line [of i] by (simp add: read_program_def List.map_filter_simps)
qed

lemma read_program_gen:
  assumes "compile 1 1500 expression = Inr prog"
  shows "fst (gen compile) = None \<and> read_program (snd (gen compile)) = prog"
proof -
  let ?rows = "concat (map instruction_line prog) @ ''}''"
  let ?a = "''package main''" and ?b = "''import '' @ [dquote] @ ''golang.org/x/net/bpf'' @ [dquote]"
    and ?c = "''var instructions = []bpf.RawInstruction{''"
  have body: "snd (gen compile) = ?a @ nl # ?b @ nl # ?c @ nl # ?rows" and ok: "fst (gen compile) = None"
    using assms by (simp_all add: gen_def Let_def)
  have heads: "nl \<notin> set ?a" "nl \<notin> set ?b" "nl \<notin> set ?c"
    by (simp_all add: nl_def dquote_def)
  have "split_on nl (?a @ nl # ?b @ nl # ?c @ nl # ?rows) = ?a # ?b # ?c # split_on nl ?rows"
    using split_on_append [OF heads(1)] split_on_append [OF heads(2)] split_on_append [OF heads(3)] by presburger
  moreover have "read_instruction ?a = None" "read_instruction ?b = None" "read_instruction ?c = None"
    by (simp_all add: read_instruction_def blank_def)
  ultimately have "read_program (snd (gen compile)) = read_program ?rows"
    unfolding body read_program_def by (simp only: List.map_filter_simps option.case)
  then show ?thesis using ok read_program_lines by simp
qed

section \<open>Properties\<close>

text \<open>
  C30. The generated file defines the compiled program. If libpcap compiles the expression for Ethernet
  frames of 1500 bytes to \<open>prog\<close>, and formatting the source and writing the file succeed, the
  generator writes \<open>GENERATED_filterexpr.go\<close>, whose elements are \<open>prog\<close>: every instruction in its
  place and every field with its value, provided that formatting keeps the elements of a composite
  literal. If one of the three fails there is no file and the exit status is 1.
\<close>

theorem generated_program:
  assumes "\<And>src out. format_source src = Inr out \<Longrightarrow> read_program out = read_program src"
  shows "case compile 1 1500 expression of
      Inl e \<Rightarrow> gen_main compile format_source writeFile = Exit 1
    | Inr prog \<Rightarrow>
        (case format_source (snd (gen compile)) of
           Inl e \<Rightarrow> gen_main compile format_source writeFile = Exit 1
         | Inr file \<Rightarrow>
             if writeFile ''GENERATED_filterexpr.go'' file 420 = None
             then gen_main compile format_source writeFile = Goes_on (''GENERATED_filterexpr.go'', file) \<and>
               read_program file = prog
             else gen_main compile format_source writeFile = Exit 1)"
proof (cases "compile 1 1500 expression")
  case (Inl e)
  then show ?thesis by (simp add: gen_main_def gen_def)
next
  case (Inr prog)
  then have g: "fst (gen compile) = None" "read_program (snd (gen compile)) = prog"
    using read_program_gen by blast+
  then show ?thesis
    using Inr assms by (cases "gen compile") (auto simp: gen_main_def split: sum.split option.split)
qed

text \<open>The program that is checked in is printed and read back as it is.\<close>

lemma generated_program_witness:
  "\<exists>file. gen_main (\<lambda>link snap e. Inr instructions) Inr (\<lambda>name data perm. None) =
      Goes_on (''GENERATED_filterexpr.go'', file) \<and> read_program file = instructions"
  using generated_program [of Inr "\<lambda>(link :: nat) (snap :: nat) (e :: string). Inr instructions"
      "\<lambda>name data perm. None"]
  by simp

end
