(* ===== verification/DiagHeap.thy ===== *)
theory DiagHeap
  imports Diagd
begin

text \<open>
  The nodes of the package \<open>diag\<close> as the code has them: objects behind pointers, whose method \<open>Then\<close>
  changes the receiver and returns it. The daemon's chain of calls builds a tree in which every child
  was allocated after its parent; evaluating it through the pointers is evaluating \<open>diag_tree\<close>.
\<close>

section \<open>Objects\<close>

text \<open>An object is the dynamic type with its fields, and the field \<open>children\<close>; a pointer is its place.\<close>

record node_object =
  obj_kind :: kind
  obj_children :: "nat list"

type_synonym node_heap = "node_object list"

definition new_object :: "kind \<Rightarrow> node_heap \<Rightarrow> nat \<times> node_heap" where
  "new_object k h = (length h, h @ [\<lparr>obj_kind = k, obj_children = []\<rparr>])"

definition append_child :: "node_heap \<Rightarrow> nat \<Rightarrow> nat \<Rightarrow> nat \<times> node_heap" where
  "append_child h d t = (d, h[d := (h ! d)\<lparr>obj_children := obj_children (h ! d) @ [t]\<rparr>])"

text \<open>The method \<open>Then\<close> of each type, and the call through the interface.\<close>

named_theorems then_defs

definition link_Then where [then_defs]: "link_Then = append_child"
definition dhcpv4_Then where [then_defs]: "dhcpv4_Then = append_child"
definition dhcpv6_Then where [then_defs]: "dhcpv6_Then = append_child"
definition ping4gw_Then where [then_defs]: "ping4gw_Then = append_child"
definition ping4_Then where [then_defs]: "ping4_Then = append_child"
definition ping6gw_Then where [then_defs]: "ping6gw_Then = append_child"
definition ping6_Then where [then_defs]: "ping6_Then = append_child"
definition ra6_Then where [then_defs]: "ra6_Then = append_child"
definition tcp4_Then where [then_defs]: "tcp4_Then = append_child"
definition tcp6_Then where [then_defs]: "tcp6_Then = append_child"

definition node_Then :: "node_heap \<Rightarrow> nat \<Rightarrow> nat \<Rightarrow> nat \<times> node_heap" where
  "node_Then h d t =
     (case obj_kind (h ! d) of
        Link _ \<Rightarrow> link_Then h d t
      | DHCPv4node \<Rightarrow> dhcpv4_Then h d t
      | DHCPv6node \<Rightarrow> dhcpv6_Then h d t
      | Ping4Gateway \<Rightarrow> ping4gw_Then h d t
      | Ping4 _ \<Rightarrow> ping4_Then h d t
      | Ping6Gateway \<Rightarrow> ping6gw_Then h d t
      | Ping6 _ _ \<Rightarrow> ping6_Then h d t
      | RouterAdvertisments _ \<Rightarrow> ra6_Then h d t
      | TCP4 _ \<Rightarrow> tcp4_Then h d t
      | TCP6 _ \<Rightarrow> tcp6_Then h d t)"

definition node_Children :: "node_heap \<Rightarrow> nat \<Rightarrow> nat list" where
  "node_Children h d = obj_children (h ! d)"

text \<open>
  \<open>evaluate\<close> through the pointers, down to a depth of \<open>fuel\<close>: a node below itself would be evaluated
  without end.
\<close>

fun evaluate_objects :: "nat \<Rightarrow> (kind \<Rightarrow> string + string) \<Rightarrow> node_heap \<Rightarrow> nat \<Rightarrow> string \<Rightarrow> EvalResult option" where
  "evaluate_objects 0 probe h n err = None"
| "evaluate_objects (Suc fuel) probe h n err =
     (let name = node_String (obj_kind (h ! n));
          (status, error) =
            (if err = '''' then (case probe (obj_kind (h ! n)) of Inl e \<Rightarrow> (e, True) | Inr s \<Rightarrow> (s, False))
             else (err, True));
          childErr = (if error then ''dependency '' @ name @ '' failed'' else '''')
      in map_option (EvalResult name error status)
           (those (map (\<lambda>c. evaluate_objects fuel probe h c childErr) (node_Children h n))))"

section \<open>The daemon's objects\<close>

text \<open>In \<open>a.Then(b)\<close> Go evaluates \<open>a\<close>, then \<open>b\<close>, then calls the method.\<close>

definition and_Then ::
    "(node_heap \<Rightarrow> nat \<times> node_heap) \<Rightarrow> (node_heap \<Rightarrow> nat \<times> node_heap) \<Rightarrow> node_heap \<Rightarrow> nat \<times> node_heap" where
  "and_Then a b h = (let (d, h) = a h; (t, h) = b h in node_Then h d t)"

definition diag_objects :: "string \<Rightarrow> node_heap \<Rightarrow> nat \<times> node_heap" where
  "diag_objects uplink =
     and_Then (and_Then (and_Then (and_Then (new_object (Link uplink))
       (and_Then (new_object DHCPv4node)
         (and_Then (new_object Ping4Gateway)
           (and_Then (new_object (Ping4 ''google.ch''))
             (new_object (TCP4 ''www.google.ch:80''))))))
       (and_Then (new_object DHCPv6node)
         (new_object (Ping6 ''lan0'' ''google.ch''))))
       (and_Then (new_object (RouterAdvertisments uplink))
         (and_Then (new_object Ping6Gateway)
           (and_Then (new_object (Ping6 uplink ''google.ch''))
             (new_object (TCP6 ''www.google.ch:80''))))))
       (new_object (Ping6 '''' (''ff02::2'' @ ''%'' @ uplink)))"

section \<open>Objects as trees\<close>

fun rep :: "node_heap \<Rightarrow> nat \<Rightarrow> node \<Rightarrow> bool" where
  "rep h p (Node k ts) \<longleftrightarrow>
     p < length h \<and> obj_kind (h ! p) = k \<and> list_all2 (\<lambda>q t. rep h q t) (node_Children h p) ts"

definition ordered :: "node_heap \<Rightarrow> bool" where
  "ordered h \<longleftrightarrow> (\<forall>p < length h. \<forall>q \<in> set (node_Children h p). p < q \<and> q < length h)"

lemma node_Then_append: "node_Then h d t = append_child h d t"
  by (simp add: node_Then_def then_defs split: kind.split)

lemma rep_in_heap: "rep h p t \<Longrightarrow> p < length h"
  by (cases t) simp

lemma ordered_child: "ordered h \<Longrightarrow> rep h p t \<Longrightarrow> q \<in> set (node_Children h p) \<Longrightarrow> p < q"
  using rep_in_heap [of h p t] unfolding ordered_def by blast

lemma rep_extend: "rep h p t \<Longrightarrow> rep (h @ xs) p t"
proof (induction t arbitrary: p)
  case (Node k ts)
  then have "list_all2 (rep (h @ xs)) (node_Children h p) ts"
    by (auto elim!: list.rel_mono_strong)
  then show ?case using Node.prems by (simp add: node_Children_def nth_append)
qed

lemma rep_update:
  "ordered h \<Longrightarrow> rep h p t \<Longrightarrow> d < p \<Longrightarrow> rep (h[d := x]) p t"
proof (induction t arbitrary: p)
  case (Node k ts)
  have "rep (h[d := x]) q t" if "q \<in> set (node_Children h p)" "t \<in> set ts" "rep h q t" for q t
    using Node.IH [OF that(2) Node.prems(1) that(3)] ordered_child [OF Node.prems(1,2) that(1)] Node.prems(3) by simp
  then have "list_all2 (rep (h[d := x])) (node_Children h p) ts"
    using Node.prems(2) by (auto elim!: list.rel_mono_strong)
  then show ?case using Node.prems(2,3) by (simp add: node_Children_def)
qed

lemma rep_Then:
  assumes "ordered h" "rep h d t" "rep h c u" "d < c"
  shows "rep (snd (node_Then h d c)) d (Then t u)" "ordered (snd (node_Then h d c))"
proof -
  let ?h = "h[d := (h ! d)\<lparr>obj_children := obj_children (h ! d) @ [c]\<rparr>]"
  obtain k ts where t: "t = Node k ts" by (cases t)
  have d: "d < length h" "c < length h" using assms(2,3) [THEN rep_in_heap] by simp_all
  have "rep ?h q v" if "q \<in> set (node_Children h d)" "rep h q v" for q v
    using rep_update [OF assms(1) that(2)] ordered_child [OF assms(1,2) that(1)] by blast
  then have "list_all2 (rep ?h) (node_Children h d) ts"
    using assms(2) t by (auto elim!: list.rel_mono_strong)
  then have "list_all2 (rep ?h) (node_Children h d @ [c]) (ts @ [u])"
    using rep_update [OF assms(1,3,4)] by (simp add: list_all2_appendI)
  then show "rep (snd (node_Then h d c)) d (Then t u)"
    using assms(2) t d by (simp add: node_Then_append append_child_def Then_def node_Children_def)
  show "ordered (snd (node_Then h d c))"
    unfolding ordered_def
  proof (intro allI impI ballI)
    fix p q assume "p < length (snd (node_Then h d c))" "q \<in> set (node_Children (snd (node_Then h d c)) p)"
    then have "p < length h" "q \<in> set (node_Children h p) \<or> p = d \<and> q = c"
      using d(1) by (auto simp: node_Then_append append_child_def node_Children_def nth_list_update split: if_splits)
    then have "p < q \<and> q < length h" using assms(1,4) d(2) unfolding ordered_def by blast
    then show "p < q \<and> q < length (snd (node_Then h d c))" by (simp add: node_Then_append append_child_def)
  qed
qed

section \<open>Building and evaluating\<close>

text \<open>
  The contract of an expression that builds a tree: it leaves the objects there were alone, its own are
  new, and the pointer it returns stands for the tree.
\<close>

definition builds :: "(node_heap \<Rightarrow> nat \<times> node_heap) \<Rightarrow> node \<Rightarrow> bool" where
  "builds b t \<longleftrightarrow>
     (\<forall>h. ordered h \<longrightarrow> (\<exists>p xs. b h = (p, h @ xs) \<and> length h \<le> p \<and> ordered (h @ xs) \<and> rep (h @ xs) p t))"

lemma builds_new: "builds (new_object k) (leaf k)"
  unfolding builds_def
proof (intro allI impI)
  fix h assume h: "ordered h"
  let ?new = "[\<lparr>obj_kind = k, obj_children = []\<rparr>]"
  have "ordered (h @ ?new)"
    unfolding ordered_def
  proof (intro allI impI ballI)
    fix p q assume "p < length (h @ ?new)" "q \<in> set (node_Children (h @ ?new) p)"
    then have "p < length h" "q \<in> set (node_Children h p)"
      by (auto simp: node_Children_def nth_append split: if_splits)
    then have "p < q \<and> q < length h" using h unfolding ordered_def by blast
    then show "p < q \<and> q < length (h @ ?new)" by simp
  qed
  moreover have "rep (h @ ?new) (length h) (leaf k)" by (simp add: leaf_def node_Children_def)
  ultimately show "\<exists>p xs. new_object k h = (p, h @ xs) \<and> length h \<le> p \<and> ordered (h @ xs) \<and> rep (h @ xs) p (leaf k)"
    by (auto simp: new_object_def)
qed

lemma builds_Then:
  assumes "builds a t" "builds b u"
  shows "builds (and_Then a b) (Then t u)"
  unfolding builds_def
proof (intro allI impI)
  fix h assume "ordered h"
  then obtain d xs where a: "a h = (d, h @ xs)" "length h \<le> d" "ordered (h @ xs)" "rep (h @ xs) d t"
    using assms(1) unfolding builds_def by blast
  then obtain c ys where b: "b (h @ xs) = (c, (h @ xs) @ ys)" "length (h @ xs) \<le> c"
    "ordered ((h @ xs) @ ys)" "rep ((h @ xs) @ ys) c u"
    using assms(2) unfolding builds_def by blast
  have dc: "d < c" "rep ((h @ xs) @ ys) d t"
    using rep_in_heap [OF a(4)] b(2) rep_extend [OF a(4)] by simp_all
  have "and_Then a b h = node_Then ((h @ xs) @ ys) d c" using a(1) b(1) by (simp add: and_Then_def)
  moreover obtain zs where "node_Then ((h @ xs) @ ys) d c = (d, h @ zs)"
    using a(2) by (simp add: node_Then_append append_child_def list_update_append)
  ultimately show "\<exists>p xs. and_Then a b h = (p, h @ xs) \<and> length h \<le> p \<and> ordered (h @ xs) \<and> rep (h @ xs) p (Then t u)"
    using rep_Then [OF b(3) dc(2) b(4) dc(1)] a(2) by auto
qed

lemma builds_diag: "builds (diag_objects uplink) (diag_tree uplink)"
  unfolding diag_objects_def diag_tree_def node_defs by (intro builds_Then builds_new)

text \<open>A tree of objects is evaluated with as much fuel as there are objects above it.\<close>

lemma evaluate_rep:
  "ordered h \<Longrightarrow> rep h p t \<Longrightarrow> length h - p \<le> fuel \<Longrightarrow>
     evaluate_objects fuel probe h p err = Some (evaluate probe t err)"
proof (induction t arbitrary: p fuel err)
  case (Node k ts)
  have p: "p < length h" using Node.prems(2) rep_in_heap by blast
  then obtain n where fuel: "fuel = Suc n" using Node.prems(3) by (cases fuel) auto
  have below: "evaluate_objects n probe h q e = Some (evaluate probe t e)"
    if "q \<in> set (node_Children h p)" "t \<in> set ts" "rep h q t" for q t e
    using Node.IH [OF that(2) Node.prems(1) that(3), of n e] ordered_child [OF Node.prems(1,2) that(1)]
      Node.prems(3) fuel p by simp
  have "map (\<lambda>q. evaluate_objects n probe h q e) (node_Children h p) = map (\<lambda>t. Some (evaluate probe t e)) ts" for e
    using Node.prems(2) below by (auto simp: list_all2_conv_all_nth intro!: nth_equalityI)
  moreover have "those (map (\<lambda>t. Some (evaluate probe t e)) ts) = Some (map (\<lambda>t. evaluate probe t e) ts)" for e
    by (induction ts) simp_all
  ultimately show ?case
    using Node.prems(2) by (simp add: fuel Let_def comp_def split: prod.split)
qed

text \<open>
  C26. The objects that the daemon builds stand for \<open>diag_tree\<close>: whatever was allocated before, the
  chain of calls leaves it alone, and evaluating the returned pointer ends (as many levels as there are
  objects are enough) with the result of the tree, for every outcome of the checks.
\<close>

theorem objects_refine_tree:
  "\<exists>root new. diag_objects uplink [] = (root, new) \<and>
     (\<forall>extra. evaluate_objects (length new + extra) probe new root '''' =
        Some (Monitor_Evaluate probe (diag_tree uplink)))"
proof -
  have "ordered []" by (simp add: ordered_def)
  then obtain root new where "diag_objects uplink [] = (root, new)" "ordered new" "rep new root (diag_tree uplink)"
    using builds_diag [of uplink] unfolding builds_def by force
  then show ?thesis by (auto simp: Monitor_Evaluate_def evaluate_rep)
qed

text \<open>\<open>Then\<close> takes any node: a node put below itself is evaluated without end.\<close>

lemma those_None: "x \<in> set xs \<Longrightarrow> f x = None \<Longrightarrow> those (map f xs) = None"
  by (induction xs) (auto split: option.split)

lemma own_child_diverges:
  assumes "p < length h"
  shows "evaluate_objects fuel probe (snd (node_Then h p p)) p err = None"
proof -
  let ?h = "snd (node_Then h p p)"
  have p: "p \<in> set (node_Children ?h p)"
    using assms by (simp add: node_Then_append append_child_def node_Children_def)
  show ?thesis
  proof (induction fuel arbitrary: err)
    case (Suc n)
    have "those (map (\<lambda>c. evaluate_objects n probe ?h c e) (node_Children ?h p)) = None" for e
      using those_None [OF p, of "\<lambda>c. evaluate_objects n probe ?h c e"] Suc.IH [of e] by simp
    then show ?case by (simp add: Let_def split: prod.split)
  qed simp
qed

end
