(* ===== verification/SpoofedAddress.thy ===== *)
theory SpoofedAddress
  imports Dhcp4Daemon
begin

text \<open>
  The hardware address of the uplink. \<open>cmd/dhcp4\<close> reads it from \<open>interfaces.json\<close> because netconfigd may
  not have set it yet: every packet of the daemon carries the address that the interface has once
  netconfigd has applied the same file.
\<close>

section \<open>The address in the packets\<close>

definition hw_ok :: "bytes \<Rightarrow> Client4 \<Rightarrow> bool" where
  "hw_ok hw c \<longleftrightarrow>
     HWAddr c = Some hw \<and> hardwareAddr c \<in> {None, Some hw} \<and>
     (once4 c \<and> onceErr c = None \<longrightarrow> hardwareAddr c = Some hw)"

lemma packet_hw [simp]:
  "ClientHWAddr (discover_packet lib c xid) = hw_of c" "ClientHWAddr (request_packet lib c l) = hw_of c"
  by (simp_all add: discover_packet_def request_packet_def packet4_def)

lemma hw_of_drawn [simp]: "hw_of (drawn c) = hw_of c" "hardwareAddr (drawn c) = hardwareAddr c"
    "HWAddr (drawn c) = HWAddr c" "once4 (drawn c) = once4 c" "onceErr (drawn c) = onceErr c"
  by (simp_all add: drawn_def hw_of_def)

lemma find_hw_ok:
  assumes "HWAddr c = Some hw" "hardwareAddr c \<in> {None, Some hw}"
  shows "find_hw c = Inr (c\<lparr>hardwareAddr := Some hw\<rparr>)"
  using assms by (cases "hardwareAddr c") (simp_all add: find_hw_def Let_def)

lemma find_hostname_hw: "find_hostname env c = Inr c' \<Longrightarrow> hardwareAddr c' = hardwareAddr c \<and> HWAddr c' = HWAddr c"
  by (auto simp: find_hostname_def split: if_splits sum.splits)

lemma run_once_hw:
  assumes "hw_ok hw c" "run_once lib env c = Inr c'"
  shows "hw_ok hw c'"
proof (cases "once4 c")
  case True
  then show ?thesis using assms by (simp add: run_once_def)
next
  case False
  let ?c = "c\<lparr>once4 := True\<rparr>"
  have body: "once_body lib env ?c = Inr c'" using assms(2) False by (simp add: run_once_def)
  show ?thesis
  proof (cases "\<not> connection ?c \<and> (Interface4 ?c = None \<or> listen4 env \<noteq> None)")
    case True
    then show ?thesis using body assms(1) by (auto simp: once_body_def hw_ok_def split: if_splits)
  next
    case False
    have hw: "find_hw (?c\<lparr>connection := True\<rparr>) = Inr (?c\<lparr>connection := True, hardwareAddr := Some hw\<rparr>)"
      using assms(1) by (subst find_hw_ok [of _ hw]) (auto simp: hw_ok_def)
    from body False obtain c1 where "find_hostname env c1 = Inr c'" "hardwareAddr c1 = Some hw" "HWAddr c1 = Some hw"
      unfolding once_body_def hw using assms(1) by (auto simp: hw_ok_def split: if_splits)
    then show ?thesis using find_hostname_hw [of env c1 c'] by (simp add: hw_ok_def)
  qed
qed

lemma exchange_hw:
  assumes "ready c" "hardwareAddr c = Some hw" "HWAddr c = Some hw" "ObtainOrRenew lib env c = Inr (c', sent, again)"
  shows "hw_ok hw c' \<and> (\<forall>p \<in> set sent. ClientHWAddr p = hw)"
proof -
  have "sent = exchange_sent lib env c" and
    "HWAddr c' = HWAddr (drawn c) \<and> hardwareAddr c' = hardwareAddr (drawn c) \<and> once4 c' = once4 (drawn c) \<and> onceErr c' = onceErr (drawn c)"
    using assms(4) by (auto simp: ObtainOrRenew_ready [OF assms(1)] bindR_eq_Inr split: sum.splits)
  moreover have "\<forall>p \<in> set (exchange_sent lib env c). ClientHWAddr p = hw"
    using assms(2) by (auto simp: exchange_sent_def discovers_def hw_of_def split: sum.splits)
  ultimately show ?thesis using assms(2,3) by (simp add: hw_ok_def)
qed

lemma obtain_hw:
  assumes "settled c" "hw_ok hw c" "ObtainOrRenew lib env c = Inr (c', sent, again)"
  shows "hw_ok hw c' \<and> (\<forall>p \<in> set sent. ClientHWAddr p = hw)"
proof -
  obtain c1 where c1: "run_once lib env c = Inr c1"
    using assms(3) by (auto simp: ObtainOrRenew_def bindR_eq_Inr)
  note f = run_once_fields [OF c1 assms(1)] run_once_hw [OF assms(2) c1]
  show ?thesis
  proof (cases "onceErr c1 = None")
    case False
    then have "c' = c1\<lparr>err4 := onceErr c1\<rparr>" "sent = []" using assms(3) c1 by (auto simp: ObtainOrRenew_def)
    then show ?thesis using f(6) by (simp add: hw_ok_def)
  next
    case True
    then have r: "ready c1" using f by simp
    have o: "ObtainOrRenew lib env c1 = Inr (c', sent, again)"
      using assms(3) c1 run_once_ready [OF r, of lib env] by (simp add: ObtainOrRenew_def)
    have "hardwareAddr c1 = Some hw" "HWAddr c1 = Some hw" using f(4,6) True by (simp_all add: hw_ok_def)
    then show ?thesis by (rule exchange_hw [OF r _ _ o])
  qed
qed

lemma release_hw:
  assumes "hw_ok hw c" "ready c" "Release4 lib env c = Inr (c', sent, res)"
  shows "hw_ok hw c' \<and> (\<forall>p \<in> set sent. ClientHWAddr p = hw)"
  using assms
  by (auto simp: Release4_def draw_xid_def bindR_eq_Inr hw_ok_def ready_def packet4_def hw_of_def Let_def
      split: option.splits)

section \<open>The daemon\<close>

lemma persist4_hw: "persist4 fs d = (d', out) \<Longrightarrow> client4 d' = client4 d \<and> (\<forall>x \<in> set out. \<forall>p. x \<noteq> Sent p)"
  by (auto simp: persist4_def Let_def split: option.splits)

lemma obtain_step_hw:
  assumes "stored d" "hw_ok hw (client4 d)" "obtain_step lib env fs d = (d', out)"
  shows "hw_ok hw (client4 d') \<and> (\<forall>p. Sent p \<in> set out \<longrightarrow> ClientHWAddr p = hw)"
proof (cases "ObtainOrRenew lib env (client4 d)")
  case (Inl f)
  then show ?thesis using assms by (auto simp: obtain_step_def)
next
  case (Inr r)
  obtain c sent again where r: "r = (c, sent, again)" by (cases r)
  have s: "settled (client4 d)" using assms(1) by (simp add: stored_def)
  note hw = obtain_hw [OF s assms(2) Inr [unfolded r]]
  show ?thesis
  proof (cases "again \<and> err4 c = None")
    case False
    then show ?thesis using hw Inr r assms(3) by (cases "err4 c") (auto simp: obtain_step_def Let_def split: if_splits)
  next
    case True
    then obtain out' where p: "persist4 fs (d\<lparr>client4 := c, boff4 := Reset (boff4 d)\<rparr>) = (d', out')" "out = map Sent sent @ out'"
      using Inr r assms(3) by (auto simp: obtain_step_def Let_def split: prod.splits)
    then show ?thesis using hw persist4_hw [OF p(1)] by auto
  qed
qed

lemma step4_hw:
  assumes "stored d" "hw_ok hw (client4 d)" "step4 lib d e = (d', out)"
  shows "hw_ok hw (client4 d') \<and> (\<forall>p. Sent p \<in> set out \<longrightarrow> ClientHWAddr p = hw)"
proof (cases e)
  case (EvObtain env fs)
  then show ?thesis using assms obtain_step_hw [OF assms(1,2)] by (auto split: if_splits)
next
  case (EvUsr2 env fs)
  show ?thesis
  proof (cases "position4 d = Selecting")
    case True
    then have "ready (client4 d)" using assms(1) by (simp add: stored_def)
    from release_hw [OF assms(2) this, of lib env] show ?thesis
      using EvUsr2 assms(2,3) True by (auto simp: usr2_step_def Let_def split: sum.splits option.splits)
  qed (use EvUsr2 assms in simp)
next
  case (EvMinute r)
  then show ?thesis
    using assms(2,3) by (auto simp: minute_step_def hw_ok_def Let_def split: option.splits if_splits)
qed (use assms in \<open>auto split: if_splits\<close>)

lemma hw4_keep: "stored d \<Longrightarrow> hw_ok hw (client4 d) \<Longrightarrow> hw_ok hw (client4 (fst (step4 lib d e)))"
  using step4_hw [of d hw lib e] by (cases "step4 lib d e") simp

lemma hw4_good:
  "stored d \<Longrightarrow> hw_ok hw (client4 d) \<Longrightarrow> x \<in> set (snd (step4 lib d e)) \<Longrightarrow> \<not> (\<exists>p. x = Sent p \<and> ClientHWAddr p \<noteq> hw)"
  using step4_hw [of d hw lib e] by (cases "step4 lib d e") auto

interpretation hw4: guarded_machine "step4 lib" stored "\<lambda>e. True" "\<lambda>d. hw_ok hw (client4 d)"
    "\<lambda>x. \<exists>p. x = Sent p \<and> ClientHWAddr p \<noteq> hw"
  for lib hw
  by unfold_locales (rule stored_step hw4_keep hw4_good, assumption+)+

lemma start_client4_hw:
  assumes "start_client4 (n # names) interfaceByName file pm messages = Inr c" "Interface file n = Inr d"
    and "interfaceByName n = Inr mac" "if cfg_SpoofHardwareAddr d = '''' then hw = mac else pm (cfg_SpoofHardwareAddr d) = Inr hw"
  shows "hw_ok hw c"
  using assms by (auto simp: start_client4_def hw_ok_def Let_def split: if_splits)

text \<open>
  C7. Every DHCP packet that the client daemon sends in its life carries the hardware address that its
  interface has once netconfigd has applied the same configuration successfully: the spoofed address
  if the configuration has one, and otherwise the one that the interface had.
\<close>

theorem same_hardware_address:
  assumes "start_client4 (n # names) interfaceByName (Decoded cfg) pm messages = Inr c"
    and "Interface (Decoded cfg) n = Inr d" "details_for cfg l = Some d" "interfaceByName n = Inr (l_hw l)"
    and "netlink_ok nl" "applyInterfaces nl pm root (Decoded cfg) w = (w', Inr ())"
    and "w1 = fst (applyBridges nl cfg w)" "distinct (map l_index (links w1))" "\<forall>x \<in> set (links w1). l_oper x \<longrightarrow> l_up x"
    and "l \<in> set (links w1)"
  shows "\<exists>x \<in> set (links w'). l_index x = l_index l \<and> l_name x = n \<and> l_up x \<and>
    (\<forall>p. Sent p \<in> set (snd (run (step4 lib) (start4 c) es)) \<longrightarrow> ClientHWAddr p = l_hw x)"
proof -
  have name: "cfg_Name d = n"
    using assms(2) by (auto simp: Interface_def read_json_def find_Some_iff split: option.splits)
  obtain x where x: "x \<in> set (links w')" "l_index x = l_index l" "l_name x = n" "l_up x" "wanted_hw pm d l (l_hw x)"
    using applied_link [OF assms(5-10,3)] name unfolding configured_def by auto
  have "hw_ok (l_hw x) c"
    using start_client4_hw [OF assms(1,2,4)] x(5) by (simp add: wanted_hw_def)
  then have "hw_ok (l_hw x) (client4 (start4 c))" by (simp add: start4_def)
  then show ?thesis
    using hw4.run_good [where hw = "l_hw x" and es = es and lib = lib, OF settled_start [OF assms(1)]] x
    by (auto simp: list_all_iff)
qed

section \<open>A spoofed uplink\<close>

definition spoof_cfg :: InterfaceConfig where
  "spoof_cfg =
     \<lparr>Interfaces = [\<lparr>cfg_HardwareAddr = '''', cfg_SpoofHardwareAddr = mac_string [2, 0x73, 0x53, 0, 0xb0, 0x0c],
        cfg_Name = ''uplink0'', cfg_Addr = ''''\<rparr>], Bridges = []\<rparr>"

definition old_uplink :: Link where
  "old_uplink = \<lparr>l_index = 0, l_name = ''uplink0'', l_hw = [2, 0, 0, 0, 0, 1], l_up = False, l_oper = False, l_master = None\<rparr>"

definition spoof_world :: World where
  "spoof_world = demo_world\<lparr>links := [old_uplink]\<rparr>"

definition spoof_client :: Client4 where
  "spoof_client =
     \<lparr>Interface4 = Some (l_hw old_uplink), HWAddr = Some [2, 0x73, 0x53, 0, 0xb0, 0x0c], err4 = None, once4 = False,
      onceErr = None, connection = False, hardwareAddr = None, hostname = '''', cfg4 = no_config,
      generateXID = None, xids = 0, Ack = None\<rparr>"

lemma spoof_details: "details_for spoof_cfg old_uplink = Some (Interfaces spoof_cfg ! 0)"
  by (simp add: details_for_def spoof_cfg_def old_uplink_def by_name_def by_hardware_addr_def Let_def
      mac_string_Nil_iff mac_string_inj del: mac_string.simps(2,3))

lemma spoof_Interface: "Interface (Decoded spoof_cfg) ''uplink0'' = Inr (Interfaces spoof_cfg ! 0)"
  by (simp add: Interface_def read_json_def spoof_cfg_def)

lemma spoof_mac:
  "cfg_SpoofHardwareAddr (Interfaces spoof_cfg ! 0) = mac_string [2, 0x73, 0x53, 0, 0xb0, 0x0c]"
  by (simp add: spoof_cfg_def)

lemma spoof_start:
  "start_client4 [''uplink0''] (\<lambda>n. Inr (l_hw old_uplink)) (Decoded spoof_cfg) ParseMAC (Inl (Err ''none'')) = Inr spoof_client"
  using ParseMAC_mac_string [of "[2, 0x73, 0x53, 0, 0xb0, 0x0c]"] mac_string_Nil_iff [of "[2, 0x73, 0x53, 0, 0xb0, 0x0c]"]
  by (simp add: start_client4_def spoof_Interface spoof_mac spoof_client_def Let_def del: mac_string.simps)

lemma spoof_bridges: "fst (applyBridges plain_netlink spoof_cfg spoof_world) = spoof_world"
  by (simp add: applyBridges_def spoof_cfg_def retIO_def)

lemma spoof_apply: "\<exists>w'. applyInterfaces plain_netlink ParseMAC root (Decoded spoof_cfg) spoof_world = (w', Inr ())"
proof -
  have l: "nl_LinkList plain_netlink spoof_world = Inr [old_uplink]" by (simp add: plain_netlink_def spoof_world_def)
  have mac: "ParseMAC (cfg_SpoofHardwareAddr (Interfaces spoof_cfg ! 0)) = Inr [2, 0x73, 0x53, 0, 0xb0, 0x0c]"
    using ParseMAC_mac_string [of "[2, 0x73, 0x53, 0, 0xb0, 0x0c]"] by (simp add: spoof_cfg_def)
  have none: "cfg_Addr (Interfaces spoof_cfg ! 0) = ''''" by (simp add: spoof_cfg_def)
  have "succeeds (eachIO (apply_link plain_netlink ParseMAC root spoof_cfg) [old_uplink])"
    by (simp add: apply_link_def spoof_details apply_details_def mac none) (intro succeeds_intros)
  from succeedsD [OF this] show ?thesis
    unfolding applyInterfaces_def json_file.case spoof_bridges bindIO_query [of "nl_LinkList plain_netlink", OF l] .
qed

lemma same_hardware_address_witness:
  "\<exists>w'. applyInterfaces plain_netlink ParseMAC ''/'' (Decoded spoof_cfg) spoof_world = (w', Inr ()) \<and>
     (\<exists>x \<in> set (links w'). l_name x = ''uplink0'' \<and> l_up x \<and>
        (\<forall>p. Sent p \<in> set (snd (run (step4 plain_dhcp4) (start4 spoof_client) [EvObtain demo_env4 no_errors])) \<longrightarrow>
           ClientHWAddr p = l_hw x))"
proof -
  obtain w' where w': "applyInterfaces plain_netlink ParseMAC ''/'' (Decoded spoof_cfg) spoof_world = (w', Inr ())"
    using spoof_apply by blast
  have one: "distinct (map l_index (links spoof_world))" "\<forall>x \<in> set (links spoof_world). l_oper x \<longrightarrow> l_up x"
    "old_uplink \<in> set (links spoof_world)"
    by (simp_all add: spoof_world_def old_uplink_def)
  show ?thesis
    using same_hardware_address [OF spoof_start spoof_Interface spoof_details refl netlink_ok_plain w' spoof_bridges [symmetric] one]
      w' by blast
qed

end
