(* ===== verification/Spec2Isabelle.thy ===== *)
theory Spec2Isabelle
  imports StatusPage LeaseTypes DelegatedPrefix CapturedSafety FilterHalts Netconfigd Iface WireGuard Support
    ReplayClient FilterGen DiagHeap SpoofedAddress
begin

text \<open>
  rout5 is the software of a home router. Its daemons run under one supervisor and talk to each other
  through files and signals: \<open>cmd/dhcp4\<close> and \<open>cmd/dhcp6\<close> obtain leases on the uplink and write them to
  files; \<open>cmd/netconfigd\<close> reads these and the configuration and changes links, addresses, routes,
  firewall and WireGuard interfaces; \<open>cmd/dhcp4d\<close> serves leases to the local network and shows them on
  a page; \<open>cmd/diagd\<close> checks the connectivity, and the DHCPv4 client daemon asks it whether the router
  is healthy; \<open>cmd/captured\<close> keeps the last packets of interest and replays them over SSH. The daemons
  with listeners keep one per private address of the router (\<open>networking\<close>, \<open>multilisten\<close>).

  The model follows the code function by function. A struct is a record, a Go interface value or a
  tagged choice a datatype, a map an association list with unique keys, a fallible function returns
  \<open>fault + 'a\<close>, where \<open>Err\<close> is an error value and \<open>Panic\<close> a run-time panic; state is passed
  explicitly, and a daemon is a function from its state and an event to its next state and outputs,
  iterated by \<open>run\<close>. The Go standard library is modelled as far as the code uses it. Code outside the
  repository (DHCP packets, netlink, nftables, viper, the database, the BPF virtual machine of the
  kernel) is a parameter, a record of functions; what the code relies on is a predicate on that record,
  named \<open>..._ok\<close>, and every property with such a premise is applied to a concrete instance.

  Foundations.
    Prelude: outcomes, maps, machines, and the contracts \<open>run_machine\<close> (an invariant over all runs),
      \<open>guarded_machine\<close> (what admitted events preserve and never produce), \<open>metered_machine\<close> (a
      quantity that events change by known amounts) and \<open>history_machine\<close> (a relation between the
      state and all events so far). They are interpreted on the lease server, the listener pool and
      the daemons.
    GoLib, NetText, Strconv: times, byte slices, IP addresses, their text forms, hexadecimal, decimal
      and prefixed numbers, sort.Search and sort.Slice.

  DHCPv4 server (\<open>dhcp/dhcp4d\<close>).
    Quirks: the Nintendo table of \<open>quirks.go\<close> and that the bisection finds exactly its entries.
    Dhcp4d: the record \<open>Handler\<close> and every function of \<open>dhcp4d.go\<close>, in its order.
    Dhcp4dDb: the table of leases as a map from numbers to leases; the database invariant.
    Dhcp4dServe: the effect of each kind of message on the table, and the pool invariant.
    Dhcp4dSafety: no address of a running lease is given away, over all histories.
    Dhcp4dProps: the properties of the server.
    Oui, LeaseStatus: the vendor database (\<open>util/oui\<close>) and the daemon's page (\<open>cmd/dhcp4d\<close>).
    Html, StatusPage: the template of the page and what can influence its tags.
    Dhcp4dDaemon: the daemon from its start, over packets, HTTP requests and signals in any order.
    LeaseTypes: a typing of its heap of leases over its history.

  Clients.
    Dhcp4Client, Dhcp4ClientProps: \<open>dhcp/dhcp4\<close>, one exchange over the packets that arrive, and when
      it succeeds. Dhcp6Client: \<open>dhcp/dhcp6\<close>.
    Dhcp4Daemon, Dhcp6Daemon: the loops of \<open>cmd/dhcp4\<close> and \<open>cmd/dhcp6\<close> with the lease files and, for
      DHCPv4, the health check; from the acknowledged packet to the address of the uplink. Backoff:
      the contract \<open>backoff_machine\<close> of both (a wait is the one for the failures since the last lease).
    SpoofedAddress: the hardware address in the daemon's packets is the one netconfigd sets.
    DelegatedPrefix: from the DHCPv6 reply to the address of \<open>lan0\<close> and the listeners on it.
    PcapReplay, PcapReplayProps: \<open>testing/pcapreplayer\<close>, connections that record and replay packets; the
      contract \<open>replay_conn\<close> of both kinds, and that a recording replays what was sent. The predicate
      \<open>pcap_laws\<close> is the documented behaviour of the pcap library, met by the format written out there.
    ReplayClient: the client over a replayed recording, as in \<open>dhcp4_test.go\<close>.

  Network configuration.
    Firewall: the nftables rules of \<open>netconfig.go\<close>, with a rule evaluator whose instructions are a
      parameter. Netconfig, NetconfigProps: leases, links, bridges, sysctls, WireGuard and \<open>Apply\<close> over
      the state \<open>World\<close> of kernel and files. WireGuard: what \<open>wireguard.go\<close> leaves behind.
      Netconfigd: the daemon, its metrics and the kernel's counters. Iface: \<open>networking/iface.go\<close> and \<open>networking/netlink.go\<close>.
    Networking, Multilisten: private and public addresses, and the listener pool with its goroutines.

  Diagnostics and capture.
    Diag, Diagd: the tree of checks, each check, the pages and the summary for the health check.
    DiagHeap: the nodes as objects behind pointers, built by the calls of \<open>Then\<close>, refined to the tree.
    Captured: the generated filter program run by a BPF interpreter and compared with its source
      expression, the ring buffer, and the requests of SSH sessions. FilterHalts: the program one
      instruction at a time. CapturedDaemon: frames, the ring and any number of sessions, each with a
      capture of its own, interleaved in any order. CapturedSafety: what can end the daemon.
    FilterGen: \<open>filterexpr.go\<close>, the generator of the filter program, and a reader of what it writes.

  Configuration, logging and signals (\<open>config\<close>, \<open>db\<close>, \<open>logging\<close>, \<open>ipc\<close>): Config, Support.

  Bounds and recursion. Loops over slices are structural recursion. The bisection terminates by the
  length of its interval, the BPF interpreter by the distance to the end of the program (jumps only go
  forward). Loops that wait for packets run over the finite list of what arrives before the deadline;
  its end is the read error. The daemons' endless loops are runs over arbitrary finite lists of events.
  Ports and metrics are machine words, and counters of the kernel wrap at 2^64; Go's int is an
  unbounded integer where the code cannot reach its limits.

  The objects of the diagnostics are evaluated with fuel: as many levels as there are objects are
  enough, because the daemon allocates every child after its parent.

  Not modelled: log messages, flags, the protocols of the HTTP and SSH servers, the registration of
  metrics, the durations that the back-off package computes, the encoding of packets and files by
  gopacket, pcapgo and libpcap, and \<open>Notify\<close> and \<open>NotifyAll\<close> of \<open>ipc\<close>, which have no body. The files
  \<open>empty.go\<close> and \<open>cmd/rout5/main.go\<close> have no code. Goroutines are modelled where they share state with
  the code: the end of a listener's goroutine, scrapes during the life of netconfigd, the goroutines
  of a capture. A packet socket and its filter are set up in one step.
  A round of \<open>Apply\<close> is atomic; Netconfigd has a lemma on what a scrape in its middle does.
\<close>

section \<open>The daemons together\<close>

text \<open>
  The DHCPv4 client daemon reads its interface from a variable of the configuration that \<open>Init\<close> never
  sets: with the configuration as any process sees it, it panics at its first line.
\<close>

lemma dhcp4_daemon_needs_interfaces:
  assumes "Init vp os (config0 v) = Goes_on c"
  shows "start_client4 (DHCPInterfaces c) interfaceByName cfgfile parseMAC messages = Inl (Panic ''index out of range'')"
  using Init_DHCPInterfaces [OF assms] by (simp add: start_client4_def config0_def)

end
